(* ===== verification/Prelude.thy ===== *)
theory Prelude
  imports Main "HOL-Library.Word"
begin

text \<open>
  Shared vocabulary of the development: the machine integer types of the firmware, the return
  codes of the operating system, fixed-size C arrays, sequencing of state transformers, and the
  collections of facts the component proofs are run with.

  A C function with side effects is a state transformer \<open>'s \<Rightarrow> 's\<close> (or
  \<open>'s \<Rightarrow> 'r \<times> 's\<close> when it also returns a value); a sequence of
  statements is \<open>block [f, g, h]\<close>, which runs \<open>f\<close> first.
\<close>

unbundle bit_operations_syntax

section \<open>Machine integers\<close>

type_synonym uint8 = "8 word"
type_synonym uint16 = "16 word"
type_synonym uint32 = "32 word"
text \<open>
  A C \<open>int\<close> or \<open>long\<close> of the target (32 bit, two's complement) is a \<open>32 word\<close>
  that signed comparisons read through \<open>sint\<close>.
\<close>
type_synonym int32 = "32 word"

abbreviation (input) RT_EOK :: uint8 where "RT_EOK \<equiv> 0"
abbreviation (input) RT_ERROR :: uint8 where "RT_ERROR \<equiv> 1"

section \<open>Collections\<close>

text \<open>Equations that say which part of the state an operation leaves alone.\<close>
named_theorems frame
text \<open>Facts that an operation keeps an invariant.\<close>
named_theorems keeps

section \<open>Fixed-size arrays\<close>

text \<open>
  A C array is a list of its declared length. The firmware performs no bounds check, so an index
  past the end is undefined behaviour; the model reads the value 0 and drops the write there, and
  the well-formedness invariants of the components show that no reachable state gets to that case.
\<close>

definition arr_get :: "'a::zero list \<Rightarrow> nat \<Rightarrow> 'a" where
  "arr_get xs i = (if i < length xs then xs ! i else 0)"

definition arr_set :: "'a list \<Rightarrow> nat \<Rightarrow> 'a \<Rightarrow> 'a list" where
  "arr_set xs i v = xs[i := v]"

lemma length_arr_set [simp]: "length (arr_set xs i v) = length xs"
  by (simp add: arr_set_def)

lemma arr_get_set_same [simp]: "i < length xs \<Longrightarrow> arr_get (arr_set xs i v) i = v"
  by (simp add: arr_get_def arr_set_def)

lemma arr_get_set_other [simp]: "i \<noteq> j \<Longrightarrow> arr_get (arr_set xs j v) i = arr_get xs i"
  by (simp add: arr_get_def arr_set_def)

lemma arr_get_set: "j < length xs \<Longrightarrow>
    arr_get (arr_set xs j v) i = (if i = j then v else arr_get xs i)"
  by simp

lemma arr_get_replicate [simp]: "arr_get (replicate n 0) i = 0"
  by (simp add: arr_get_def)

lemma arr_set_get_same [simp]: "arr_set xs i (arr_get xs i) = xs"
  by (cases "i < length xs") (simp_all add: arr_set_def arr_get_def list_update_beyond)

section \<open>Words\<close>

lemma uint32_bounds: "0 \<le> uint (w :: uint32)" "uint (w :: uint32) < 4294967296"
  using uint_bounded [of w] by simp_all

lemma sint32_bounds: "- 2147483648 \<le> sint (w :: int32)" "sint (w :: int32) \<le> 2147483647"
proof -
  show "- 2147483648 \<le> sint w" using sint_greater_eq [of w] by simp
  show "sint w \<le> 2147483647" using sint_less [of w] by simp
qed

lemma word_of_int_sint32 [simp]: "word_of_int (sint (w :: int32)) = w"
  by simp

lemma word32_le_iff_unat: "(a :: uint32) \<le> b \<longleftrightarrow> unat a \<le> unat b"
  by (rule word_le_nat_alt)

section \<open>Sequencing\<close>

primrec block :: "('s \<Rightarrow> 's) list \<Rightarrow> 's \<Rightarrow> 's" where
  "block [] s = s"
| "block (f # fs) s = block fs (f s)"

text \<open>\<open>keeps_inv I f\<close>: the transformer \<open>f\<close> maps states of \<open>I\<close> to states of \<open>I\<close>.\<close>

definition keeps_inv :: "('s \<Rightarrow> bool) \<Rightarrow> ('s \<Rightarrow> 's) \<Rightarrow> bool" where
  "keeps_inv I f \<longleftrightarrow> (\<forall>s. I s \<longrightarrow> I (f s))"

lemma keeps_invI: "(\<And>s. I s \<Longrightarrow> I (f s)) \<Longrightarrow> keeps_inv I f"
  by (simp add: keeps_inv_def)

lemma keeps_invD: "keeps_inv I f \<Longrightarrow> I s \<Longrightarrow> I (f s)"
  by (simp add: keeps_inv_def)

lemma keeps_inv_block [keeps]:
  "keeps_inv I f \<Longrightarrow> keeps_inv I (block fs) \<Longrightarrow> keeps_inv I (block (f # fs))" "keeps_inv I (block [])"
  by (simp_all add: keeps_inv_def)

lemma keeps_inv_id [keeps]: "keeps_inv I id" "keeps_inv I (\<lambda>s. s)"
  by (simp_all add: keeps_inv_def)

text \<open>
  A statement whose condition, or whose arguments, are read from the state: \<open>cond p f g\<close> is
  \<open>if (p) f; else g;\<close>, and \<open>reading g f\<close> evaluates \<open>g\<close> and passes the value on.
\<close>

definition cond :: "('s \<Rightarrow> bool) \<Rightarrow> ('s \<Rightarrow> 's) \<Rightarrow> ('s \<Rightarrow> 's) \<Rightarrow> 's \<Rightarrow> 's" where
  "cond p f g s = (if p s then f s else g s)"

definition reading :: "('s \<Rightarrow> 'a) \<Rightarrow> ('a \<Rightarrow> 's \<Rightarrow> 's) \<Rightarrow> 's \<Rightarrow> 's" where
  "reading g f s = f (g s) s"

lemma cond_simps [simp]: "p s \<Longrightarrow> cond p f g s = f s" "\<not> p s \<Longrightarrow> cond p f g s = g s"
  by (simp_all add: cond_def)

lemma reading_apply [simp]: "reading g f s = f (g s) s"
  by (simp add: reading_def)

lemma keeps_inv_cond [keeps]: "keeps_inv I f \<Longrightarrow> keeps_inv I g \<Longrightarrow> keeps_inv I (cond p f g)"
  by (simp add: keeps_inv_def cond_def)

lemma keeps_inv_reading [keeps]: "(\<And>x. keeps_inv I (f x)) \<Longrightarrow> keeps_inv I (reading g f)"
  by (simp add: keeps_inv_def)

lemma keeps_inv_if [keeps]:
  "(b \<Longrightarrow> keeps_inv I f) \<Longrightarrow> (\<not> b \<Longrightarrow> keeps_inv I g) \<Longrightarrow> keeps_inv I (if b then f else g)"
  by simp

lemma keeps_inv_prod [keeps]:
  "(\<And>a b. keeps_inv I (f a b)) \<Longrightarrow> keeps_inv I (case p of (a, b) \<Rightarrow> f a b)"
  by (cases p) simp

lemma keeps_inv_fold: "(\<And>x. x \<in> set xs \<Longrightarrow> keeps_inv I (f x)) \<Longrightarrow> keeps_inv I (fold f xs)"
proof (induction xs)
  case (Cons x xs)
  then show ?case by (simp add: keeps_inv_def)
qed (simp add: keeps_inv_def)

end
