(* ===== verification/MessageQueue.thy ===== *)
theory MessageQueue
  imports Prelude
begin

text \<open>
  The message queue of the kernel (\<open>src/rt-thread/src/ipc.c\<close>): a pool of nodes, each in the list of
  free nodes, in the list of queued messages, or in the hands of a call that is under way. A send takes
  a free node, fills it and links it; a receive unlinks the first node, copies it and releases it. Each
  of these sections runs with interrupts disabled, and other calls may run between them, so that the
  calls are modelled by their sections. Nodes are numbered; \<open>None\<close> is the null pointer. The
  message is a value of the type variable; its size is an argument, as in the source.

  Shown are that each section keeps the pool in order, and that a call that is not interrupted is the
  operation of a bounded queue. (The theory \<open>QueueInterleaving\<close> lets the sections of several calls mix.)
\<close>

section \<open>Sections\<close>

record 'a rt_messagequeue =
  msg_size :: nat
  max_msgs :: nat
  entry :: uint16
  msg_queue_head :: "nat option"
  msg_queue_tail :: "nat option"
  msg_queue_free :: "nat option"
  next_of :: "nat \<Rightarrow> nat option"
  content :: "nat \<Rightarrow> 'a option"

definition RT_MQ_ENTRY_MAX :: uint16 where "RT_MQ_ENTRY_MAX = 65535"

abbreviation (input) EFULL :: int where "EFULL \<equiv> - 3"
abbreviation (input) EERROR :: int where "EERROR \<equiv> - 1"
abbreviation (input) ETIMEOUT :: int where "ETIMEOUT \<equiv> - 2"

definition mq_release :: "nat \<Rightarrow> 'a rt_messagequeue \<Rightarrow> 'a rt_messagequeue" where
  "mq_release msg q =
     q\<lparr>next_of := (next_of q)(msg := msg_queue_free q), msg_queue_free := Some msg\<rparr>"

text \<open>\<open>rt_mq_create\<close>: every node is pushed on the list of free nodes. The size is a multiple of 4.\<close>

definition rt_mq_create :: "nat \<Rightarrow> nat \<Rightarrow> 'a rt_messagequeue" where
  "rt_mq_create sz n =
     fold mq_release [0 ..< n]
       \<lparr>msg_size = (sz + 3) div 4 * 4, max_msgs = n, entry = 0, msg_queue_head = None, msg_queue_tail = None,
        msg_queue_free = None, next_of = (\<lambda>_. None), content = (\<lambda>_. None)\<rparr>"

definition mq_take_free :: "'a rt_messagequeue \<Rightarrow> nat option \<times> 'a rt_messagequeue" where
  "mq_take_free q =
     (case msg_queue_free q of
        None \<Rightarrow> (None, q)
      | Some msg \<Rightarrow> (Some msg, q\<lparr>msg_queue_free := next_of q msg\<rparr>))"

definition mq_count :: "'a rt_messagequeue \<Rightarrow> int \<times> 'a rt_messagequeue" where
  "mq_count q = (if entry q < RT_MQ_ENTRY_MAX then (0, q\<lparr>entry := entry q + 1\<rparr>) else (EFULL, q))"

definition mq_link_tail :: "nat \<Rightarrow> 'a \<Rightarrow> 'a rt_messagequeue \<Rightarrow> int \<times> 'a rt_messagequeue" where
  "mq_link_tail msg buffer q =
     (let q1 = q\<lparr>next_of := (next_of q)(msg := None), content := (content q)(msg := Some buffer)\<rparr>;
          q2 = (case msg_queue_tail q1 of
                  None \<Rightarrow> q1
                | Some t \<Rightarrow> q1\<lparr>next_of := (next_of q1)(t := Some msg)\<rparr>);
          q3 = q2\<lparr>msg_queue_tail := Some msg\<rparr>;
          q4 = (if msg_queue_head q3 = None then q3\<lparr>msg_queue_head := Some msg\<rparr> else q3)
      in mq_count q4)"

definition mq_link_head :: "nat \<Rightarrow> 'a \<Rightarrow> 'a rt_messagequeue \<Rightarrow> int \<times> 'a rt_messagequeue" where
  "mq_link_head msg buffer q =
     (let q1 = q\<lparr>content := (content q)(msg := Some buffer)\<rparr>;
          q2 = q1\<lparr>next_of := (next_of q1)(msg := msg_queue_head q1)\<rparr>;
          q3 = q2\<lparr>msg_queue_head := Some msg\<rparr>;
          q4 = (if msg_queue_tail q3 = None then q3\<lparr>msg_queue_tail := Some msg\<rparr> else q3)
      in mq_count q4)"

text \<open>\<open>None\<close> when the queue is empty, where the caller waits or gives up.\<close>

definition mq_unlink :: "'a rt_messagequeue \<Rightarrow> (nat \<times> 'a rt_messagequeue) option" where
  "mq_unlink q =
     (if entry q = 0 then None
      else case msg_queue_head q of
        None \<Rightarrow> None
      | Some msg \<Rightarrow>
          let q1 = q\<lparr>msg_queue_head := next_of q msg\<rparr>;
              q2 = (if msg_queue_tail q1 = Some msg then q1\<lparr>msg_queue_tail := None\<rparr> else q1)
          in Some (msg, q2\<lparr>entry := entry q2 - 1\<rparr>))"

section \<open>Calls that are not interrupted\<close>

definition rt_mq_send_wait :: "'a \<Rightarrow> nat \<Rightarrow> 'a rt_messagequeue \<Rightarrow> int \<times> 'a rt_messagequeue" where
  "rt_mq_send_wait buffer sz q =
     (if sz > msg_size q then (EERROR, q)
      else case mq_take_free q of
        (None, q1) \<Rightarrow> (EFULL, q1)
      | (Some msg, q1) \<Rightarrow> mq_link_tail msg buffer q1)"

definition rt_mq_urgent_call :: "'a \<Rightarrow> nat \<Rightarrow> 'a rt_messagequeue \<Rightarrow> int \<times> 'a rt_messagequeue" where
  "rt_mq_urgent_call buffer sz q =
     (if sz > msg_size q then (EERROR, q)
      else case mq_take_free q of
        (None, q1) \<Rightarrow> (EFULL, q1)
      | (Some msg, q1) \<Rightarrow> mq_link_head msg buffer q1)"

definition rt_mq_recv_call :: "'a rt_messagequeue \<Rightarrow> (int \<times> 'a option) \<times> 'a rt_messagequeue" where
  "rt_mq_recv_call q =
     (case mq_unlink q of
        None \<Rightarrow> ((ETIMEOUT, None), q)
      | Some (msg, q1) \<Rightarrow> ((0, content q1 msg), mq_release msg q1))"

section \<open>The pool\<close>

fun linked :: "(nat \<Rightarrow> nat option) \<Rightarrow> nat option \<Rightarrow> nat list \<Rightarrow> bool" where
  "linked nx p [] \<longleftrightarrow> p = None"
| "linked nx p (x # xs) \<longleftrightarrow> p = Some x \<and> linked nx (nx x) xs"

text \<open>
  \<open>qs\<close> are the queued nodes, \<open>fs\<close> the free ones, \<open>hs\<close> those in the hands of a call;
  \<open>ms\<close> are the queued messages.
\<close>

definition pool :: "'a rt_messagequeue \<Rightarrow> nat list \<Rightarrow> nat list \<Rightarrow> nat list \<Rightarrow> 'a list \<Rightarrow> bool" where
  "pool q qs fs hs ms \<longleftrightarrow> distinct (qs @ fs @ hs) \<and> set (qs @ fs @ hs) = {0 ..< max_msgs q} \<and>
     linked (next_of q) (msg_queue_head q) qs \<and> linked (next_of q) (msg_queue_free q) fs \<and>
     msg_queue_tail q = (if qs = [] then None else Some (last qs)) \<and> unat (entry q) = length qs \<and>
     map (content q) qs = map Some ms"

lemma linked_upd_other: "x \<notin> set xs \<Longrightarrow> linked (nx(x := v)) p xs = linked nx p xs"
  by (induction xs arbitrary: p) auto

lemma linked_snoc:
  "linked nx p qs \<Longrightarrow> distinct (qs @ [x]) \<Longrightarrow> qs \<noteq> [] \<Longrightarrow> linked (nx(x := None, last qs := Some x)) p (qs @ [x])"
proof (induction qs arbitrary: p)
  case (Cons y ys)
  show ?case
  proof (cases "ys = []")
    case False
    then have "y \<noteq> last ys" using Cons.prems(2) by auto
    then show ?thesis using Cons False by auto
  qed (use Cons.prems in auto)
qed simp

lemma linked_cons_iff: "linked nx p (x # xs) \<Longrightarrow> p = Some x \<and> linked nx (nx x) xs"
  by simp

lemma unat_entry_Suc: "unat (e :: uint16) < 65535 \<Longrightarrow> unat (e + 1) = Suc (unat e)"
  by (simp add: unat_word_ariths)

text \<open>Taking a free node.\<close>

lemma pool_take:
  assumes "pool q qs fs hs ms"
  shows "fs = [] \<Longrightarrow> mq_take_free q = (None, q)"
    "fs = x # fs' \<Longrightarrow> \<exists>q'. mq_take_free q = (Some x, q') \<and> pool q' qs fs' (x # hs) ms \<and> max_msgs q' = max_msgs q \<and>
      msg_size q' = msg_size q"
  using assms by (auto simp: pool_def mq_take_free_def)

lemma pool_size: "pool q qs fs hs ms \<Longrightarrow> length qs + length fs + length hs = max_msgs q"
  using distinct_card [of "qs @ fs @ hs"] by (auto simp: pool_def)

lemma mq_count_ok: "unat (entry q) < 65535 \<Longrightarrow> mq_count q = (0, q\<lparr>entry := entry q + 1\<rparr>)"
  by (simp add: mq_count_def RT_MQ_ENTRY_MAX_def word_less_nat_alt)

text \<open>Linking a node that the call holds.\<close>

lemma pool_link_tail:
  assumes p: "pool q qs fs (hs1 @ x # hs2) ms" and n: "max_msgs q \<le> 65535"
  shows "\<exists>q'. mq_link_tail x m q = (0, q') \<and> pool q' (qs @ [x]) fs (hs1 @ hs2) (ms @ [m]) \<and> max_msgs q' = max_msgs q \<and>
    msg_size q' = msg_size q"
proof -
  have e: "unat (entry q) < 65535" using pool_size [OF p] n p by (simp add: pool_def)
  have d: "x \<notin> set qs" "x \<notin> set fs" "distinct (qs @ [x])" using p by (auto simp: pool_def)
  have c: "map ((content q)(x := Some m)) qs = map Some ms" using p d(1) by (auto simp: pool_def)
  show ?thesis
  proof (cases "qs = []")
    case True
    then have ms: "ms = []" using p by (simp add: pool_def)
    show ?thesis using True p e d c ms
      by (auto simp: mq_link_tail_def pool_def mq_count_ok Let_def linked_upd_other unat_entry_Suc)
  next
    case False
    have t: "last qs \<notin> set fs" "last qs \<noteq> x"
      using p d(1) last_in_set [OF False] by (auto simp: pool_def disjoint_iff)
    have h: "msg_queue_head q \<noteq> None" using False p by (cases qs) (auto simp: pool_def)
    show ?thesis using False p e d c t h linked_snoc [of "next_of q" "msg_queue_head q" qs x]
      by (auto simp: mq_link_tail_def pool_def mq_count_ok Let_def linked_upd_other unat_entry_Suc)
  qed
qed

lemma pool_link_head:
  assumes p: "pool q qs fs (hs1 @ x # hs2) ms" and n: "max_msgs q \<le> 65535"
  shows "\<exists>q'. mq_link_head x m q = (0, q') \<and> pool q' (x # qs) fs (hs1 @ hs2) (m # ms) \<and> max_msgs q' = max_msgs q \<and>
    msg_size q' = msg_size q"
proof -
  have e: "unat (entry q) < 65535" using pool_size [OF p] n p by (simp add: pool_def)
  have d: "x \<notin> set qs" "x \<notin> set fs" using p by (auto simp: pool_def)
  have c: "map ((content q)(x := Some m)) qs = map Some ms" using p d(1) by (auto simp: pool_def)
  have t: "msg_queue_tail q = None \<longleftrightarrow> qs = []" using p by (simp add: pool_def)
  show ?thesis using p e d c t
    by (auto simp: mq_link_head_def pool_def mq_count_ok Let_def linked_upd_other unat_entry_Suc)
qed

lemma pool_unlink:
  assumes p: "pool q qs fs hs ms"
  shows "qs = [] \<Longrightarrow> mq_unlink q = None"
    "qs = x # qs' \<Longrightarrow> \<exists>q' m ms'. mq_unlink q = Some (x, q') \<and> ms = m # ms' \<and> content q' x = Some m \<and>
      pool q' qs' fs (x # hs) ms' \<and> max_msgs q' = max_msgs q \<and> msg_size q' = msg_size q"
proof -
  have z: "entry q = 0 \<longleftrightarrow> qs = []" using p by (auto simp: pool_def word_unat_eq_iff)
  show "qs = [] \<Longrightarrow> mq_unlink q = None" by (simp add: mq_unlink_def z)
  assume qs: "qs = x # qs'"
  then obtain m ms' where ms: "ms = m # ms'" using p by (cases ms) (auto simp: pool_def)
  have e: "unat (entry q - 1) = length qs'"
    using p qs z by (simp add: pool_def unat_sub word_le_nat_alt)
  have l: "qs' \<noteq> [] \<Longrightarrow> last qs' \<noteq> x" using p qs last_in_set by (auto simp: pool_def)
  show "\<exists>q' m ms'. mq_unlink q = Some (x, q') \<and> ms = m # ms' \<and> content q' x = Some m \<and>
      pool q' qs' fs (x # hs) ms' \<and> max_msgs q' = max_msgs q \<and> msg_size q' = msg_size q"
    using p qs ms e l z by (auto simp: mq_unlink_def pool_def Let_def)
qed

lemma pool_release:
  assumes "pool q qs fs (hs1 @ x # hs2) ms"
  shows "pool (mq_release x q) qs (x # fs) (hs1 @ hs2) ms"
  using assms by (auto simp: pool_def mq_release_def linked_upd_other)

lemma max_msgs_release [simp]: "max_msgs (mq_release x q) = max_msgs q"
  by (simp add: mq_release_def)

lemma pool_release_all:
  assumes "pool q [] [] [0 ..< n] []" "k \<le> n"
  shows "pool (fold mq_release [0 ..< k] q) [] (rev [0 ..< k]) [k ..< n] [] \<and>
    max_msgs (fold mq_release [0 ..< k] q) = max_msgs q"
  using assms(2)
proof (induction k)
  case (Suc k)
  let ?q = "fold mq_release [0 ..< k] q"
  have "pool ?q [] (rev [0 ..< k]) ([] @ k # [Suc k ..< n]) []" "max_msgs ?q = max_msgs q"
    using Suc upt_conv_Cons [of k n] by simp_all
  then show ?case using pool_release [of ?q "[]" "rev [0 ..< k]" "[]" k "[Suc k ..< n]" "[]"]
    by simp
qed (use assms(1) in simp)

lemma pool_create: "pool (rt_mq_create sz n :: 'a rt_messagequeue) [] (rev [0 ..< n]) [] []"
  "max_msgs (rt_mq_create sz n :: 'a rt_messagequeue) = n"
proof -
  let ?q = "\<lparr>msg_size = (sz + 3) div 4 * 4, max_msgs = n, entry = 0, msg_queue_head = None, msg_queue_tail = None,
        msg_queue_free = None, next_of = (\<lambda>_. None), content = (\<lambda>_. None :: 'a option)\<rparr>"
  have "pool ?q [] [] [0 ..< n] []" by (simp add: pool_def)
  from pool_release_all [OF this order.refl]
  show "pool (rt_mq_create sz n :: 'a rt_messagequeue) [] (rev [0 ..< n]) [] []"
    "max_msgs (rt_mq_create sz n :: 'a rt_messagequeue) = n"
    by (simp_all add: rt_mq_create_def)
qed

section \<open>A call that is not interrupted is an operation of a bounded queue\<close>

definition holds :: "'a rt_messagequeue \<Rightarrow> 'a list \<Rightarrow> bool" where
  "holds q ms \<longleftrightarrow> max_msgs q \<le> 65535 \<and> (\<exists>qs fs. pool q qs fs [] ms)"

lemma holdsI: "pool q qs fs [] ms \<Longrightarrow> max_msgs q \<le> 65535 \<Longrightarrow> holds q ms"
  by (auto simp: holds_def)

lemma holds_take:
  assumes "holds q ms"
  obtains (full) "\<not> length ms < max_msgs q" "mq_take_free q = (None, q)"
  | (room) x q1 qs fs where "length ms < max_msgs q" "mq_take_free q = (Some x, q1)" "pool q1 qs fs ([] @ x # []) ms"
      "max_msgs q1 \<le> 65535"
proof -
  obtain qs fs where p: "pool q qs fs [] ms" and n: "max_msgs q \<le> 65535" using assms by (auto simp: holds_def)
  have "length ms = length qs" using p by (metis length_map pool_def)
  then have l: "length ms < max_msgs q \<longleftrightarrow> fs \<noteq> []" using pool_size [OF p] by (cases fs) auto
  show thesis
  proof (cases fs)
    case Nil
    then show thesis using full l pool_take(1) [OF p] by simp
  next
    case (Cons x fs')
    then show thesis using room l n pool_take(2) [OF p Cons] by auto
  qed
qed

lemma holds_send:
  assumes "holds q ms" "sz \<le> msg_size q"
  shows "if length ms < max_msgs q
    then fst (rt_mq_send_wait m sz q) = 0 \<and> holds (snd (rt_mq_send_wait m sz q)) (ms @ [m])
    else rt_mq_send_wait m sz q = (EFULL, q)"
  using assms(1)
proof (cases rule: holds_take)
  case (room x q1 qs fs)
  obtain q' where l: "mq_link_tail x m q1 = (0, q')" "pool q' (qs @ [x]) fs [] (ms @ [m])" "max_msgs q' = max_msgs q1"
    using pool_link_tail [OF room(3,4), of m] by auto
  have "holds q' (ms @ [m])" using l(2,3) room(4) by (intro holdsI) simp_all
  then show ?thesis using l(1) room assms(2) by (simp add: rt_mq_send_wait_def)
qed (use assms(2) in \<open>simp add: rt_mq_send_wait_def\<close>)

lemma holds_urgent:
  assumes "holds q ms" "sz \<le> msg_size q"
  shows "if length ms < max_msgs q
    then fst (rt_mq_urgent_call m sz q) = 0 \<and> holds (snd (rt_mq_urgent_call m sz q)) (m # ms)
    else rt_mq_urgent_call m sz q = (EFULL, q)"
  using assms(1)
proof (cases rule: holds_take)
  case (room x q1 qs fs)
  obtain q' where l: "mq_link_head x m q1 = (0, q')" "pool q' (x # qs) fs [] (m # ms)" "max_msgs q' = max_msgs q1"
    using pool_link_head [OF room(3,4), of m] by auto
  have "holds q' (m # ms)" using l(2,3) room(4) by (intro holdsI) simp_all
  then show ?thesis using l(1) room assms(2) by (simp add: rt_mq_urgent_call_def)
qed (use assms(2) in \<open>simp add: rt_mq_urgent_call_def\<close>)

lemma holds_recv:
  assumes "holds q ms"
  shows "case ms of [] \<Rightarrow> rt_mq_recv_call q = ((ETIMEOUT, None), q)
    | m # ms' \<Rightarrow> fst (rt_mq_recv_call q) = (0, Some m) \<and> holds (snd (rt_mq_recv_call q)) ms'"
proof -
  obtain qs fs where p: "pool q qs fs [] ms" and n: "max_msgs q \<le> 65535" using assms by (auto simp: holds_def)
  show ?thesis
  proof (cases qs)
    case Nil
    then show ?thesis using p pool_unlink(1) [OF p] by (auto simp: rt_mq_recv_call_def pool_def)
  next
    case (Cons x qs')
    then obtain q' m ms' where u: "mq_unlink q = Some (x, q')" "ms = m # ms'" "content q' x = Some m"
      "pool q' qs' fs ([] @ x # []) ms'" "max_msgs q' = max_msgs q" using pool_unlink(2) [OF p Cons] by auto
    from pool_release [OF u(4)] have "pool (mq_release x q') qs' (x # fs) [] ms'" by simp
    then have "holds (mq_release x q') ms'" using u(5) n by (intro holdsI) simp_all
    then show ?thesis using u(1-3) by (simp add: rt_mq_recv_call_def)
  qed
qed

section \<open>The bounded queue\<close>

text \<open>
  The calls as their users see them: a message queue of \<open>n\<close> slots is the list of its messages,
  head first; the results are the return code (0, or -3 for \<open>-RT_EFULL\<close>) and the queue. Both sends
  are the non-blocking calls. The sections above implement them (\<open>queue_calls\<close>).
\<close>

definition rt_mq_send :: "nat \<Rightarrow> 'a \<Rightarrow> 'a list \<Rightarrow> int \<times> 'a list" where
  "rt_mq_send n m q = (if length q < n then (0, q @ [m]) else (- 3, q))"

definition rt_mq_urgent :: "nat \<Rightarrow> 'a \<Rightarrow> 'a list \<Rightarrow> int \<times> 'a list" where
  "rt_mq_urgent n m q = (if length q < n then (0, m # q) else (- 3, q))"

definition rt_mq_recv :: "'a list \<Rightarrow> ('a \<times> 'a list) option" where
  "rt_mq_recv q = (case q of [] \<Rightarrow> None | m # ms \<Rightarrow> Some (m, ms))"

text \<open>What the radio task relies on: a bounded queue with two ends to send at.\<close>

locale bounded_queue =
  fixes send :: "'a \<Rightarrow> 'a list \<Rightarrow> int \<times> 'a list" and urgent :: "'a \<Rightarrow> 'a list \<Rightarrow> int \<times> 'a list"
    and cap :: nat
  assumes send_ok: "length q < cap \<Longrightarrow> send m q = (0, q @ [m])"
    and send_full: "cap \<le> length q \<Longrightarrow> snd (send m q) = q \<and> fst (send m q) < 0"
    and urgent_ok: "length q < cap \<Longrightarrow> urgent m q = (0, m # q)"
    and urgent_full: "cap \<le> length q \<Longrightarrow> snd (urgent m q) = q \<and> fst (urgent m q) < 0"
begin

lemma bound_send: "length q \<le> cap \<Longrightarrow> length (snd (send m q)) \<le> cap"
  by (cases "length q < cap") (simp_all add: send_ok send_full)

lemma bound_urgent: "length q \<le> cap \<Longrightarrow> length (snd (urgent m q)) \<le> cap"
  by (cases "length q < cap") (simp_all add: urgent_ok urgent_full)

lemma send_keeps_order: "\<exists>r. snd (send m q) = q @ r \<and> set r \<subseteq> {m}"
  by (cases "length q < cap") (simp_all add: send_ok send_full)

lemma accepted_iff: "fst (send m q) = 0 \<longleftrightarrow> length q < cap" "fst (urgent m q) = 0 \<longleftrightarrow> length q < cap"
  by (metis fst_conv linorder_not_le send_full send_ok less_irrefl,
      metis fst_conv linorder_not_le urgent_full urgent_ok less_irrefl)

end

interpretation mq: bounded_queue "rt_mq_send n" "rt_mq_urgent n" n
  by unfold_locales (auto simp: rt_mq_send_def rt_mq_urgent_def)

section \<open>Properties\<close>

text \<open>
  C39: On a queue that holds the messages \<open>ms\<close>, a send, an urgent send and a receive that are not interrupted
  return and leave what the bounded queue returns and leaves; a message that is too long is refused.
\<close>

theorem queue_calls:
  fixes m :: 'a
  assumes "holds q ms" "sz \<le> msg_size q"
  shows "(\<exists>q'. rt_mq_send_wait m sz q = (fst (rt_mq_send (max_msgs q) m ms), q') \<and> holds q' (snd (rt_mq_send (max_msgs q) m ms))) \<and>
    (\<exists>q'. rt_mq_urgent_call m sz q = (fst (rt_mq_urgent (max_msgs q) m ms), q') \<and> holds q' (snd (rt_mq_urgent (max_msgs q) m ms))) \<and>
    (case rt_mq_recv ms of
       None \<Rightarrow> rt_mq_recv_call q = ((ETIMEOUT, None), q)
     | Some (m', ms') \<Rightarrow> \<exists>q'. rt_mq_recv_call q = ((0, Some m'), q') \<and> holds q' ms') \<and>
    (msg_size q < sz' \<longrightarrow> rt_mq_send_wait m sz' q = (EERROR, q) \<and> rt_mq_urgent_call m sz' q = (EERROR, q))"
proof (intro conjI)
  show "\<exists>q'. rt_mq_send_wait m sz q = (fst (rt_mq_send (max_msgs q) m ms), q') \<and> holds q' (snd (rt_mq_send (max_msgs q) m ms))"
    using holds_send [OF assms, of m] assms(1)
    by (cases "rt_mq_send_wait m sz q") (auto simp: rt_mq_send_def split: if_splits)
  show "\<exists>q'. rt_mq_urgent_call m sz q = (fst (rt_mq_urgent (max_msgs q) m ms), q') \<and> holds q' (snd (rt_mq_urgent (max_msgs q) m ms))"
    using holds_urgent [OF assms, of m] assms(1)
    by (cases "rt_mq_urgent_call m sz q") (auto simp: rt_mq_urgent_def split: if_splits)
  show "case rt_mq_recv ms of None \<Rightarrow> rt_mq_recv_call q = ((ETIMEOUT, None), q)
     | Some (m', ms') \<Rightarrow> \<exists>q'. rt_mq_recv_call q = ((0, Some m'), q') \<and> holds q' ms'"
    using holds_recv [OF assms(1)] by (cases "rt_mq_recv_call q"; cases ms) (auto simp: rt_mq_recv_def)
  show "msg_size q < sz' \<longrightarrow> rt_mq_send_wait m sz' q = (EERROR, q) \<and> rt_mq_urgent_call m sz' q = (EERROR, q)"
    by (simp add: rt_mq_send_wait_def rt_mq_urgent_call_def)
qed

theorem queue_calls_witness: "fst (rt_mq_send_wait (7 :: nat) 4 (rt_mq_create 4 2)) = 0"
proof -
  have "holds (rt_mq_create 4 2) ([] :: nat list)"
    by (rule holdsI [OF pool_create(1)]) (simp add: pool_create(2))
  moreover have "msg_size (rt_mq_create 4 2 :: nat rt_messagequeue) = 4" by code_simp
  ultimately show ?thesis
    using queue_calls [of "rt_mq_create 4 2" "[]" 4 "7 :: nat" 0]
    by (auto simp: rt_mq_send_def pool_create(2))
qed

end
