(* ===== verification/Board.thy ===== *)
theory Board
  imports MessageQueue
begin

text \<open>
  The services of the operating system and of the board that the firmware calls: GPIO pins
  (\<open>rt_pin_*\<close>), software timers (\<open>src/rt-thread/src/timer.c\<close>), semaphores
  (\<open>src/rt-thread/src/ipc.c\<close>; the message queues are in their own theory), and tick conversion (\<open>clock.c\<close>).

  A failed \<open>RT_ASSERT\<close> stops the device; the model records it in the sticky flag
  \<open>fault\<close>, so that \<open>\<not> fault\<close> as an invariant says that no assertion ever fails.
  The soft timer list is kept in order, with the insertion rule of \<open>rt_timer_start\<close> (one
  skip-list level, the configured value).
\<close>

section \<open>Pins\<close>

abbreviation (input) Turn1 :: nat where "Turn1 \<equiv> 9"
abbreviation (input) Turn2 :: nat where "Turn2 \<equiv> 11"
abbreviation (input) Senor1 :: nat where "Senor1 \<equiv> 8"
abbreviation (input) Senor2 :: nat where "Senor2 \<equiv> 10"
abbreviation (input) Peak_ON :: nat where "Peak_ON \<equiv> 15"
abbreviation (input) Peak_Loss :: nat where "Peak_Loss \<equiv> 19"
abbreviation (input) K0 :: nat where "K0 \<equiv> 0"
abbreviation (input) K1 :: nat where "K1 \<equiv> 1"
abbreviation (input) ANT_EXT :: nat where "ANT_EXT \<equiv> 26"
abbreviation (input) ANT_INT :: nat where "ANT_INT \<equiv> 18"
abbreviation (input) ANT_SW :: nat where "ANT_SW \<equiv> 113"
abbreviation (input) BEEP_PIN :: nat where "BEEP_PIN \<equiv> 112"
abbreviation (input) LED0_PIN :: nat where "LED0_PIN \<equiv> 20"
abbreviation (input) LED3_PIN :: nat where "LED3_PIN \<equiv> 23"
abbreviation (input) LED4_PIN :: nat where "LED4_PIN \<equiv> 24"
abbreviation (input) LED5_PIN :: nat where "LED5_PIN \<equiv> 25"
abbreviation (input) TEST_PIN :: nat where "TEST_PIN \<equiv> 45"

abbreviation (input) PIN_HIGH :: bool where "PIN_HIGH \<equiv> True"
abbreviation (input) PIN_LOW :: bool where "PIN_LOW \<equiv> False"

datatype pin_mode = PIN_MODE_OUTPUT | PIN_MODE_INPUT | PIN_MODE_INPUT_PULLUP

section \<open>State\<close>

datatype timer = Learn_Timer | Delay_Timer | Moto1_Timer_Act | Moto2_Timer_Act
  | Moto1_Timer_Detect | Moto2_Timer_Detect | Moto_Detect_Timer | waterscan_timer
  | ntcscan_timer | Heart_Test_t | Heart_Check_t | Gateway_Sync_t | Factory_Cycle

record rt_timer =
  init_tick :: uint32
  periodic :: bool
  activated :: bool
  timeout_tick :: uint32

datatype semaphore = K0_Sem | K0_Long_Sem | K1_Sem | K1_Long_Sem | K0_K1_Long_Sem | RTC_IRQ_Sem

record board =
  tick :: uint32
  pin_in :: "nat \<Rightarrow> bool"
  pin_out :: "nat \<Rightarrow> bool"
  mode_of :: "nat \<Rightarrow> pin_mode"
  pin_irq :: "nat \<Rightarrow> bool"
  timers :: "timer \<Rightarrow> rt_timer option"
  soft_timer_list :: "timer list"
  sems :: "semaphore \<Rightarrow> uint16 option"
  fault :: bool

definition assert_fail :: "board \<Rightarrow> board" where
  "assert_fail = fault_update (\<lambda>_. True)"

definition rt_pin_mode :: "nat \<Rightarrow> pin_mode \<Rightarrow> board \<Rightarrow> board" where
  "rt_pin_mode p m = mode_of_update (\<lambda>f. f(p := m))"

definition rt_pin_write :: "nat \<Rightarrow> bool \<Rightarrow> board \<Rightarrow> board" where
  "rt_pin_write p v = pin_out_update (\<lambda>f. f(p := v))"

definition rt_pin_read :: "nat \<Rightarrow> board \<Rightarrow> bool" where
  "rt_pin_read p b = (if mode_of b p = PIN_MODE_OUTPUT then pin_out b p else pin_in b p)"

definition rt_pin_irq_enable :: "nat \<Rightarrow> bool \<Rightarrow> board \<Rightarrow> board" where
  "rt_pin_irq_enable p en = pin_irq_update (\<lambda>f. f(p := en))"

definition RT_TICK_MAX_half :: uint32 where
  "RT_TICK_MAX_half = 2147483647"

definition rt_tick_from_millisecond :: "int32 \<Rightarrow> uint32" where
  "rt_tick_from_millisecond ms =
     (if sint ms < 0 then 4294967295
      else 1000 * (ms div 1000) + (1000 * (ms mod 1000) + 999) div 1000)"

section \<open>Software timers\<close>

definition rt_timer_create :: "timer \<Rightarrow> uint32 \<Rightarrow> bool \<Rightarrow> board \<Rightarrow> board" where
  "rt_timer_create t time per =
     timers_update (\<lambda>f. f(t \<mapsto> \<lparr>init_tick = time, periodic = per, activated = False, timeout_tick = 0\<rparr>))"

definition timer_remove :: "timer \<Rightarrow> board \<Rightarrow> board" where
  "timer_remove t = soft_timer_list_update (removeAll t)"

definition timeout_of :: "board \<Rightarrow> timer \<Rightarrow> uint32" where
  "timeout_of b t = (case timers b t of None \<Rightarrow> 0 | Some r \<Rightarrow> timeout_tick r)"

text \<open>The place where \<open>rt_timer_start\<close> links a timer that times out at \<open>due\<close>.\<close>

fun timer_insert :: "(timer \<Rightarrow> uint32) \<Rightarrow> timer \<Rightarrow> uint32 \<Rightarrow> timer list \<Rightarrow> timer list" where
  "timer_insert to t due [] = [t]"
| "timer_insert to t due (u # us) =
     (if to u - due = 0 then u # timer_insert to t due us
      else if to u - due < RT_TICK_MAX_half then t # u # us
      else u # timer_insert to t due us)"

definition rt_timer_start :: "timer \<Rightarrow> board \<Rightarrow> board" where
  "rt_timer_start t b =
     (case timers b t of
        None \<Rightarrow> assert_fail b
      | Some r \<Rightarrow>
          let b1 = timer_remove t b;
              due = tick b + init_tick r
          in b1\<lparr>timers := (timers b1)(t \<mapsto> r\<lparr>timeout_tick := due, activated := True\<rparr>),
                soft_timer_list := timer_insert (timeout_of b1) t due (soft_timer_list b1)\<rparr>)"

definition rt_timer_stop :: "timer \<Rightarrow> board \<Rightarrow> board" where
  "rt_timer_stop t b =
     (case timers b t of
        None \<Rightarrow> assert_fail b
      | Some r \<Rightarrow>
          if \<not> activated r then b
          else (timer_remove t b)\<lparr>timers := (timers b)(t \<mapsto> r\<lparr>activated := False\<rparr>)\<rparr>)"

definition timer_active :: "timer \<Rightarrow> board \<Rightarrow> bool" where
  "timer_active t b = (case timers b t of None \<Rightarrow> False | Some r \<Rightarrow> activated r)"

definition timer_made :: "timer \<Rightarrow> board \<Rightarrow> bool" where
  "timer_made t b = (timers b t \<noteq> None)"

text \<open>
  One round of the loop of \<open>rt_soft_timer_check\<close>: the head of the list is due and is unlinked
  (\<open>soft_timer_expire\<close>), its callback runs, and a periodic timer that the callback neither
  stopped nor restarted is started again (\<open>soft_timer_rearm\<close>).
\<close>

definition timer_due :: "board \<Rightarrow> timer \<Rightarrow> bool" where
  "timer_due b t = (tick b - timeout_of b t < RT_TICK_MAX_half)"

definition soft_timer_next :: "board \<Rightarrow> timer option" where
  "soft_timer_next b =
     (case soft_timer_list b of [] \<Rightarrow> None | t # _ \<Rightarrow> if timer_due b t then Some t else None)"

definition soft_timer_expire :: "timer \<Rightarrow> board \<Rightarrow> board" where
  "soft_timer_expire t b =
     (timer_remove t b)\<lparr>timers := (timers b)(t := map_option
        (\<lambda>r. if periodic r then r else r\<lparr>activated := False\<rparr>) (timers b t))\<rparr>"

definition soft_timer_rearm :: "timer \<Rightarrow> board \<Rightarrow> board" where
  "soft_timer_rearm t b =
     (case timers b t of
        None \<Rightarrow> b
      | Some r \<Rightarrow>
          if periodic r \<and> activated r \<and> t \<notin> set (soft_timer_list b) then rt_timer_start t b else b)"

section \<open>Semaphores\<close>

definition rt_sem_create :: "semaphore \<Rightarrow> uint16 \<Rightarrow> board \<Rightarrow> board" where
  "rt_sem_create m v = sems_update (\<lambda>f. f(m \<mapsto> v))"

text \<open>\<open>rt_sem_take(sem, 0)\<close>; the result is true for \<open>RT_EOK\<close>, false for \<open>-RT_ETIMEOUT\<close>.\<close>

definition rt_sem_take :: "semaphore \<Rightarrow> board \<Rightarrow> bool \<times> board" where
  "rt_sem_take m b =
     (case sems b m of
        None \<Rightarrow> (False, assert_fail b)
      | Some v \<Rightarrow> if v > 0 then (True, b\<lparr>sems := (sems b)(m \<mapsto> v - 1)\<rparr>) else (False, b))"

definition rt_sem_release :: "semaphore \<Rightarrow> board \<Rightarrow> board" where
  "rt_sem_release m b =
     (case sems b m of
        None \<Rightarrow> assert_fail b
      | Some v \<Rightarrow> if v < 65535 then b\<lparr>sems := (sems b)(m \<mapsto> v + 1)\<rparr> else b)"

section \<open>Facts\<close>

lemma assert_fail_sel [frame, simp]:
  "tick (assert_fail b) = tick b" "pin_in (assert_fail b) = pin_in b"
  "pin_out (assert_fail b) = pin_out b" "mode_of (assert_fail b) = mode_of b"
  "pin_irq (assert_fail b) = pin_irq b" "timers (assert_fail b) = timers b"
  "soft_timer_list (assert_fail b) = soft_timer_list b" "sems (assert_fail b) = sems b"
  "fault (assert_fail b)"
  by (simp_all add: assert_fail_def)

lemma rt_pin_write_sel [frame, simp]:
  "tick (rt_pin_write p v b) = tick b" "pin_in (rt_pin_write p v b) = pin_in b"
  "pin_out (rt_pin_write p v b) = (pin_out b)(p := v)" "mode_of (rt_pin_write p v b) = mode_of b"
  "pin_irq (rt_pin_write p v b) = pin_irq b" "timers (rt_pin_write p v b) = timers b"
  "soft_timer_list (rt_pin_write p v b) = soft_timer_list b" "sems (rt_pin_write p v b) = sems b"
  "fault (rt_pin_write p v b) = fault b"
  by (simp_all add: rt_pin_write_def)

lemma rt_pin_irq_enable_sel [frame, simp]:
  "tick (rt_pin_irq_enable p v b) = tick b" "pin_in (rt_pin_irq_enable p v b) = pin_in b"
  "pin_out (rt_pin_irq_enable p v b) = pin_out b" "mode_of (rt_pin_irq_enable p v b) = mode_of b"
  "pin_irq (rt_pin_irq_enable p v b) = (pin_irq b)(p := v)"
  "timers (rt_pin_irq_enable p v b) = timers b"
  "soft_timer_list (rt_pin_irq_enable p v b) = soft_timer_list b"
  "sems (rt_pin_irq_enable p v b) = sems b" "fault (rt_pin_irq_enable p v b) = fault b"
  by (simp_all add: rt_pin_irq_enable_def)

lemma rt_pin_mode_sel [frame, simp]:
  "tick (rt_pin_mode p v b) = tick b" "pin_in (rt_pin_mode p v b) = pin_in b"
  "pin_out (rt_pin_mode p v b) = pin_out b" "mode_of (rt_pin_mode p v b) = (mode_of b)(p := v)"
  "pin_irq (rt_pin_mode p v b) = pin_irq b" "timers (rt_pin_mode p v b) = timers b"
  "soft_timer_list (rt_pin_mode p v b) = soft_timer_list b" "sems (rt_pin_mode p v b) = sems b"
  "fault (rt_pin_mode p v b) = fault b"
  by (simp_all add: rt_pin_mode_def)

lemma timer_remove_sel [frame, simp]:
  "tick (timer_remove t b) = tick b" "pin_in (timer_remove t b) = pin_in b"
  "pin_out (timer_remove t b) = pin_out b" "mode_of (timer_remove t b) = mode_of b"
  "pin_irq (timer_remove t b) = pin_irq b" "timers (timer_remove t b) = timers b"
  "soft_timer_list (timer_remove t b) = removeAll t (soft_timer_list b)"
  "sems (timer_remove t b) = sems b" "fault (timer_remove t b) = fault b"
  by (simp_all add: timer_remove_def)

lemma rt_timer_start_sel [frame, simp]:
  "tick (rt_timer_start t b) = tick b" "pin_in (rt_timer_start t b) = pin_in b"
  "pin_out (rt_timer_start t b) = pin_out b" "mode_of (rt_timer_start t b) = mode_of b"
  "pin_irq (rt_timer_start t b) = pin_irq b" "sems (rt_timer_start t b) = sems b"
  "fault (rt_timer_start t b) \<longleftrightarrow> fault b \<or> \<not> timer_made t b"
  by (auto simp: rt_timer_start_def timer_made_def Let_def split: option.split)

lemma rt_timer_stop_sel [frame, simp]:
  "tick (rt_timer_stop t b) = tick b" "pin_in (rt_timer_stop t b) = pin_in b"
  "pin_out (rt_timer_stop t b) = pin_out b" "mode_of (rt_timer_stop t b) = mode_of b"
  "pin_irq (rt_timer_stop t b) = pin_irq b" "sems (rt_timer_stop t b) = sems b"
  "fault (rt_timer_stop t b) \<longleftrightarrow> fault b \<or> \<not> timer_made t b"
  by (auto simp: rt_timer_stop_def timer_made_def split: option.split)

lemma rt_sem_sel [frame, simp]:
  "pin_out (rt_sem_release m b) = pin_out b" "timers (rt_sem_release m b) = timers b"
  "soft_timer_list (rt_sem_release m b) = soft_timer_list b"
  "pin_out (snd (rt_sem_take m b)) = pin_out b" "timers (snd (rt_sem_take m b)) = timers b"
  "soft_timer_list (snd (rt_sem_take m b)) = soft_timer_list b"
  "fault (rt_sem_release m b) \<longleftrightarrow> fault b \<or> sems b m = None"
  "fault (snd (rt_sem_take m b)) \<longleftrightarrow> fault b \<or> sems b m = None"
  by (auto simp: rt_sem_release_def rt_sem_take_def split: option.split)

lemma rt_sem_made [simp]:
  "sems (rt_sem_release m b) k = None \<longleftrightarrow> sems b k = None"
  "sems (snd (rt_sem_take m b)) k = None \<longleftrightarrow> sems b k = None"
  by (auto simp: rt_sem_release_def rt_sem_take_def split: option.split)

subsection \<open>The timer service\<close>

lemma set_timer_insert [simp]: "set (timer_insert to t due us) = insert t (set us)"
  by (induction us) auto

lemma distinct_timer_insert [simp]:
  "distinct (timer_insert to t due us) \<longleftrightarrow> t \<notin> set us \<and> distinct us"
  by (induction us) auto

lemma timer_made_start [simp]: "timer_made u (rt_timer_start t b) = timer_made u b"
  by (auto simp: timer_made_def rt_timer_start_def Let_def split: option.split)

lemma timer_made_stop [simp]: "timer_made u (rt_timer_stop t b) = timer_made u b"
  by (auto simp: timer_made_def rt_timer_stop_def split: option.split)

lemma timer_active_made: "timer_active t b \<Longrightarrow> timer_made t b"
  by (auto simp: timer_active_def timer_made_def split: option.splits)

lemma timer_active_start:
  "timer_active u (rt_timer_start t b) \<longleftrightarrow> timer_active u b \<or> u = t \<and> timer_made t b"
  by (auto simp: timer_made_def timer_active_def rt_timer_start_def Let_def split: option.split)

lemma timer_active_stop:
  "timer_active u (rt_timer_stop t b) \<longleftrightarrow> timer_active u b \<and> u \<noteq> t"
  by (auto simp: timer_made_def timer_active_def rt_timer_stop_def split: option.splits)

lemma soft_timer_list_start:
  assumes "timer_made t b"
  shows "set (soft_timer_list (rt_timer_start t b)) = insert t (set (soft_timer_list b))"
    "distinct (soft_timer_list (rt_timer_start t b)) = distinct (removeAll t (soft_timer_list b))"
  using assms by (auto simp: rt_timer_start_def timer_made_def Let_def)

lemma soft_timer_list_stop:
  "set (soft_timer_list (rt_timer_stop t b)) = (if timer_active t b then set (soft_timer_list b) - {t} else set (soft_timer_list b))"
  "distinct (soft_timer_list b) \<Longrightarrow> distinct (soft_timer_list (rt_timer_stop t b))"
  by (auto simp: rt_timer_stop_def timer_active_def distinct_removeAll split: option.split)

lemma periodic_start_stop:
  "timers (rt_timer_start t b) u = Some r \<Longrightarrow> \<exists>r'. timers b u = Some r' \<and> periodic r' = periodic r"
  "timers (rt_timer_stop t b) u = Some r \<Longrightarrow> \<exists>r'. timers b u = Some r' \<and> periodic r' = periodic r"
  by (auto simp: rt_timer_start_def rt_timer_stop_def Let_def split: option.splits if_splits)

text \<open>
  What the clients of the timer service rely on: starting and stopping act on one timer only, and
  neither creates one. A client that stops several timers in a row leaves them all at rest.
\<close>

locale timer_service =
  fixes start :: "'t \<Rightarrow> 's \<Rightarrow> 's" and stop :: "'t \<Rightarrow> 's \<Rightarrow> 's"
    and running :: "'t \<Rightarrow> 's \<Rightarrow> bool" and made :: "'t \<Rightarrow> 's \<Rightarrow> bool"
  assumes running_start: "running u (start t s) \<longleftrightarrow> running u s \<or> u = t \<and> made t s"
    and running_stop: "running u (stop t s) \<longleftrightarrow> running u s \<and> u \<noteq> t"
    and made_start: "made u (start t s) = made u s"
    and made_stop: "made u (stop t s) = made u s"
begin

lemma running_stops: "running u (fold stop ts s) \<longleftrightarrow> running u s \<and> u \<notin> set ts"
  by (induction ts arbitrary: s) (auto simp: running_stop)

lemma made_stops: "made u (fold stop ts s) = made u s"
  by (induction ts arbitrary: s) (auto simp: made_stop)

lemma running_starts: "running u (fold start ts s) \<longleftrightarrow> running u s \<or> u \<in> set ts \<and> made u s"
  by (induction ts arbitrary: s) (auto simp: running_start made_start)

lemma start_stop: "running u (stop t (start t s)) = (running u s \<and> u \<noteq> t)"
  by (auto simp: running_start running_stop)

end

interpretation soft: timer_service rt_timer_start rt_timer_stop timer_active timer_made
  by unfold_locales (simp_all add: timer_active_start timer_active_stop)

text \<open>
  The list of running timers agrees with the flags: outside a timer callback the timers of the list
  are exactly the activated ones, each once.
\<close>

definition timers_wf :: "board \<Rightarrow> bool" where
  "timers_wf b \<longleftrightarrow> distinct (soft_timer_list b) \<and>
     (\<forall>t. t \<in> set (soft_timer_list b) \<longleftrightarrow> timer_active t b)"

lemma timers_wf_start: "timers_wf b \<Longrightarrow> timers_wf (rt_timer_start t b)"
  unfolding timers_wf_def timer_active_start
  by (auto simp: rt_timer_start_def timer_made_def Let_def distinct_removeAll split: option.split)

lemma timers_wf_stop: "timers_wf b \<Longrightarrow> timers_wf (rt_timer_stop t b)"
  unfolding timers_wf_def timer_active_stop
  by (auto simp: rt_timer_stop_def timer_active_def distinct_removeAll split: option.splits)

text \<open>A started timer is due exactly when its period has passed (within half the tick range).\<close>

lemma timeout_of_start: "timers b t = Some r \<Longrightarrow> timeout_of (rt_timer_start t b) t = tick b + init_tick r"
  by (simp add: timeout_of_def rt_timer_start_def Let_def)

lemma word_mono_half:
  fixes d p :: uint32
  assumes "p < RT_TICK_MAX_half" "d < RT_TICK_MAX_half"
  shows "d - p < RT_TICK_MAX_half \<longleftrightarrow> p \<le> d"
proof (cases "p \<le> d")
  case True
  then have "unat (d - p) = unat d - unat p" by (simp add: unat_sub)
  with assms(2) True show ?thesis by (simp add: word_less_nat_alt)
next
  case False
  then have lt: "unat d < unat p" by (simp add: word_le_nat_alt)
  have "unat (d - p) = 2 ^ 32 + unat d - unat p"
    using unat_sub_if' [of d p] lt by (simp add: word_le_nat_alt)
  moreover have "unat p < 2147483647" using assms(1) by (simp add: RT_TICK_MAX_half_def word_less_nat_alt)
  ultimately have "\<not> unat (d - p) < 2147483647" by simp
  with False show ?thesis by (simp add: RT_TICK_MAX_half_def word_less_nat_alt)
qed

section \<open>Properties of the timers\<close>

definition in_order :: "uint32 \<Rightarrow> (timer \<Rightarrow> uint32) \<Rightarrow> timer list \<Rightarrow> bool" where
  "in_order now to ts \<longleftrightarrow> (\<forall>u \<in> set ts. to u - now < RT_TICK_MAX_half) \<and> sorted (map (\<lambda>u. to u - now) ts)"

lemma timer_insert_sorted:
  assumes "in_order now to us" "due - now < RT_TICK_MAX_half" "t \<notin> set us"
  shows "in_order now (to(t := due)) (timer_insert to t due us)"
  using assms
proof (induction us)
  case (Cons u us)
  have u: "to u - now < RT_TICK_MAX_half" using Cons.prems(1) by (simp add: in_order_def)
  have k: "to u - due < RT_TICK_MAX_half \<longleftrightarrow> due - now \<le> to u - now"
    using word_mono_half [OF Cons.prems(2) u] by simp
  have t: "t \<noteq> u" "t \<notin> set us" using Cons.prems(3) by auto
  have m: "map (\<lambda>x. (if x = t then due else to x) - now) us = map (\<lambda>x. to x - now) us" using t(2) by auto
  have IH: "in_order now (to(t := due)) (timer_insert to t due us)"
    using Cons by (simp add: in_order_def)
  show ?case
  proof (cases "to u - due \<noteq> 0 \<and> to u - due < RT_TICK_MAX_half")
    case True
    then have "timer_insert to t due (u # us) = t # u # us" by simp
    moreover have "\<forall>x \<in> set us. due - now \<le> to x - now"
      using k True Cons.prems(1) by (auto simp: in_order_def)
    ultimately show ?thesis using Cons.prems(1,2) k True t by (auto simp: in_order_def m)
  next
    case False
    then have le: "to u - now \<le> due - now" using k by auto
    then show ?thesis using IH False Cons.prems u t
      by (auto simp: in_order_def)
  qed
qed (simp add: in_order_def)



text \<open>
  C33: A started timer is due exactly when its period has passed, for every value of the 32-bit tick counter,
  its overflow included, as long as less than half the range of the counter passes.
\<close>

theorem timer_due_exact:
  assumes "timers b t = Some r" "init_tick r < RT_TICK_MAX_half" "d < RT_TICK_MAX_half"
  shows "timer_due ((rt_timer_start t b)\<lparr>tick := tick b + d\<rparr>) t \<longleftrightarrow> init_tick r \<le> d"
proof -
  have "timeout_of ((rt_timer_start t b)\<lparr>tick := tick b + d\<rparr>) t = tick b + init_tick r"
    using timeout_of_start [OF assms(1)] by (simp add: timeout_of_def)
  then have "timer_due ((rt_timer_start t b)\<lparr>tick := tick b + d\<rparr>) t \<longleftrightarrow> d - init_tick r < RT_TICK_MAX_half"
    by (simp add: timer_due_def)
  then show ?thesis using word_mono_half [OF assms(2,3)] by simp
qed


text \<open>A board with one timer, shortly before the tick counter overflows.\<close>

definition sample_board :: board where
  "sample_board = \<lparr>tick = 4294967290, pin_in = (\<lambda>_. False), pin_out = (\<lambda>_. False), mode_of = (\<lambda>_. PIN_MODE_INPUT),
     pin_irq = (\<lambda>_. False), timers = [Delay_Timer \<mapsto> \<lparr>init_tick = 100, periodic = False, activated = False,
       timeout_tick = 0\<rparr>], soft_timer_list = [], sems = (\<lambda>_. None), fault = False\<rparr>"

theorem timer_due_exact_witness:
  "\<not> timer_due ((rt_timer_start Delay_Timer sample_board)\<lparr>tick := 93\<rparr>) Delay_Timer \<and>
   timer_due ((rt_timer_start Delay_Timer sample_board)\<lparr>tick := 94\<rparr>) Delay_Timer"
proof -
  let ?r = "\<lparr>init_tick = 100, periodic = False, activated = False, timeout_tick = 0\<rparr>"
  have t: "timers sample_board Delay_Timer = Some ?r" by (simp add: sample_board_def)
  have k: "tick sample_board + 99 = 93" "tick sample_board + 100 = 94" by code_simp+
  show ?thesis
    using timer_due_exact [OF t, of 99] timer_due_exact [OF t, of 100] unfolding k by (simp add: RT_TICK_MAX_half_def)
qed

text \<open>
  The list of running timers stays sorted by the time that is left, whatever timer is started, so that the
  timer that is due first is at its head.
\<close>

theorem timers_in_order:
  assumes "in_order (tick b) (timeout_of b) (soft_timer_list b)" "timers b t = Some r" "init_tick r < RT_TICK_MAX_half"
  shows "in_order (tick b) (timeout_of (rt_timer_start t b)) (soft_timer_list (rt_timer_start t b))"
proof -
  let ?us = "removeAll t (soft_timer_list b)"
  have "in_order (tick b) (timeout_of b) ?us"
    using assms(1) sorted_filter [of "\<lambda>u. timeout_of b u - tick b" "soft_timer_list b" "\<lambda>u. u \<noteq> t"]
    by (auto simp: in_order_def removeAll_filter_not_eq neq_commute [of t])
  then have "in_order (tick b) ((timeout_of b)(t := tick b + init_tick r))
      (timer_insert (timeout_of b) t (tick b + init_tick r) ?us)"
    using assms(3) by (intro timer_insert_sorted) simp_all
  moreover have "timeout_of (rt_timer_start t b) = (timeout_of b)(t := tick b + init_tick r)"
    using assms(2) by (auto simp: rt_timer_start_def timeout_of_def Let_def)
  moreover have "timeout_of (timer_remove t b) = timeout_of b" by (auto simp: timeout_of_def timer_remove_def)
  ultimately show ?thesis using assms(2) by (simp add: rt_timer_start_def Let_def timer_remove_def)
qed


theorem timers_in_order_witness:
  "in_order 4294967290 (timeout_of (rt_timer_start Delay_Timer sample_board)) [Delay_Timer]"
  using timers_in_order [of sample_board Delay_Timer]
  by (simp add: sample_board_def RT_TICK_MAX_half_def in_order_def rt_timer_start_def Let_def timer_remove_def)

end
