(* ===== verification/CStrings.thy ===== *)
theory CStrings
  imports Prelude
begin

text \<open>
  The C string routines the firmware relies on: decimal printing (the conversions \<open>%d\<close>,
  \<open>%ld\<close> and their zero-padded forms), \<open>strtol\<close>/\<open>atol\<close> of the C library, and
  the firmware's own \<open>rt_sscanf\<close> (\<open>src/radio/Radio_Decoder_Utils.c\<close>). A C string is
  the list of its characters before the terminating NUL. The main results are round trips:
  what is printed is parsed back, for every value of the 32-bit \<open>long\<close>.
\<close>

section \<open>Printing\<close>

definition digit_char :: "nat \<Rightarrow> char" where
  "digit_char d = char_of (48 + d)"

fun show_nat :: "nat \<Rightarrow> string" where
  "show_nat n = (if n < 10 then [digit_char n] else show_nat (n div 10) @ [digit_char (n mod 10)])"

declare show_nat.simps [simp del]

definition show_int :: "int \<Rightarrow> string" where
  "show_int i = (if i < 0 then CHR ''-'' # show_nat (nat (- i)) else show_nat (nat i))"

text \<open>\<open>%0<w>d\<close>: the field has at least \<open>w\<close> characters, zeros go between sign and digits.\<close>

definition show_pad :: "nat \<Rightarrow> int \<Rightarrow> string" where
  "show_pad w i =
     (if i < 0 then let ds = show_nat (nat (- i)) in CHR ''-'' # replicate (w - 1 - length ds) CHR ''0'' @ ds
      else let ds = show_nat (nat i) in replicate (w - length ds) CHR ''0'' @ ds)"

text \<open>\<open>%ld\<close> of a 32-bit argument: the bits are read as a signed \<open>long\<close>.\<close>

definition show_ld :: "uint32 \<Rightarrow> string" where
  "show_ld w = show_int (sint w)"

section \<open>Parsing\<close>

definition isspace :: "char \<Rightarrow> bool" where
  "isspace c \<longleftrightarrow> (let v = of_char c :: nat in v = 32 \<or> 9 \<le> v \<and> v \<le> 13)"

definition digit_in :: "nat \<Rightarrow> char \<Rightarrow> nat option" where
  "digit_in base c =
     (let v = of_char c :: nat;
          d = (if 48 \<le> v \<and> v \<le> 57 then v - 48
               else if 65 \<le> v \<and> v \<le> 90 then v - 55
               else if 97 \<le> v \<and> v \<le> 122 then v - 87 else base)
      in if d < base then Some d else None)"

abbreviation is_digit_in :: "nat \<Rightarrow> char \<Rightarrow> bool" where
  "is_digit_in base c \<equiv> digit_in base c \<noteq> None"

definition digits_val :: "nat \<Rightarrow> string \<Rightarrow> nat" where
  "digits_val base ds = foldl (\<lambda>acc c. base * acc + the (digit_in base c)) 0 ds"

definition LONG_MAX :: int where "LONG_MAX = 2147483647"
definition LONG_MIN :: int where "LONG_MIN = - 2147483648"

definition clamp_long :: "int \<Rightarrow> int" where
  "clamp_long i = (if i > LONG_MAX then LONG_MAX else if i < LONG_MIN then LONG_MIN else i)"

fun strtol_sign :: "string \<Rightarrow> bool \<times> string" where
  "strtol_sign [] = (False, [])"
| "strtol_sign (c # cs) =
     (if c = CHR ''-'' then (True, cs) else if c = CHR ''+'' then (False, cs) else (False, c # cs))"

definition strtol_prefix :: "nat \<Rightarrow> string \<Rightarrow> string" where
  "strtol_prefix base s =
     (case s of
        c0 # c1 # c2 # r \<Rightarrow>
          if base = 16 \<and> c0 = CHR ''0'' \<and> (c1 = CHR ''x'' \<or> c1 = CHR ''X'') \<and> is_digit_in 16 c2
          then c2 # r else s
      | _ \<Rightarrow> s)"

text \<open>
  \<open>strtol(s, &ep, base)\<close>: \<open>None\<close> when there is no digit to convert (then \<open>ep\<close> is
  \<open>s\<close>), otherwise the value, saturated at the limits of \<open>long\<close>, and the text at \<open>ep\<close>.
\<close>

definition strtol :: "nat \<Rightarrow> string \<Rightarrow> (int \<times> string) option" where
  "strtol base s =
     (let (neg, r) = strtol_sign (dropWhile isspace s);
          r' = strtol_prefix base r;
          ds = takeWhile (is_digit_in base) r';
          v = int (digits_val base ds)
      in if ds = [] then None
         else Some (clamp_long (if neg then - v else v), dropWhile (is_digit_in base) r'))"

definition atol :: "string \<Rightarrow> int32" where
  "atol s = (case strtol 10 s of None \<Rightarrow> 0 | Some (v, _) \<Rightarrow> word_of_int v)"

text \<open>
  The loop of \<open>rt_sscanf\<close>; the result lists the values stored through the successive
  \<open>int *\<close> arguments, so its length is the return value. An unknown conversion is skipped, as
  in the source; a format that ends in \<open>%\<close> stops the scan.
\<close>

fun rt_sscanf :: "string \<Rightarrow> string \<Rightarrow> int32 list" where
  "rt_sscanf [] fp = []"
| "rt_sscanf (r # rp) [] = []"
| "rt_sscanf (r # rp) (fc # fp) =
     (if isspace fc then rt_sscanf (r # rp) fp
      else if fc \<noteq> CHR ''%'' then
        (case dropWhile isspace (r # rp) of
           [] \<Rightarrow> []
         | c # rp' \<Rightarrow> if fc \<noteq> c then [] else rt_sscanf rp' fp)
      else
        (case fp of
           [] \<Rightarrow> []
         | fc' # fp' \<Rightarrow>
             if fc' = CHR ''d'' \<or> fc' = CHR ''x'' then
               (case strtol (if fc' = CHR ''d'' then 10 else 16) (r # rp) of
                  None \<Rightarrow> []
                | Some (v, ep) \<Rightarrow> word_of_int v # rt_sscanf ep fp')
             else rt_sscanf (r # rp) fp'))"

section \<open>Digits\<close>

lemma digit_in_digit_char [simp]: "d < 10 \<Longrightarrow> digit_in 10 (digit_char d) = Some d"
  by (simp add: digit_in_def digit_char_def)

lemma digit_char_inject [simp]:
  assumes "a < 10" "b < 10"
  shows "digit_char a = digit_char b \<longleftrightarrow> a = b"
  using assms by (metis digit_in_digit_char option.inject)

lemma digit_not_special [simp]:
  "d < 10 \<Longrightarrow> \<not> isspace (digit_char d)"
  "d < 10 \<Longrightarrow> digit_char d \<noteq> CHR ''-''"
  "d < 10 \<Longrightarrow> digit_char d \<noteq> CHR ''+''"
proof -
  assume d: "d < 10"
  have v: "of_char (digit_char d) = (48 + d :: nat)"
    using d by (simp add: digit_char_def)
  show "\<not> isspace (digit_char d)" using d v by (simp add: isspace_def)
  show "digit_char d \<noteq> CHR ''-''" using d v by (auto dest!: arg_cong [where f = "of_char :: char \<Rightarrow> nat"])
  show "digit_char d \<noteq> CHR ''+''" using d v by (auto dest!: arg_cong [where f = "of_char :: char \<Rightarrow> nat"])
qed

lemma show_nat_small: "n < 10 \<Longrightarrow> show_nat n = [digit_char n]"
  by (subst show_nat.simps) simp

lemma show_nat_step: "10 \<le> n \<Longrightarrow> show_nat n = show_nat (n div 10) @ [digit_char (n mod 10)]"
  by (subst show_nat.simps) simp

lemma show_nat_nonempty [simp]: "show_nat n \<noteq> []"
  by (subst show_nat.simps) simp

lemma show_nat_digits: "c \<in> set (show_nat n) \<Longrightarrow> \<exists>d < 10. c = digit_char d"
proof (induction n rule: show_nat.induct)
  case (1 n)
  show ?case
  proof (cases "n < 10")
    case True
    with 1(2) show ?thesis by (auto simp: show_nat_small)
  next
    case False
    then have "10 \<le> n" by simp
    with 1(2) have "c \<in> set (show_nat (n div 10)) \<or> c = digit_char (n mod 10)"
      by (auto simp: show_nat_step)
    moreover have "n mod 10 < 10" by simp
    ultimately show ?thesis using 1(1) False by blast
  qed
qed

lemma digits_val_append: "digits_val b (xs @ [c]) = b * digits_val b xs + the (digit_in b c)"
  by (simp add: digits_val_def)

lemma digits_val_show_nat [simp]: "digits_val 10 (show_nat n) = n"
proof (induction n rule: show_nat.induct)
  case (1 n)
  show ?case
  proof (cases "n < 10")
    case True
    then show ?thesis by (simp add: show_nat_small digits_val_def)
  next
    case False
    with 1 have "digits_val 10 (show_nat n) = 10 * (n div 10) + n mod 10"
      by (simp add: show_nat_step digits_val_append)
    then show ?thesis by simp
  qed
qed

lemma digit_in_zero [simp]: "digit_in 10 CHR ''0'' = Some 0"
  by (simp add: digit_in_def)

lemma digits_val_zeros: "digits_val 10 (replicate k CHR ''0'' @ ds) = digits_val 10 ds"
  by (induction k) (simp_all add: digits_val_def)

lemma show_nat_inject [simp]: "show_nat a = show_nat b \<longleftrightarrow> a = b"
  by (metis digits_val_show_nat)

lemma digit_char_literals:
  "digit_char 0 = CHR ''0''" "digit_char 1 = CHR ''1''" "digit_char 2 = CHR ''2''"
  "digit_char 3 = CHR ''3''" "digit_char 4 = CHR ''4''" "digit_char 5 = CHR ''5''"
  "digit_char 6 = CHR ''6''" "digit_char 7 = CHR ''7''" "digit_char 8 = CHR ''8''"
  "digit_char 9 = CHR ''9''"
  by code_simp+

lemma zero_is_digit_char: "CHR ''0'' = digit_char 0"
  by code_simp

lemma all_digits_padded:
  "c \<in> set (replicate k CHR ''0'' @ show_nat n) \<Longrightarrow> \<exists>d < 10. c = digit_char d"
  by (auto dest: show_nat_digits intro: exI [of _ 0] simp: zero_is_digit_char)

lemma length_show_nat: "n < 10 ^ Suc w \<Longrightarrow> length (show_nat n) \<le> Suc w"
proof (induction w arbitrary: n)
  case 0
  then show ?case by (simp add: show_nat_small)
next
  case (Suc w)
  show ?case
  proof (cases "n < 10")
    case True
    then show ?thesis by (simp add: show_nat_small)
  next
    case False
    have "n div 10 < 10 ^ Suc w" using Suc.prems by (simp add: div_less_iff_less_mult)
    with False Suc.IH show ?thesis by (simp add: show_nat_step)
  qed
qed

section \<open>Round trips\<close>

definition ends_number :: "string \<Rightarrow> bool" where
  "ends_number r \<longleftrightarrow> (case r of [] \<Rightarrow> True | c # _ \<Rightarrow> digit_in 10 c = None)"

lemma ends_number_simps [simp]:
  "ends_number []" "ends_number (c # r) \<longleftrightarrow> digit_in 10 c = None"
  by (simp_all add: ends_number_def)

lemma takeWhile_digits:
  assumes "\<And>c. c \<in> set ds \<Longrightarrow> \<exists>d < 10. c = digit_char d" and "ends_number r"
  shows "takeWhile (is_digit_in 10) (ds @ r) = ds"
    and "dropWhile (is_digit_in 10) (ds @ r) = r"
proof -
  have all: "\<And>c. c \<in> set ds \<Longrightarrow> is_digit_in 10 c"
    using assms(1) by (metis digit_in_digit_char option.distinct(1))
  have r: "takeWhile (is_digit_in 10) r = []" "dropWhile (is_digit_in 10) r = r"
    using assms(2) by (cases r; simp)+
  show "takeWhile (is_digit_in 10) (ds @ r) = ds"
    using all r by (simp add: takeWhile_append2)
  show "dropWhile (is_digit_in 10) (ds @ r) = r"
    using all r by (simp add: dropWhile_append2)
qed

lemma strtol_prefix_10 [simp]: "strtol_prefix 10 s = s"
  by (simp add: strtol_prefix_def split: list.split)

lemma strtol_digits:
  assumes ds: "\<And>c. c \<in> set ds \<Longrightarrow> \<exists>d < 10. c = digit_char d" and ne: "ds \<noteq> []"
    and r: "ends_number r"
  shows "strtol 10 (ds @ r) = Some (clamp_long (int (digits_val 10 ds)), r)"
    and "strtol 10 (CHR ''-'' # ds @ r) = Some (clamp_long (- int (digits_val 10 ds)), r)"
proof -
  obtain c cs where c: "ds = c # cs" using ne by (cases ds) auto
  then obtain d where d: "d < 10" "c = digit_char d" using ds by auto
  have "\<not> isspace CHR ''-''" by (simp add: isspace_def)
  then show "strtol 10 (CHR ''-'' # ds @ r) = Some (clamp_long (- int (digits_val 10 ds)), r)"
    using takeWhile_digits [OF ds r] ne by (simp add: strtol_def)
  have "strtol_sign (dropWhile isspace (ds @ r)) = (False, ds @ r)"
    using c d by simp
  then show "strtol 10 (ds @ r) = Some (clamp_long (int (digits_val 10 ds)), r)"
    using takeWhile_digits [OF ds r] ne by (simp add: strtol_def)
qed

lemma strtol_show_pad:
  assumes r: "ends_number r" and i: "LONG_MIN \<le> i" "i \<le> LONG_MAX"
  shows "strtol 10 (show_pad w i @ r) = Some (i, r)"
proof (cases "i < 0")
  case True
  let ?ds = "replicate (w - 1 - length (show_nat (nat (- i)))) CHR ''0'' @ show_nat (nat (- i))"
  have "strtol 10 (CHR ''-'' # ?ds @ r) = Some (clamp_long (- int (digits_val 10 ?ds)), r)"
    by (rule strtol_digits(2)) (blast dest: all_digits_padded, simp, rule r)
  with True i show ?thesis by (simp add: show_pad_def Let_def digits_val_zeros clamp_long_def)
next
  case False
  let ?ds = "replicate (w - length (show_nat (nat i))) CHR ''0'' @ show_nat (nat i)"
  have "strtol 10 (?ds @ r) = Some (clamp_long (int (digits_val 10 ?ds)), r)"
    by (rule strtol_digits(1)) (blast dest: all_digits_padded, simp, rule r)
  with False i show ?thesis by (simp add: show_pad_def Let_def digits_val_zeros clamp_long_def)
qed

lemma show_int_pad: "show_int i = show_pad 0 i"
  by (simp add: show_int_def show_pad_def)

lemma strtol_show_int:
  "ends_number r \<Longrightarrow> LONG_MIN \<le> i \<Longrightarrow> i \<le> LONG_MAX \<Longrightarrow> strtol 10 (show_int i @ r) = Some (i, r)"
  by (simp add: show_int_pad strtol_show_pad)

lemma sint_in_long: "LONG_MIN \<le> sint (w :: int32)" "sint (w :: int32) \<le> LONG_MAX"
  using sint32_bounds [of w] by (simp_all add: LONG_MIN_def LONG_MAX_def)

lemma atol_show_ld [simp]: "atol (show_ld w) = w"
  using strtol_show_int [of "[]" "sint w"] sint_in_long [of w]
  by (simp add: atol_def show_ld_def)

lemma show_ld_inject [simp]: "show_ld a = show_ld b \<longleftrightarrow> a = b"
  by (metis atol_show_ld)

lemma show_int_nonempty [simp]: "show_int i \<noteq> []"
  by (simp add: show_int_def)

lemma show_ld_nonempty [simp]: "show_ld w \<noteq> []"
  by (simp add: show_ld_def)

lemma length_show_ld: "length (show_ld w) \<le> 11"
proof -
  have "nat \<bar>sint w\<bar> < 10 ^ Suc 9" using sint32_bounds [of w] by simp
  then have "length (show_nat (nat \<bar>sint w\<bar>)) \<le> 10"
    using length_show_nat [of "nat \<bar>sint w\<bar>" 9] by simp
  then show ?thesis by (auto simp: show_ld_def show_int_def abs_if split: if_splits)
qed

lemma length_show_pad: "0 \<le> i \<Longrightarrow> i < 10 ^ Suc w \<Longrightarrow> length (show_pad (Suc w) i) = Suc w"
proof -
  assume i: "0 \<le> i" "i < 10 ^ Suc w"
  then have "nat i < 10 ^ Suc w" by (simp add: nat_less_iff)
  then have "length (show_nat (nat i)) \<le> Suc w" by (rule length_show_nat)
  with i show ?thesis by (simp add: show_pad_def Let_def)
qed

lemma show_ld_chars: "c \<in> set (show_ld w) \<Longrightarrow> c = CHR ''-'' \<or> (\<exists>d < 10. c = digit_char d)"
  by (auto simp: show_ld_def show_int_def split: if_splits dest: show_nat_digits)

end
