(* ===== verification/AgileLed.thy ===== *)
theory AgileLed
  imports Board CStrings
begin

text \<open>
  The blink-pattern driver \<open>src/packages/agile_led-latest/src/agile_led.c\<close>: LED and buzzer
  objects, the list of running objects, the pattern parser, and one pass of the driver thread
  \<open>led_process\<close>. Allocation succeeds; the recursive mutex that makes each call atomic is not
  represented, because every call of the model is atomic.
\<close>

section \<open>State\<close>

text \<open>The objects the firmware creates, named after the pointers of \<open>led.c\<close> that hold them.\<close>

datatype led = led0 | led1 | beep | singlebeep | learnbeep | singleled0 | beep_three | led0_three
  | lossled0 | wifi_G | wifi_R

datatype led_callback = default_compelete | wifi_G_resume

record agile_led =
  active :: bool
  pin :: nat
  active_logic :: bool
  now_logic :: bool
  save_logic :: bool
  light_arr :: "uint32 list option"
  arr_num :: uint32
  arr_index :: uint32
  loop_init :: int32
  loop_cnt :: int32
  tick_timeout :: uint32
  compelete :: "led_callback option"
  pin_backup :: nat

record leds =
  bd :: board
  led_obj :: "led \<Rightarrow> agile_led option"
  agile_led_list :: "led list"
  is_initialized :: bool
  led_id_temp :: uint8
  led_mode_temp :: uint8

section \<open>Operations\<close>

definition on_led :: "led \<Rightarrow> (agile_led \<Rightarrow> leds \<Rightarrow> leds) \<Rightarrow> leds \<Rightarrow> leds" where
  "on_led l f u = (case led_obj u l of None \<Rightarrow> bd_update assert_fail u | Some d \<Rightarrow> f d u)"

definition put_led :: "led \<Rightarrow> agile_led \<Rightarrow> leds \<Rightarrow> leds" where
  "put_led l d = led_obj_update (\<lambda>f. f(l \<mapsto> d))"

definition write_pin :: "nat \<Rightarrow> bool \<Rightarrow> leds \<Rightarrow> leds" where
  "write_pin p v = bd_update (rt_pin_write p v)"

text \<open>The loop that fills \<open>light_arr\<close>: \<open>atoi\<close> at the cursor, then past the next comma.\<close>

fun parse_light :: "nat \<Rightarrow> string \<Rightarrow> uint32 list" where
  "parse_light 0 p = []"
| "parse_light (Suc n) p = atol p # parse_light n (tl (dropWhile (\<lambda>c. c \<noteq> CHR '','') p))"

definition count_light :: "string \<Rightarrow> nat" where
  "count_light s = length (filter (\<lambda>c. c = CHR '','') s) + (if last s \<noteq> CHR '','' then 1 else 0)"

text \<open>\<open>None\<close> is the error return; the caller excludes the empty string, on which C reads \<open>ptr[-1]\<close>.\<close>

definition agile_led_get_light_arr :: "string \<Rightarrow> agile_led \<Rightarrow> agile_led option" where
  "agile_led_get_light_arr light_mode d =
     (let n = count_light light_mode in
      if n = 0 then None
      else Some (d\<lparr>arr_num := of_nat n, light_arr := Some (parse_light n light_mode)\<rparr>))"

definition agile_led_create ::
  "agile_led \<Rightarrow> led \<Rightarrow> nat \<Rightarrow> bool \<Rightarrow> string option \<Rightarrow> int32 \<Rightarrow> leds \<Rightarrow> leds" where
  "agile_led_create mem l p logic light_mode cnt u =
     (if \<not> is_initialized u then led_obj_update (\<lambda>f. f(l := None)) u
      else
        let d = mem\<lparr>active := False, pin := p, active_logic := logic, light_arr := None,
                    arr_num := 0, arr_index := 0\<rparr>;
            parsed = (case light_mode of None \<Rightarrow> Some d | Some m \<Rightarrow> agile_led_get_light_arr m d)
        in if light_mode = Some [] then bd_update assert_fail u
           else case parsed of
             None \<Rightarrow> led_obj_update (\<lambda>f. f(l := None)) u
           | Some d' \<Rightarrow>
               (block [put_led l (d'\<lparr>loop_init := cnt, loop_cnt := cnt, tick_timeout := tick (bd u),
                             compelete := Some default_compelete\<rparr>),
                bd_update (block [rt_pin_mode p PIN_MODE_OUTPUT, rt_pin_write p (\<not> logic)])]) u)"

definition agile_led_start :: "led \<Rightarrow> leds \<Rightarrow> leds" where
  "agile_led_start l = on_led l (\<lambda>d u.
     if active d then u
     else if light_arr d = None \<or> arr_num d = 0 then u
     else (block [put_led l (d\<lparr>arr_index := 0, loop_cnt := loop_init d, tick_timeout := tick (bd u), active := True\<rparr>),
           agile_led_list_update (\<lambda>ls. ls @ [l])]) u)"

definition agile_led_stop :: "led \<Rightarrow> leds \<Rightarrow> leds" where
  "agile_led_stop l = on_led l (\<lambda>d u.
     if \<not> active d then u
     else (block [agile_led_list_update (removeAll l), put_led l (d\<lparr>active := False\<rparr>),
           write_pin (pin d) (\<not> active_logic d)]) u)"

definition agile_led_on :: "led \<Rightarrow> leds \<Rightarrow> leds" where
  "agile_led_on l = on_led l (\<lambda>d.
     block [put_led l (d\<lparr>now_logic := active_logic d\<rparr>), write_pin (pin d) (active_logic d)])"

definition agile_led_off :: "led \<Rightarrow> leds \<Rightarrow> leds" where
  "agile_led_off l = on_led l (\<lambda>d.
     block [put_led l (d\<lparr>now_logic := \<not> active_logic d\<rparr>), write_pin (pin d) (\<not> active_logic d)])"

definition agile_led_toggle :: "led \<Rightarrow> leds \<Rightarrow> leds" where
  "agile_led_toggle l = on_led l (\<lambda>d u. write_pin (pin d) (\<not> rt_pin_read (pin d) (bd u)) u)"

definition agile_led_pause :: "led \<Rightarrow> leds \<Rightarrow> leds" where
  "agile_led_pause l = on_led l (\<lambda>d.
     put_led l (d\<lparr>pin_backup := pin d, pin := 0, save_logic := now_logic d\<rparr>))"

definition agile_led_resume :: "led \<Rightarrow> leds \<Rightarrow> leds" where
  "agile_led_resume l = on_led l (\<lambda>d.
     block [put_led l (d\<lparr>pin := pin_backup d\<rparr>),
     (if save_logic d = active_logic d then agile_led_on l else agile_led_off l)])"

definition agile_led_set_light_mode :: "led \<Rightarrow> string option \<Rightarrow> int32 \<Rightarrow> leds \<Rightarrow> leds" where
  "agile_led_set_light_mode l light_mode cnt = on_led l (\<lambda>d u.
     let parsed = (case light_mode of None \<Rightarrow> Some d
                   | Some m \<Rightarrow> agile_led_get_light_arr m (d\<lparr>light_arr := None, arr_num := 0\<rparr>))
     in if light_mode = Some [] then bd_update assert_fail u
        else case parsed of
          None \<Rightarrow> (block [put_led l (d\<lparr>light_arr := None, arr_num := 0\<rparr>), agile_led_stop l]) u
        | Some d' \<Rightarrow> put_led l (d'\<lparr>loop_init := cnt, arr_index := 0, loop_cnt := cnt,
                                    tick_timeout := tick (bd u)\<rparr>) u)"

definition agile_led_set_compelete_callback :: "led \<Rightarrow> led_callback option \<Rightarrow> leds \<Rightarrow> leds" where
  "agile_led_set_compelete_callback l cb = on_led l (\<lambda>d. put_led l (d\<lparr>compelete := cb\<rparr>))"

definition agile_led_init :: "leds \<Rightarrow> leds" where
  "agile_led_init = is_initialized_update (\<lambda>_. True)"

section \<open>The driver thread\<close>

text \<open>
  \<open>led_repeat\<close> is the code from the label \<open>__repeat\<close> on, as a function of the object: the
  result is the object and the level written, if any. It skips the entries that are 0.
\<close>

function led_repeat :: "uint32 \<Rightarrow> agile_led \<Rightarrow> agile_led \<times> bool option" where
  "led_repeat now d =
     (if now - tick_timeout d < RT_TICK_MAX_half then
        if arr_index d < arr_num d then
          (let v = arr_get (case light_arr d of None \<Rightarrow> [] | Some xs \<Rightarrow> xs) (unat (arr_index d)) in
           if v = 0 then led_repeat now (d\<lparr>arr_index := arr_index d + 1\<rparr>)
           else
             let lvl = (if arr_index d mod 2 \<noteq> 0 then \<not> active_logic d else active_logic d)
             in (d\<lparr>now_logic := lvl, tick_timeout := now + rt_tick_from_millisecond v,
                   arr_index := arr_index d + 1\<rparr>, Some lvl))
        else (d\<lparr>arr_index := 0, loop_cnt := (if 0 < sint (loop_cnt d) then loop_cnt d - 1 else loop_cnt d)\<rparr>,
              None)
      else (d, None))"
  by pat_completeness auto

lemma word_plus_one_less: "(i :: uint32) < n \<Longrightarrow> unat (i + 1) = Suc (unat i)"
proof -
  assume "i < n"
  then have "unat i < unat n" by (simp add: word_less_nat_alt)
  moreover have "unat n < 4294967296" using unsigned_less [of n] by simp
  ultimately show ?thesis by (simp add: unat_word_ariths)
qed

termination led_repeat
proof (relation "measure (\<lambda>(_, d). unat (arr_num d) - unat (arr_index d))", goal_cases)
  case (2 now d x)
  then show ?case
    using word_plus_one_less [of "arr_index d" "arr_num d"] by (simp add: word_less_nat_alt)
qed simp

declare led_repeat.simps [simp del]

definition led_tick :: "led \<Rightarrow> leds \<Rightarrow> leds" where
  "led_tick l = on_led l (\<lambda>d u.
     case led_repeat (tick (bd u)) d of
       (d', w) \<Rightarrow> (case w of None \<Rightarrow> put_led l d' u | Some lvl \<Rightarrow> write_pin (pin d) lvl (put_led l d' u)))"

text \<open>
  One pass of \<open>led_process\<close> over the list; \<open>cb\<close> runs the completion callbacks. An object
  whose loops are used up is stopped, its callback runs, and the walk starts again at the head of
  the list. The first argument bounds the number of rounds of the walk; \<open>None\<close> means that the
  bound was too small (\<open>led_pass_terminates\<close> gives a bound that is enough).
\<close>

fun led_walk :: "(led_callback \<Rightarrow> leds \<Rightarrow> leds) \<Rightarrow> nat \<Rightarrow> led list \<Rightarrow> leds \<Rightarrow> leds option" where
  "led_walk cb n [] u = Some u"
| "led_walk cb 0 (l # ls) u = None"
| "led_walk cb (Suc n) (l # ls) u =
     (case led_obj u l of
        None \<Rightarrow> Some (bd_update assert_fail u)
      | Some d \<Rightarrow>
          if loop_cnt d = 0 then
            let u1 = agile_led_stop l u;
                u2 = (case compelete d of None \<Rightarrow> u1 | Some c \<Rightarrow> cb c u1)
            in led_walk cb n (agile_led_list u2) u2
          else led_walk cb n ls (led_tick l u))"

definition led_process_pass :: "(led_callback \<Rightarrow> leds \<Rightarrow> leds) \<Rightarrow> leds \<Rightarrow> leds option" where
  "led_process_pass cb u = led_walk cb 143 (agile_led_list u) u"


section \<open>What the driver keeps\<close>

text \<open>
  The invariant of the LED layer: every object exists and drives one of the signalling pins (or pin
  0, after \<open>agile_led_pause\<close>), its pattern array has the recorded length, and the list of running
  objects holds the active ones, each once.
\<close>

definition LED_PINS :: "nat list" where
  "LED_PINS = [0, LED0_PIN, LED3_PIN, LED4_PIN, LED5_PIN, BEEP_PIN]"

definition led_object_ok :: "agile_led \<Rightarrow> bool" where
  "led_object_ok d \<longleftrightarrow> pin d \<in> set LED_PINS \<and>
     (case light_arr d of None \<Rightarrow> arr_num d = 0 | Some xs \<Rightarrow> length xs = unat (arr_num d))"

definition leds_ok :: "leds \<Rightarrow> bool" where
  "leds_ok u \<longleftrightarrow> is_initialized u \<and> distinct (agile_led_list u) \<and>
     (\<forall>l. \<exists>d. led_obj u l = Some d \<and> led_object_ok d \<and> (active d \<longleftrightarrow> l \<in> set (agile_led_list u)))"

text \<open>What a call of the LED layer may do to the board: change the levels of signalling pins.\<close>

definition signal_frame :: "board \<Rightarrow> board \<Rightarrow> bool" where
  "signal_frame b b' \<longleftrightarrow> b' = b\<lparr>pin_out := pin_out b'\<rparr> \<and>
     (\<forall>p. p \<notin> set LED_PINS \<longrightarrow> pin_out b' p = pin_out b p)"

definition led_safe :: "(leds \<Rightarrow> leds) \<Rightarrow> bool" where
  "led_safe f \<longleftrightarrow> (\<forall>u. leds_ok u \<longrightarrow> leds_ok (f u) \<and> signal_frame (bd u) (bd (f u)))"

lemma signal_frame_refl [simp]: "signal_frame b b"
  by (simp add: signal_frame_def)

lemma signal_frame_trans:
  assumes "signal_frame b b1" "signal_frame b1 b2"
  shows "signal_frame b b2"
proof -
  have 1: "b1 = b\<lparr>pin_out := pin_out b1\<rparr>" "b2 = b1\<lparr>pin_out := pin_out b2\<rparr>"
    using assms by (simp_all add: signal_frame_def)
  have "b2 = b\<lparr>pin_out := pin_out b1, pin_out := pin_out b2\<rparr>"
    using 1 by metis
  then have "b2 = b\<lparr>pin_out := pin_out b2\<rparr>" by simp
  with assms show ?thesis by (simp add: signal_frame_def)
qed

lemma signal_frame_write: "p \<in> set LED_PINS \<Longrightarrow> signal_frame b (rt_pin_write p v b)"
  by (auto simp: signal_frame_def rt_pin_write_def)

lemma signal_frame_sel:
  assumes "signal_frame b b'"
  shows "tick b' = tick b" "pin_in b' = pin_in b" "mode_of b' = mode_of b" "pin_irq b' = pin_irq b"
    "timers b' = timers b" "soft_timer_list b' = soft_timer_list b" "sems b' = sems b"
    "fault b' = fault b" "p \<notin> set LED_PINS \<Longrightarrow> pin_out b' p = pin_out b p"
proof -
  have b': "b' = b\<lparr>pin_out := pin_out b'\<rparr>" using assms by (simp add: signal_frame_def)
  show "tick b' = tick b" by (subst b') simp
  show "pin_in b' = pin_in b" by (subst b') simp
  show "mode_of b' = mode_of b" by (subst b') simp
  show "pin_irq b' = pin_irq b" by (subst b') simp
  show "timers b' = timers b" by (subst b') simp
  show "soft_timer_list b' = soft_timer_list b" by (subst b') simp
  show "sems b' = sems b" by (subst b') simp
  show "fault b' = fault b" by (subst b') simp
  show "pin_out b' p = pin_out b p" if "p \<notin> set LED_PINS"
    using assms that by (simp add: signal_frame_def)
qed

lemma led_safeI:
  "(\<And>u. leds_ok u \<Longrightarrow> leds_ok (f u)) \<Longrightarrow> (\<And>u. leds_ok u \<Longrightarrow> signal_frame (bd u) (bd (f u))) \<Longrightarrow> led_safe f"
  by (simp add: led_safe_def)

lemma led_safeD: "led_safe f \<Longrightarrow> leds_ok u \<Longrightarrow> leds_ok (f u)"
  "led_safe f \<Longrightarrow> leds_ok u \<Longrightarrow> signal_frame (bd u) (bd (f u))"
  by (simp_all add: led_safe_def)

named_theorems led_safe_intros

lemma led_safe_block [led_safe_intros]:
  "led_safe f \<Longrightarrow> led_safe (block fs) \<Longrightarrow> led_safe (block (f # fs))" "led_safe (block [])"
  unfolding led_safe_def using signal_frame_trans by fastforce+

lemma led_safe_id [led_safe_intros]: "led_safe id" "led_safe (\<lambda>u. u)"
  by (simp_all add: led_safe_def)

lemma led_safe_if [led_safe_intros]: "led_safe f \<Longrightarrow> led_safe g \<Longrightarrow> led_safe (if b then f else g)"
  by simp

lemma led_safe_fold: "(\<And>x. x \<in> set xs \<Longrightarrow> led_safe (f x)) \<Longrightarrow> led_safe (fold f xs)"
proof (induction xs)
  case (Cons x xs)
  then have "led_safe (block [f x, fold f xs])" by (intro led_safe_block) auto
  then show ?case by (simp add: led_safe_def)
qed (simp add: led_safe_def)

lemma leds_ok_obj: "leds_ok u \<Longrightarrow> \<exists>d. led_obj u l = Some d \<and> led_object_ok d \<and>
    (active d \<longleftrightarrow> l \<in> set (agile_led_list u))"
  by (simp add: leds_ok_def)

lemma leds_ok_put:
  assumes "leds_ok u" "led_object_ok d" "active d \<longleftrightarrow> l \<in> set (agile_led_list u)"
  shows "leds_ok (put_led l d u)"
  using assms by (simp add: leds_ok_def put_led_def)

lemma bd_put_led [simp]: "bd (put_led l d u) = bd u" "agile_led_list (put_led l d u) = agile_led_list u"
  "led_obj (put_led l d u) = (led_obj u)(l \<mapsto> d)"
  by (simp_all add: put_led_def)

lemma write_pin_sel [simp]: "bd (write_pin p v u) = rt_pin_write p v (bd u)"
  "leds_ok (write_pin p v u) = leds_ok u" "agile_led_list (write_pin p v u) = agile_led_list u"
  "led_obj (write_pin p v u) = led_obj u"
  by (simp_all add: write_pin_def leds_ok_def)

lemma led_safe_write_pin [led_safe_intros]: "p \<in> set LED_PINS \<Longrightarrow> led_safe (write_pin p v)"
  by (rule led_safeI) (simp_all add: signal_frame_write)

lemma led_safe_on_led:
  assumes "\<And>u d. \<lbrakk>leds_ok u; led_obj u l = Some d; led_object_ok d;
      active d \<longleftrightarrow> l \<in> set (agile_led_list u)\<rbrakk> \<Longrightarrow> leds_ok (f d u) \<and> signal_frame (bd u) (bd (f d u))"
  shows "led_safe (on_led l f)"
  unfolding led_safe_def on_led_def
proof (intro allI impI)
  fix u assume u: "leds_ok u"
  from leds_ok_obj [OF u, of l] obtain d where "led_obj u l = Some d" "led_object_ok d"
    "active d \<longleftrightarrow> l \<in> set (agile_led_list u)" by blast
  with assms [OF u] show "leds_ok (case led_obj u l of None \<Rightarrow> bd_update assert_fail u | Some d \<Rightarrow> f d u) \<and>
     signal_frame (bd u) (bd (case led_obj u l of None \<Rightarrow> bd_update assert_fail u | Some d \<Rightarrow> f d u))"
    by simp
qed

lemma led_object_ok_upd [simp]:
  "led_object_ok (d\<lparr>active := a\<rparr>) = led_object_ok d"
  "led_object_ok (d\<lparr>arr_index := i\<rparr>) = led_object_ok d"
  "led_object_ok (d\<lparr>loop_cnt := c\<rparr>) = led_object_ok d"
  "led_object_ok (d\<lparr>loop_init := c\<rparr>) = led_object_ok d"
  "led_object_ok (d\<lparr>tick_timeout := t\<rparr>) = led_object_ok d"
  "led_object_ok (d\<lparr>now_logic := lg\<rparr>) = led_object_ok d"
  "led_object_ok (d\<lparr>compelete := cb\<rparr>) = led_object_ok d"
  by (simp_all add: led_object_ok_def split: option.split)

lemma led_object_ok_pin: "led_object_ok d \<Longrightarrow> pin d \<in> set LED_PINS"
  by (simp add: led_object_ok_def)

lemma led_safe_agile_led_start [led_safe_intros]: "led_safe (agile_led_start l)"
  unfolding agile_led_start_def
  by (rule led_safe_on_led) (auto simp: leds_ok_def put_led_def)

lemma led_safe_agile_led_stop [led_safe_intros]: "led_safe (agile_led_stop l)"
  unfolding agile_led_stop_def
  by (rule led_safe_on_led)
    (auto simp: leds_ok_def put_led_def write_pin_def distinct_removeAll signal_frame_write led_object_ok_pin)

lemma led_safe_agile_led_on_off [led_safe_intros]: "led_safe (agile_led_on l)" "led_safe (agile_led_off l)"
  unfolding agile_led_on_def agile_led_off_def
  by (rule led_safe_on_led, simp add: leds_ok_put signal_frame_write led_object_ok_pin)+

lemma led_safe_agile_led_pause [led_safe_intros]: "led_safe (agile_led_pause l)"
  unfolding agile_led_pause_def
  by (rule led_safe_on_led) (auto intro!: leds_ok_put simp: led_object_ok_def LED_PINS_def split: option.splits)

lemma led_safe_set_callback [led_safe_intros]: "led_safe (agile_led_set_compelete_callback l cb)"
  unfolding agile_led_set_compelete_callback_def
  by (rule led_safe_on_led) (auto intro!: leds_ok_put)

lemma length_parse_light [simp]: "length (parse_light n p) = n"
  by (induction n arbitrary: p) auto

lemma count_light_bound: "count_light m \<le> Suc (length m)"
  using length_filter_le [of "\<lambda>c. c = CHR '',''" m]
  by (simp add: count_light_def del: length_filter_le)

definition pattern_ok :: "string \<Rightarrow> bool" where
  "pattern_ok m \<longleftrightarrow> m \<noteq> [] \<and> length m < 4294967294"

lemma get_light_arr_ok:
  assumes "pattern_ok m" "agile_led_get_light_arr m d = Some d'" "pin d \<in> set LED_PINS"
  shows "led_object_ok d'" "active d' = active d"
proof -
  have "count_light m < 2 ^ 32" using assms(1) count_light_bound [of m] by (simp add: pattern_ok_def)
  then have "unat (of_nat (count_light m) :: uint32) = count_light m" by (simp add: unat_of_nat)
  then show "led_object_ok d'" "active d' = active d"
    using assms by (auto simp: agile_led_get_light_arr_def led_object_ok_def Let_def split: if_splits)
qed

lemma led_safe_set_light_mode [led_safe_intros]:
  assumes "pattern_ok m"
  shows "led_safe (agile_led_set_light_mode l (Some m) cnt)"
  unfolding agile_led_set_light_mode_def
proof (rule led_safe_on_led)
  fix u d assume u: "leds_ok u" and d: "led_obj u l = Some d" "led_object_ok d"
    and a: "active d \<longleftrightarrow> l \<in> set (agile_led_list u)"
  have ne: "m \<noteq> []" using assms by (simp add: pattern_ok_def)
  let ?d = "d\<lparr>light_arr := None, arr_num := 0\<rparr>"
  show "leds_ok (let parsed = case Some m of None \<Rightarrow> Some d | Some m \<Rightarrow> agile_led_get_light_arr m ?d
      in if Some m = Some [] then bd_update assert_fail u
         else case parsed of None \<Rightarrow> (block [put_led l ?d, agile_led_stop l]) u
           | Some d' \<Rightarrow> put_led l (d'\<lparr>loop_init := cnt, arr_index := 0, loop_cnt := cnt, tick_timeout := tick (bd u)\<rparr>) u)
    \<and> signal_frame (bd u) (bd (let parsed = case Some m of None \<Rightarrow> Some d | Some m \<Rightarrow> agile_led_get_light_arr m ?d
      in if Some m = Some [] then bd_update assert_fail u
         else case parsed of None \<Rightarrow> (block [put_led l ?d, agile_led_stop l]) u
           | Some d' \<Rightarrow> put_led l (d'\<lparr>loop_init := cnt, arr_index := 0, loop_cnt := cnt, tick_timeout := tick (bd u)\<rparr>) u))"
  proof (cases "agile_led_get_light_arr m ?d")
    case None
    have "leds_ok (put_led l ?d u)"
      using u a d(2) by (intro leds_ok_put) (auto simp: led_object_ok_def)
    with None ne led_safe_agile_led_stop [of l] show ?thesis
      using led_safeD [of "agile_led_stop l" "put_led l ?d u"] by simp
  next
    case (Some d')
    have "led_object_ok d'" "active d' = active d"
      using get_light_arr_ok [OF assms Some] led_object_ok_pin [OF d(2)] by simp_all
    with Some ne u a show ?thesis by (simp add: leds_ok_put)
  qed
qed

lemma led_safe_led_temp [led_safe_intros]:
  "led_safe (led_id_temp_update f)" "led_safe (led_mode_temp_update f)"
  by (auto intro!: led_safeI simp: leds_ok_def)

subsection \<open>Pattern strings\<close>

text \<open>The pattern string of a list of durations, and that the parser reads it back.\<close>

fun show_pattern :: "uint32 list \<Rightarrow> string" where
  "show_pattern [] = []"
| "show_pattern [v] = show_nat (unat v)"
| "show_pattern (v # w # vs) = show_nat (unat v) @ CHR '','' # show_pattern (w # vs)"

lemma atol_show_nat:
  assumes "n < 2147483648" "ends_number r"
  shows "atol (show_nat n @ r) = of_nat n"
proof -
  have "show_int (int n) = show_nat n" by (simp add: show_int_def)
  then have "strtol 10 (show_nat n @ r) = Some (int n, r)"
    using strtol_show_int [OF assms(2), of "int n"] assms(1) by (simp add: LONG_MIN_def LONG_MAX_def)
  then show ?thesis by (simp add: atol_def)
qed

lemma show_nat_no_comma: "c \<in> set (show_nat n) \<Longrightarrow> c \<noteq> CHR '',''"
proof
  assume "c \<in> set (show_nat n)" "c = CHR '',''"
  then obtain d where "d < 10" "digit_char d = CHR '',''" by (metis show_nat_digits)
  then have "digit_in 10 CHR '','' = Some d" by (metis digit_in_digit_char)
  then show False by (simp add: digit_in_def)
qed

lemma parse_show_pattern:
  "(\<And>v. v \<in> set vs \<Longrightarrow> v < 2147483648) \<Longrightarrow> parse_light (length vs) (show_pattern vs) = vs"
proof (induction vs rule: show_pattern.induct)
  case (2 v)
  then show ?case using atol_show_nat [of "unat v" "[]"] by (simp add: word_less_nat_alt)
next
  case (3 v w vs)
  have "dropWhile (\<lambda>c. c \<noteq> CHR '','') (show_nat (unat v) @ CHR '','' # show_pattern (w # vs))
      = CHR '','' # show_pattern (w # vs)"
    using show_nat_no_comma by (subst dropWhile_append2) auto
  moreover have "unat v < 2147483648" using "3.prems" [of v] by (simp add: word_less_nat_alt)
  moreover have "ends_number (CHR '','' # r)" for r by (simp add: digit_in_def)
  ultimately show ?case using 3 atol_show_nat by simp
qed simp

lemma count_show_pattern: "vs \<noteq> [] \<Longrightarrow> count_light (show_pattern vs) = length vs"
proof -
  assume ne: "vs \<noteq> []"
  have no: "filter (\<lambda>c. c = CHR '','') (show_nat n) = []" for n
    using show_nat_no_comma by (auto simp: filter_empty_conv)
  have commas: "length (filter (\<lambda>c. c = CHR '','') (show_pattern vs)) = length vs - 1"
    using no by (induction vs rule: show_pattern.induct) auto
  have nil: "show_pattern (w # ws) \<noteq> []" for w ws by (cases ws) simp_all
  have "last (show_nat n) \<noteq> CHR '',''" for n
    using show_nat_no_comma last_in_set [OF show_nat_nonempty] by metis
  then have "last (show_pattern vs) \<noteq> CHR '',''"
    using ne nil
    by (induction vs rule: show_pattern.induct) (auto simp: last_append)
  with commas ne show ?thesis by (cases vs) (simp_all add: count_light_def)
qed

lemma show_pattern_nonempty: "vs \<noteq> [] \<Longrightarrow> show_pattern vs \<noteq> []"
  by (cases vs rule: show_pattern.cases) simp_all

subsection \<open>Termination of the driver pass\<close>

lemma led_repeat_keeps:
  "led_repeat now d = (d', w) \<Longrightarrow>
     (led_object_ok d' = led_object_ok d) \<and> active d' = active d \<and> pin d' = pin d \<and>
     (sint (loop_cnt d) < 0 \<longrightarrow> loop_cnt d' = loop_cnt d)"
proof (induction now d arbitrary: d' w rule: led_repeat.induct)
  case (1 now d)
  show ?case
    using "1.prems" "1.IH" [OF _ _ refl]
    by (subst (asm) led_repeat.simps) (auto simp: Let_def split: if_splits)
qed

lemma led_safe_led_tick [led_safe_intros]: "led_safe (led_tick l)"
  unfolding led_tick_def
proof (rule led_safe_on_led)
  fix u d assume u: "leds_ok u" and d: "led_obj u l = Some d" "led_object_ok d"
    and a: "active d \<longleftrightarrow> l \<in> set (agile_led_list u)"
  obtain d' w where r: "led_repeat (tick (bd u)) d = (d', w)" by fastforce
  have k: "led_object_ok d'" "active d' = active d" "pin d \<in> set LED_PINS"
    using led_repeat_keeps [OF r] d(2) led_object_ok_pin [OF d(2)] by simp_all
  have "leds_ok (put_led l d' u)" using u k a by (intro leds_ok_put) auto
  with r k show "leds_ok (case led_repeat (tick (bd u)) d of (d', None) \<Rightarrow> put_led l d' u
      | (d', Some lvl) \<Rightarrow> write_pin (pin d) lvl (put_led l d' u)) \<and>
    signal_frame (bd u) (bd (case led_repeat (tick (bd u)) d of (d', None) \<Rightarrow> put_led l d' u
      | (d', Some lvl) \<Rightarrow> write_pin (pin d) lvl (put_led l d' u)))"
    by (simp add: signal_frame_write split: option.split)
qed

text \<open>
  The running objects with a loop count that is not negative; only they can finish, and each walk
  that starts again has one of them less.
\<close>

definition finite_loops :: "leds \<Rightarrow> led \<Rightarrow> bool" where
  "finite_loops u l = (case led_obj u l of None \<Rightarrow> False | Some d \<Rightarrow> 0 \<le> sint (loop_cnt d))"

definition pending :: "leds \<Rightarrow> nat" where
  "pending u = length (filter (finite_loops u) (agile_led_list u))"

lemma UNIV_led: "set [led0, led1, beep, singlebeep, learnbeep, singleled0, beep_three, led0_three,
    lossled0, wifi_G, wifi_R] = (UNIV :: led set)"
proof -
  have "l \<in> set [led0, led1, beep, singlebeep, learnbeep, singleled0, beep_three, led0_three,
    lossled0, wifi_G, wifi_R]" for l by (cases l) simp_all
  then show ?thesis by blast
qed

lemma running_at_most_11: "distinct (ls :: led list) \<Longrightarrow> length ls \<le> 11"
proof -
  assume "distinct ls"
  then have "length ls = card (set ls)" by (simp add: distinct_card)
  also have "\<dots> \<le> card (UNIV :: led set)"
  proof (rule card_mono)
    show "finite (UNIV :: led set)" unfolding UNIV_led [symmetric] by (rule finite_set)
  qed simp
  also have "\<dots> \<le> 11" unfolding UNIV_led [symmetric] by (rule order.trans [OF card_length]) simp
  finally show ?thesis .
qed

lemma pending_mono:
  assumes "\<And>l. l \<in> set (agile_led_list u') \<Longrightarrow> finite_loops u' l \<Longrightarrow> l \<in> set (agile_led_list u) \<and> finite_loops u l"
    and "distinct (agile_led_list u')" "distinct (agile_led_list u)"
  shows "pending u' \<le> pending u"
proof -
  have "pending u' = card (set (filter (finite_loops u') (agile_led_list u')))"
    using assms(2) by (simp add: pending_def distinct_card del: set_filter)
  also have "\<dots> \<le> card (set (filter (finite_loops u) (agile_led_list u)))"
    using assms(1) by (intro card_mono) auto
  also have "\<dots> = pending u" using assms(3) by (simp add: pending_def distinct_card del: set_filter)
  finally show ?thesis .
qed

lemma pending_led_tick:
  assumes u: "leds_ok u"
  shows "pending (led_tick l u) \<le> pending u" and "agile_led_list (led_tick l u) = agile_led_list u"
proof -
  obtain d where d: "led_obj u l = Some d" using leds_ok_obj [OF u] by blast
  obtain d' w where r: "led_repeat (tick (bd u)) d = (d', w)" by fastforce
  show eq: "agile_led_list (led_tick l u) = agile_led_list u"
    using d r by (simp add: led_tick_def on_led_def split: option.split)
  have "led_obj (led_tick l u) = (led_obj u)(l \<mapsto> d')"
    using d r by (simp add: led_tick_def on_led_def split: option.split)
  then have "finite_loops (led_tick l u) k \<Longrightarrow> finite_loops u k" for k
    using led_repeat_keeps [OF r] d by (cases "k = l") (auto simp: finite_loops_def)
  then show "pending (led_tick l u) \<le> pending u"
    using eq u by (intro pending_mono) (auto simp: leds_ok_def)
qed

lemma pending_stop:
  assumes u: "leds_ok u" and l: "l \<in> set (agile_led_list u)" and d: "led_obj u l = Some d" "loop_cnt d = 0"
  shows "pending (agile_led_stop l u) < pending u"
proof -
  have a: "active d" using leds_ok_obj [OF u, of l] l d(1) by auto
  let ?u = "agile_led_stop l u"
  have eq: "agile_led_list ?u = removeAll l (agile_led_list u)"
    "led_obj ?u = (led_obj u)(l \<mapsto> d\<lparr>active := False\<rparr>)"
    using a d(1) by (simp_all add: agile_led_stop_def on_led_def)
  have "filter (finite_loops ?u) (agile_led_list ?u) = removeAll l (filter (finite_loops u) (agile_led_list u))"
    using eq by (auto simp: removeAll_filter_not_eq finite_loops_def intro!: filter_cong)
  moreover have "l \<in> set (filter (finite_loops u) (agile_led_list u))"
    using l d by (simp add: finite_loops_def)
  ultimately show ?thesis
    unfolding pending_def by (metis length_removeAll_less)
qed

text \<open>Calls after which no further object has finite loops.\<close>

definition loops_le :: "leds \<Rightarrow> leds \<Rightarrow> bool" where
  "loops_le u' u \<longleftrightarrow> (\<forall>l. l \<in> set (agile_led_list u') \<longrightarrow> finite_loops u' l \<longrightarrow>
     l \<in> set (agile_led_list u) \<and> finite_loops u l)"

lemma loops_le_trans: "loops_le u2 u1 \<Longrightarrow> loops_le u1 u \<Longrightarrow> loops_le u2 u"
  by (auto simp: loops_le_def)

lemma loops_le_refl [simp]: "loops_le u u"
  by (simp add: loops_le_def)

lemma loops_le_stop: "loops_le (agile_led_stop l u) u"
  by (auto simp: loops_le_def agile_led_stop_def on_led_def finite_loops_def
      split: option.splits if_splits)

lemma loops_le_forever:
  assumes "m \<noteq> []" "count_light m \<noteq> 0"
  shows "loops_le ((block [agile_led_set_light_mode l (Some m) (- 1), agile_led_start l]) u) u"
  using assms
  by (auto simp: agile_led_set_light_mode_def agile_led_start_def agile_led_get_light_arr_def on_led_def
      loops_le_def finite_loops_def Let_def split: option.splits if_splits)

lemma pending_loops_le: "loops_le u' u \<Longrightarrow> leds_ok u \<Longrightarrow> leds_ok u' \<Longrightarrow> pending u' \<le> pending u"
  by (rule pending_mono) (auto simp: loops_le_def leds_ok_def)

text \<open>
  The contract of the completion callbacks: they keep the invariant of the LED layer, and they do not
  start an object with a finite loop count.
\<close>

locale completion_callbacks =
  fixes cb :: "led_callback \<Rightarrow> leds \<Rightarrow> leds"
  assumes cb_safe: "led_safe (cb c)"
    and cb_pending: "leds_ok u \<Longrightarrow> pending (cb c u) \<le> pending u"
begin

lemma led_walk_total:
  "leds_ok u \<Longrightarrow> set ls \<subseteq> set (agile_led_list u) \<Longrightarrow> pending u * 12 + length ls \<le> n \<Longrightarrow>
   \<exists>u'. led_walk cb n ls u = Some u' \<and> leds_ok u' \<and> signal_frame (bd u) (bd u')"
proof (induction n arbitrary: ls u)
  case 0
  then show ?case by simp
next
  case (Suc n)
  show ?case
  proof (cases ls)
    case Nil
    with Suc.prems show ?thesis by simp
  next
    case (Cons l ls')
    obtain d where d: "led_obj u l = Some d" using leds_ok_obj [OF Suc.prems(1)] by blast
    show ?thesis
    proof (cases "loop_cnt d = 0")
      case True
      define u1 where "u1 = agile_led_stop l u"
      define u2 where "u2 = (case compelete d of None \<Rightarrow> u1 | Some c \<Rightarrow> cb c u1)"
      have 1: "leds_ok u1" "signal_frame (bd u) (bd u1)"
        unfolding u1_def by (intro led_safeD [OF led_safe_agile_led_stop] Suc.prems(1))+
      have lt: "pending u1 < pending u"
        unfolding u1_def using Suc.prems Cons d True by (intro pending_stop) auto
      have 2: "leds_ok u2" "signal_frame (bd u1) (bd u2)" "pending u2 \<le> pending u1"
        using 1(1) led_safeD [OF cb_safe] cb_pending by (auto simp: u2_def split: option.split)
      have "length (agile_led_list u2) \<le> 11"
        using 2(1) by (intro running_at_most_11) (simp add: leds_ok_def)
      then have "pending u2 * 12 + length (agile_led_list u2) \<le> n"
        using 2(3) lt Suc.prems(3) by simp
      from Suc.IH [OF 2(1) order.refl this] obtain u' where
        "led_walk cb n (agile_led_list u2) u2 = Some u'" "leds_ok u'" "signal_frame (bd u2) (bd u')" by blast
      moreover have "signal_frame (bd u) (bd u')"
        using signal_frame_trans [OF signal_frame_trans [OF 1(2) 2(2)]] calculation(3) .
      moreover have "led_walk cb (Suc n) ls u = led_walk cb n (agile_led_list u2) u2"
        unfolding u1_def u2_def using Cons d True by (simp add: Let_def)
      ultimately show ?thesis by metis
    next
      case False
      have "pending (led_tick l u) * 12 + length ls' \<le> n"
        using pending_led_tick(1) [OF Suc.prems(1), of l] Suc.prems(3) Cons by simp
      moreover have "leds_ok (led_tick l u)" "signal_frame (bd u) (bd (led_tick l u))"
        by (intro led_safeD [OF led_safe_led_tick] Suc.prems(1))+
      moreover have "set ls' \<subseteq> set (agile_led_list (led_tick l u))"
        using pending_led_tick(2) [OF Suc.prems(1)] Suc.prems(2) Cons by simp
      ultimately obtain u' where "led_walk cb n ls' (led_tick l u) = Some u'" "leds_ok u'"
        "signal_frame (bd u) (bd u')"
        using Suc.IH [of "led_tick l u" ls'] signal_frame_trans by blast
      with Cons d False show ?thesis by simp
    qed
  qed
qed

lemma led_pass_total:
  assumes "leds_ok u"
  shows "\<exists>u'. led_process_pass cb u = Some u' \<and> leds_ok u' \<and> signal_frame (bd u) (bd u')"
proof -
  have "length (agile_led_list u) \<le> 11" using assms by (intro running_at_most_11) (simp add: leds_ok_def)
  moreover have "pending u \<le> length (agile_led_list u)" by (simp add: pending_def)
  ultimately show ?thesis unfolding led_process_pass_def by (intro led_walk_total assms) auto
qed

end

section \<open>Pattern strings are read back\<close>

text \<open>
  C37: The pattern parser reads back every pattern string: the durations between the commas, and their number.
\<close>

theorem pattern_roundtrip:
  assumes "vs \<noteq> []" "list_all (\<lambda>v. v < 2147483648) vs"
  shows "agile_led_get_light_arr (show_pattern vs) d = Some (d\<lparr>arr_num := of_nat (length vs), light_arr := Some vs\<rparr>)"
  using assms parse_show_pattern [of vs] count_show_pattern [of vs]
  by (simp add: agile_led_get_light_arr_def Let_def list_all_iff)

theorem pattern_roundtrip_witness:
  "\<forall>d. light_arr (the (agile_led_get_light_arr (show_pattern [200, 0, 800]) d)) = Some [200, 0, 800]"
  using pattern_roundtrip [of "[200, 0, 800]"] by simp

end
