(* ===== verification/Led.thy ===== *)
theory Led
  imports AgileLed
begin

text \<open>
  The signalling layer \<open>src/applications/led.c\<close>: which object blinks in which pattern for each
  message to the user. The functions that read variables of other files take them as arguments:
  \<open>Gateway_ID\<close> and \<open>Heart_Status\<close> of \<open>gateway.c\<close>.
\<close>

definition led_Init :: "(led \<Rightarrow> agile_led) \<Rightarrow> leds \<Rightarrow> leds" where
  "led_Init mem u =
     (block [(\<lambda>u. if led_obj u led0 = None then
             (block [agile_led_create (mem led0) led0 LED3_PIN PIN_LOW (Some ''200,200'') (- 1),
              agile_led_create (mem singleled0) singleled0 LED3_PIN PIN_LOW (Some ''200,1'') 1,
              agile_led_create (mem lossled0) lossled0 LED3_PIN PIN_LOW (Some ''200,200,200,5000'') (- 1),
              agile_led_create (mem led0_three) led0_three LED3_PIN PIN_LOW (Some ''200,200'') 3]) u
           else u),
      (\<lambda>u. if led_obj u led1 = None then
             agile_led_create (mem led1) led1 LED0_PIN PIN_LOW (Some ''200,200'') (- 1) u else u),
      (\<lambda>u. if led_obj u beep = None then
             (block [agile_led_create (mem beep) beep BEEP_PIN PIN_HIGH (Some ''200,200'') (- 1),
              agile_led_create (mem singlebeep) singlebeep BEEP_PIN PIN_HIGH (Some ''200,1'') 1,
              agile_led_create (mem beep_three) beep_three BEEP_PIN PIN_HIGH (Some ''200,200'') 3,
              agile_led_create (mem learnbeep) learnbeep BEEP_PIN PIN_HIGH (Some ''50,50,200,200'') 3,
              agile_led_start singlebeep]) u
           else u),
      (\<lambda>u. if led_obj u wifi_G = None then
             agile_led_create (mem wifi_G) wifi_G LED4_PIN PIN_LOW (Some ''200,200'') (- 1) u else u),
      (\<lambda>u. if led_obj u wifi_R = None then
             agile_led_create (mem wifi_R) wifi_R LED5_PIN PIN_LOW (Some ''200,200'') (- 1) u else u)]) u"

definition loss_led_start :: "leds \<Rightarrow> leds" where
  "loss_led_start = agile_led_start lossled0"

definition loss_led_stop :: "leds \<Rightarrow> leds" where
  "loss_led_stop = agile_led_stop lossled0"

definition beep_three_times :: "leds \<Rightarrow> leds" where
  "beep_three_times = block [agile_led_start beep_three, agile_led_start led0_three]"

definition wifi_led :: "uint8 \<Rightarrow> leds \<Rightarrow> leds" where
  "wifi_led num =
     (if num = 0 then
        block [agile_led_stop wifi_R, agile_led_stop wifi_G, agile_led_off wifi_R, agile_led_off wifi_G]
      else if num = 1 then
        block [agile_led_stop wifi_R, agile_led_set_light_mode wifi_G (Some ''200,0'') (- 1),
        agile_led_start wifi_G]
      else if num = 2 then
        block [agile_led_stop wifi_G, agile_led_set_light_mode wifi_R (Some ''200,0'') (- 1),
        agile_led_start wifi_R]
      else id)"

definition wifi_G_resume_callback :: "uint8 \<Rightarrow> leds \<Rightarrow> leds" where
  "wifi_G_resume_callback Heart_Status = (if Heart_Status \<noteq> 0 then wifi_led 1 else wifi_led 2)"

text \<open>The completion callbacks that the driver thread can meet; the default one does nothing.\<close>

definition led_complete :: "uint8 \<Rightarrow> led_callback \<Rightarrow> leds \<Rightarrow> leds" where
  "led_complete Heart_Status cb =
     (case cb of default_compelete \<Rightarrow> id | wifi_G_resume \<Rightarrow> wifi_G_resume_callback Heart_Status)"

definition wifi_communication_blink :: "uint32 \<Rightarrow> leds \<Rightarrow> leds" where
  "wifi_communication_blink Gateway_ID =
     block [agile_led_stop wifi_G,
     agile_led_set_light_mode wifi_G (Some ''50,50'') 1,
     (if Gateway_ID \<noteq> 0 then agile_led_set_compelete_callback wifi_G (Some wifi_G_resume) else id),
     agile_led_start wifi_G]"

text \<open>
  The body of each \<open>case\<close> of \<open>beep_start\<close>. The cases 11 to 14 have no
  \<open>break\<close>, so the control flow of the C \<open>switch\<close> falls through them.
\<close>

definition beep_case :: "uint8 \<Rightarrow> nat \<Rightarrow> leds \<Rightarrow> leds" where
  "beep_case led_id k =
     (if k = 0 then (if led_id \<noteq> 0 then block [agile_led_set_light_mode beep (Some ''200,200'') (1),
          agile_led_start beep,
          agile_led_set_light_mode led1 (Some ''200,200'') (1),
          agile_led_start led1]
      else block [agile_led_set_light_mode beep (Some ''200,15000'') (- 1),
          agile_led_start beep,
          agile_led_set_light_mode led0 (Some ''200,15000'') (- 1),
          agile_led_start led0])
      else if k = 1 then block [agile_led_set_light_mode beep (Some ''200,200,200,5000'') (- 1),
      agile_led_start beep,
      (if led_id \<noteq> 0 then block [agile_led_set_light_mode led1 (Some ''200,200,200,5000'') (- 1),
          agile_led_start led1]
      else block [agile_led_set_light_mode led0 (Some ''200,200,200,5000'') (- 1),
          agile_led_start led0])]
      else if k = 2 then block [agile_led_set_light_mode beep (Some ''200,200,200,200,200,5000'') (- 1),
      agile_led_start beep,
      (if led_id \<noteq> 0 then block [agile_led_set_light_mode led1 (Some ''200,200,200,200,200,5000'') (- 1),
          agile_led_start led1]
      else block [agile_led_set_light_mode led0 (Some ''200,200,200,200,200,5000'') (- 1),
          agile_led_start led0])]
      else if k = 3 then block [agile_led_set_light_mode beep (Some ''200,200,200,200,200,200,200,5000'') (- 1),
      agile_led_start beep,
      (if led_id \<noteq> 0 then block [agile_led_set_light_mode led1 (Some ''200,200,200,200,200,200,200,5000'') (- 1),
          agile_led_start led1]
      else block [agile_led_set_light_mode led0 (Some ''200,200,200,200,200,200,200,5000'') (- 1),
          agile_led_start led0])]
      else if k = 4 then block [agile_led_set_light_mode beep (Some ''200,200'') (5),
      agile_led_start beep,
      (if led_id \<noteq> 0 then block [agile_led_set_light_mode led1 (Some ''200,200,200,200,200,200,200,200,200,5000'') (- 1),
          agile_led_start led1]
      else block [agile_led_set_light_mode led0 (Some ''200,200'') (75),
          agile_led_start led0])]
      else if k = 5 then block [agile_led_set_light_mode beep (Some ''200,200,200,200,200,200,200,5000'') (- 1),
      agile_led_start beep,
      (if led_id \<noteq> 0 then block [agile_led_set_light_mode led1 (Some ''200,200,200,200,200,200,200,5000'') (- 1),
          agile_led_start led1]
      else block [agile_led_set_light_mode led0 (Some ''200,200,200,200,200,200,200,5000'') (- 1),
          agile_led_start led0])]
      else if k = 6 then block [agile_led_set_light_mode beep (Some ''200,200'') (1),
      agile_led_start beep,
      (if led_id \<noteq> 0 then block [agile_led_set_light_mode led1 (Some ''200,200'') (1),
          agile_led_start led1]
      else block [agile_led_stop led0,
          agile_led_set_light_mode led0 (Some ''200,200'') (1),
          agile_led_start led0])]
      else if k = 7 then block [agile_led_set_light_mode beep (Some ''200,200'') (3),
      agile_led_start beep,
      (if led_id \<noteq> 0 then block [agile_led_set_light_mode led1 (Some ''200,200'') (3),
          agile_led_start led1]
      else block [agile_led_stop led0,
          agile_led_set_light_mode led0 (Some ''200,200'') (3),
          agile_led_start led0])]
      else if k = 8 then block [agile_led_set_light_mode beep (Some ''200,200'') (5),
      agile_led_start beep,
      (if led_id \<noteq> 0 then block [agile_led_set_light_mode led1 (Some ''200,200'') (5),
          agile_led_start led1]
      else block [agile_led_stop led0,
          agile_led_set_light_mode led0 (Some ''200,200'') (5),
          agile_led_start led0])]
      else if k = 9 then block [agile_led_set_light_mode beep (Some ''200,200,200,200,200,200,200,200,200,200,200,10000'') (- 1),
      agile_led_start beep,
      (if led_id \<noteq> 0 then block [agile_led_set_light_mode led1 (Some ''200,200,200,200,200,200,200,200,200,200,200,10000'') (- 1),
          agile_led_start led1]
      else block [agile_led_set_light_mode led0 (Some ''200,200,200,200,200,200,200,200,200,200,200,10000'') (- 1),
          agile_led_start led0])]
      else if k = 10 then block [agile_led_set_light_mode beep (Some ''100,300'') (4),
      agile_led_set_light_mode led1 (Some ''100,300'') (4),
      agile_led_set_light_mode led0 (Some ''100,300'') (4),
      agile_led_start beep,
      agile_led_start led1,
      agile_led_start led0]
      else if k = 11 then block [agile_led_set_light_mode beep (Some ''100,300'') (2),
      agile_led_set_light_mode led1 (Some ''100,300'') (2),
      agile_led_set_light_mode led0 (Some ''100,300'') (2),
      agile_led_start beep,
      agile_led_start led1,
      agile_led_start led0]
      else if k = 12 then block [agile_led_set_light_mode beep (Some ''100,300'') (1),
      agile_led_set_light_mode led1 (Some ''100,300'') (1),
      agile_led_set_light_mode led0 (Some ''100,300'') (1),
      agile_led_start beep,
      agile_led_start led1,
      agile_led_start led0]
      else if k = 13 then (if led_id \<noteq> 0 then block [agile_led_set_light_mode led1 (Some ''200,400'') (- 1),
          agile_led_start led1]
      else block [agile_led_set_light_mode led0 (Some ''200,400'') (- 1),
          agile_led_start led0])
      else if k = 14 then (if led_id \<noteq> 0 then block [agile_led_set_light_mode led1 (Some ''200,100'') (- 1),
          agile_led_start led1]
      else block [agile_led_set_light_mode led0 (Some ''200,100'') (- 1),
          agile_led_start led0])
      else if k = 15 then (if led_id \<noteq> 0 then block [agile_led_set_light_mode led1 (Some ''200,100'') (- 1),
          agile_led_start led1]
      else block [agile_led_set_light_mode led0 (Some ''200,5000'') (- 1),
          agile_led_set_light_mode beep (Some ''200,5000'') (- 1),
          agile_led_start led0,
          agile_led_start beep])
      else id)"

definition beep_start :: "uint8 \<Rightarrow> int \<Rightarrow> leds \<Rightarrow> leds" where
  "beep_start led_id mode =
     block [agile_led_stop singlebeep, agile_led_stop singleled0,
     led_id_temp_update (\<lambda>_. led_id), led_mode_temp_update (\<lambda>_. word_of_int mode),
     (if mode < 0 \<or> 15 < mode then id
         else if mode \<le> 10 then beep_case led_id (nat mode)
         else fold (beep_case led_id) [nat mode ..< 16])]"

definition beep_stop :: "leds \<Rightarrow> leds" where
  "beep_stop = block [agile_led_stop beep, write_pin BEEP_PIN False]"

definition key_down :: "leds \<Rightarrow> leds" where
  "key_down = block [agile_led_start singlebeep, agile_led_start singleled0]"

definition ring_once :: "leds \<Rightarrow> leds" where
  "ring_once = agile_led_start singlebeep"

definition learn_fail_ring :: "leds \<Rightarrow> leds" where
  "learn_fail_ring = agile_led_start learnbeep"

definition Relearn :: "leds \<Rightarrow> leds" where
  "Relearn = block [agile_led_set_light_mode led0 (Some ''200,200'') 75, agile_led_start led0]"

text \<open>
  The pattern literal of \<open>NTC_Ring\<close>: the line continuation puts the 36 blanks of the next
  source line into the string, in front of its comma.
\<close>

definition NTC_pattern :: string where
  "NTC_pattern =
     ''50,50,50,50,50,50,50,50,50,50,50,50,50,50,50,50,50,50,50,50'' @ replicate 36 (CHR '' '') @
     '',50,50,50,50,50,50,50,50,50,50,50,50,50,50,50,50,50,50,50,2000''"

definition NTC_Ring :: "leds \<Rightarrow> leds" where
  "NTC_Ring =
     block [agile_led_set_light_mode beep (Some NTC_pattern) (- 1),
     agile_led_set_light_mode led0 (Some NTC_pattern) (- 1),
     agile_led_set_light_mode led1 (Some NTC_pattern) (- 1),
     agile_led_start led0, agile_led_start led1, agile_led_start beep]"

definition Factory_WarningRing :: "leds \<Rightarrow> leds" where
  "Factory_WarningRing =
     block [agile_led_stop led1,
     agile_led_set_light_mode beep (Some ''200,200'') 1,
     agile_led_set_light_mode led0 (Some ''200,200'') 1,
     agile_led_start led0, agile_led_start beep]"

definition Factory_NormalRing :: "leds \<Rightarrow> leds" where
  "Factory_NormalRing =
     block [agile_led_stop led0,
     agile_led_set_light_mode beep (Some ''200,200'') 1,
     agile_led_set_light_mode led1 (Some ''200,200'') 1,
     agile_led_set_light_mode wifi_G (Some ''200,200'') 1,
     agile_led_set_light_mode wifi_R (Some ''200,200'') 1,
     agile_led_start wifi_G, agile_led_start wifi_R,
     agile_led_start led1, agile_led_start beep]"

definition led_Stop :: "uint8 \<Rightarrow> leds \<Rightarrow> leds" where
  "led_Stop led_id =
     (if led_id = 0 then block [agile_led_stop led0, write_pin LED3_PIN True]
      else if led_id = 1 then block [agile_led_stop led1, write_pin LED0_PIN True]
      else if led_id = 2 then
        block [agile_led_pause led0, agile_led_pause led1, agile_led_pause beep,
        agile_led_pause singlebeep, agile_led_pause singleled0]
      else id)"

definition led_Long_Start :: "uint8 \<Rightarrow> leds \<Rightarrow> leds" where
  "led_Long_Start led_id =
     (if led_id = 0 then
        block [agile_led_set_light_mode led0 (Some ''200,200'') (- 1), agile_led_start led0, led_Stop 1]
      else if led_id = 1 then
        block [agile_led_set_light_mode led1 (Some ''200,0'') (- 1), agile_led_start led1, led_Stop 0]
      else id)"

definition Green_Long_Start :: "leds \<Rightarrow> leds" where
  "Green_Long_Start = block [agile_led_set_light_mode led1 (Some ''200,0'') (- 1), agile_led_start led1]"

definition led_Slow_Start :: "uint8 \<Rightarrow> int32 \<Rightarrow> leds \<Rightarrow> leds" where
  "led_Slow_Start led_id count =
     (if led_id = 0 then
        block [agile_led_set_light_mode led0 (Some ''200,2000'') count, agile_led_start led0, led_Stop 1]
      else if led_id = 1 then
        block [agile_led_set_light_mode led1 (Some ''200,2000'') count, agile_led_start led1, led_Stop 0]
      else id)"

definition led_Fast_Start :: "uint8 \<Rightarrow> int32 \<Rightarrow> leds \<Rightarrow> leds" where
  "led_Fast_Start led_id count =
     (if led_id = 0 then
        block [agile_led_set_light_mode led0 (Some ''200,300'') count, agile_led_start led0, led_Stop 1]
      else if led_id = 1 then
        block [agile_led_set_light_mode led1 (Some ''200,300'') count, agile_led_start led1, led_Stop 0]
      else id)"

definition led_on :: "uint8 \<Rightarrow> leds \<Rightarrow> leds" where
  "led_on id0 =
     (if id0 = 0 then
        block [agile_led_on led0, agile_led_off led1,
        agile_led_set_light_mode beep (Some ''70,30,70,30,70,30,70,500'') (- 1), agile_led_start beep]
      else if id0 = 1 then
        block [agile_led_on led1, agile_led_off led0,
        agile_led_set_light_mode beep (Some ''70,30,70,30,70,30,70,500'') (- 1), agile_led_start beep]
      else id)"


section \<open>The signalling layer keeps the LED invariant\<close>

text \<open>
  Every function of \<open>led.c\<close> that the firmware calls after \<open>led_Init\<close> keeps the invariant
  and changes nothing of the board but the levels of signalling pins.
\<close>

lemma pattern_ok_literal [led_safe_intros]: "m \<noteq> [] \<Longrightarrow> length m < 1000 \<Longrightarrow> pattern_ok m"
  by (simp add: pattern_ok_def)

lemmas led_call_defs = loss_led_start_def loss_led_stop_def beep_three_times_def wifi_led_def
  wifi_G_resume_callback_def wifi_communication_blink_def beep_stop_def key_down_def ring_once_def
  learn_fail_ring_def Relearn_def NTC_Ring_def Factory_WarningRing_def Factory_NormalRing_def
  led_Stop_def led_Long_Start_def Green_Long_Start_def led_Slow_Start_def led_Fast_Start_def led_on_def

lemma led_safe_calls [led_safe_intros]:
  "led_safe loss_led_start" "led_safe loss_led_stop" "led_safe beep_three_times" "led_safe (wifi_led n)"
  "led_safe (wifi_G_resume_callback h)" "led_safe (wifi_communication_blink g)" "led_safe beep_stop"
  "led_safe key_down" "led_safe ring_once" "led_safe learn_fail_ring" "led_safe Relearn" "led_safe NTC_Ring"
  "led_safe Factory_WarningRing" "led_safe Factory_NormalRing" "led_safe (led_Stop i)"
  "led_safe (led_Long_Start i)" "led_safe Green_Long_Start" "led_safe (led_Slow_Start i c)"
  "led_safe (led_Fast_Start i c)" "led_safe (led_on i)"
  unfolding led_call_defs
  by (intro led_safe_intros; simp add: LED_PINS_def NTC_pattern_def)+

lemma led_safe_beep_case: "led_safe (beep_case i k)"
  unfolding beep_case_def by (intro led_safe_intros; simp)

lemma led_safe_beep_start [led_safe_intros]: "led_safe (beep_start i m)"
  unfolding beep_start_def by (intro led_safe_intros led_safe_fold led_safe_beep_case)

lemma led_safe_complete: "led_safe (led_complete h c)"
  by (cases c) (simp_all add: led_complete_def led_safe_intros)

lemma loops_le_wifi_led:
  assumes "n = 1 \<or> n = 2"
  shows "loops_le (wifi_led n u) u"
proof -
  have c: "count_light ''200,0'' \<noteq> 0" by (simp add: count_light_def)
  have "wifi_led 1 u = (block [agile_led_set_light_mode wifi_G (Some ''200,0'') (- 1), agile_led_start wifi_G])
          (agile_led_stop wifi_R u)"
    and "wifi_led 2 u = (block [agile_led_set_light_mode wifi_R (Some ''200,0'') (- 1), agile_led_start wifi_R])
          (agile_led_stop wifi_G u)"
    by (simp_all add: wifi_led_def)
  then show ?thesis
    using assms loops_le_trans [OF loops_le_forever loops_le_stop] c by auto
qed

lemma pending_complete: "leds_ok u \<Longrightarrow> pending (led_complete h c u) \<le> pending u"
proof (rule pending_loops_le)
  show "loops_le (led_complete h c u) u"
    by (cases c) (simp_all add: led_complete_def wifi_G_resume_callback_def loops_le_wifi_led)
qed (simp_all add: led_safeD [OF led_safe_complete])

interpretation led_thread: completion_callbacks "led_complete h"
  by unfold_locales (rule led_safe_complete, rule pending_complete)

end
