(* ===== verification/EnvStore.thy ===== *)
theory EnvStore
  imports CStrings
begin

text \<open>
  The key/value interface of the EasyFlash library (\<open>src/packages/EasyFlash-v4.1.0/src/ef_env.c\<close>)
  as the firmware uses it: strings stored under string keys, read into a buffer, and a reset to the
  default set. The model is at the level of the interface: which value a key has. The log of
  sectors behind it, and so the question when it is full, is summarised by the flag \<open>ef_space\<close>.
\<close>

section \<open>Operations\<close>

datatype EfErrCode = EF_NO_ERR | EF_ERASE_ERR | EF_READ_ERR | EF_WRITE_ERR | EF_ENV_NAME_ERR
  | EF_ENV_NAME_EXIST | EF_ENV_FULL | EF_ENV_INIT_FAILED

record env_store =
  init_ok :: bool
  ef_space :: bool
  kv :: "string \<Rightarrow> string option"

definition EF_ENV_NAME_MAX :: nat where
  "EF_ENV_NAME_MAX = 32"

definition default_env_set :: "(string \<times> string) list" where
  "default_env_set = [(''Author'', ''Rick'')]"

text \<open>\<open>ef_get_env_blob(key, buf, buf_len, NULL)\<close>: the bytes put into the buffer.\<close>

definition ef_get_env_blob :: "string \<Rightarrow> nat \<Rightarrow> env_store \<Rightarrow> string" where
  "ef_get_env_blob key buf_len e =
     (if \<not> init_ok e then []
      else case kv e key of None \<Rightarrow> [] | Some v \<Rightarrow> take (min buf_len (length v)) v)"

definition ef_set_env :: "string \<Rightarrow> string \<Rightarrow> env_store \<Rightarrow> EfErrCode \<times> env_store" where
  "ef_set_env key v e =
     (if \<not> init_ok e then (EF_ENV_INIT_FAILED, e)
      else if \<not> ef_space e then (EF_ENV_FULL, e)
      else if length key > EF_ENV_NAME_MAX then (EF_ENV_NAME_ERR, e)
      else (EF_NO_ERR, e\<lparr>kv := (kv e)(key \<mapsto> v)\<rparr>))"

definition ef_env_set_default :: "env_store \<Rightarrow> env_store" where
  "ef_env_set_default e = e\<lparr>kv := map_of default_env_set\<rparr>"

text \<open>
  Flash contents are kept over a reset; \<open>easyflash_init\<close> sets \<open>init_ok\<close>, or leaves it unset
  when it fails.
\<close>

definition easyflash_init :: "bool \<Rightarrow> env_store \<Rightarrow> env_store" where
  "easyflash_init ok e = e\<lparr>init_ok := ok\<rparr>"

section \<open>The interface\<close>

text \<open>
  What the device table relies on: a value that was accepted is what the next read of that key
  returns, and other keys are not affected.
\<close>

locale kv_store =
  fixes get :: "'k \<Rightarrow> 's \<Rightarrow> 'v" and put :: "'k \<Rightarrow> 'v \<Rightarrow> 's \<Rightarrow> 's"
    and usable :: "'s \<Rightarrow> bool" and key_ok :: "'k \<Rightarrow> bool" and val_ok :: "'v \<Rightarrow> bool"
  assumes get_put: "usable s \<Longrightarrow> key_ok k \<Longrightarrow> val_ok v \<Longrightarrow> get k (put k v s) = v"
    and get_put_other: "k' \<noteq> k \<Longrightarrow> get k' (put k v s) = get k' s"
    and usable_put: "usable (put k v s) = usable s"
begin

lemma get_puts_other: "k \<notin> fst ` set kvs \<Longrightarrow> get k (fold (\<lambda>(k, v). put k v) kvs s) = get k s"
  by (induction kvs arbitrary: s) (auto simp: get_put_other)

lemma get_puts:
  "usable s \<Longrightarrow> distinct (map fst kvs) \<Longrightarrow> (k, v) \<in> set kvs \<Longrightarrow> key_ok k \<Longrightarrow> val_ok v \<Longrightarrow>
    get k (fold (\<lambda>(k, v). put k v) kvs s) = v"
proof (induction kvs arbitrary: s)
  case (Cons p kvs)
  obtain a b where p: "p = (a, b)" by fastforce
  show ?case
  proof (cases "(k, v) = p")
    case True
    then have "k \<notin> fst ` set kvs" using Cons.prems(2) p by auto
    with True p Cons.prems show ?thesis by (simp add: get_puts_other get_put)
  next
    case False
    with Cons.prems p show ?thesis by (auto intro!: Cons.IH simp: usable_put)
  qed
qed simp

end

definition ef_usable :: "env_store \<Rightarrow> bool" where
  "ef_usable e \<longleftrightarrow> init_ok e \<and> ef_space e"

definition ef_put :: "string \<Rightarrow> string \<Rightarrow> env_store \<Rightarrow> env_store" where
  "ef_put k v = snd \<circ> ef_set_env k v"

lemma ef_put_sel [simp]:
  "init_ok (ef_put k v e) = init_ok e" "ef_space (ef_put k v e) = ef_space e"
  by (simp_all add: ef_put_def ef_set_env_def)

interpretation ef: kv_store "\<lambda>k. ef_get_env_blob k 64" ef_put ef_usable
  "\<lambda>k. length k \<le> EF_ENV_NAME_MAX" "\<lambda>v. length v \<le> 64"
  by unfold_locales
    (auto simp: ef_get_env_blob_def ef_put_def ef_set_env_def ef_usable_def split: option.split)

end
