(* ===== verification/DeviceDb.thy ===== *)
theory DeviceDb
  imports EnvStore
begin

text \<open>
  The device table of \<open>src/storage/flashwork.c\<close>: the RAM table \<open>Global_Device\<close>, its copy in
  the key/value store, and the operations that need nothing else. (The operations of the same file
  that also send to the gateway or raise a warning are in the theory of the devices' supervision.)

  Slots run from 1; slot 0 of the arrays is not used. The search loops run from \<open>Num\<close> down to
  1 with a 16-bit counter. The update loops count up with an 8-bit counter and would not end for
  \<open>Num\<close> of 255 or more; the sticky flag \<open>stuck\<close> records that case, and the invariant excludes it.
\<close>

section \<open>State\<close>

definition MaxSupport :: nat where "MaxSupport = 13"

abbreviation (input) NormalOff :: uint8 where "NormalOff \<equiv> 1"
abbreviation (input) OtherOff :: uint8 where "OtherOff \<equiv> 2"
abbreviation (input) NormalOpen :: uint8 where "NormalOpen \<equiv> 3"
abbreviation (input) OtherOpen :: uint8 where "OtherOpen \<equiv> 4"

record Device_Info =
  LastFlag :: uint8
  Num :: uint32
  DoorNum :: uint32
  GatewayNum :: uint32
  Bat :: "uint8 list"
  Rssi :: "uint8 list"
  SlaveAlarm :: "uint8 list"
  ID_Time :: "uint32 list"
  Alive :: "uint32 list"
  GetMesssage :: "uint32 list"
  ID :: "uint32 list"

definition Device_Info_zero :: Device_Info where
  "Device_Info_zero = \<lparr>LastFlag = 0, Num = 0, DoorNum = 0, GatewayNum = 0, Bat = replicate 20 0,
     Rssi = replicate 20 0, SlaveAlarm = replicate 20 0, ID_Time = replicate 20 0,
     Alive = replicate 20 0, GetMesssage = replicate 20 0, ID = replicate 20 0\<rparr>"

record devdb =
  Global_Device :: Device_Info
  env :: env_store
  stuck :: bool

abbreviation "gdev_upd \<equiv> Global_Device_update"

section \<open>Reading and writing the store\<close>

text \<open>The common body of the getters: read into the zeroed 64-byte buffer, then \<open>atol\<close>.\<close>

definition read_key :: "string \<Rightarrow> devdb \<Rightarrow> uint32" where
  "read_key keybuf db =
     (let read_value_temp = ef_get_env_blob keybuf 64 (env db);
          read_len = (of_nat (length read_value_temp) :: uint8)
      in if read_len > 0 then atol read_value_temp else 0)"

definition write_key :: "string \<Rightarrow> string \<Rightarrow> devdb \<Rightarrow> devdb" where
  "write_key k v = env_update (ef_put k v)"

text \<open>\<open>rt_sprintf(keybuf, "<name>:%ld", id)\<close>\<close>

definition attr_key :: "string \<Rightarrow> uint32 \<Rightarrow> string" where
  "attr_key name i = name @ show_ld i"

definition Flash_Get_Boot_Times :: "devdb \<Rightarrow> uint32" where
  "Flash_Get_Boot_Times = read_key ''boot_times''"

definition Flash_Get_Learn_Nums :: "devdb \<Rightarrow> uint32" where
  "Flash_Get_Learn_Nums = read_key ''Learn_Nums''"

definition Flash_Get_Door_Nums :: "devdb \<Rightarrow> uint32" where
  "Flash_Get_Door_Nums = read_key ''88888888''"

definition Flash_Get_Gateway_Nums :: "devdb \<Rightarrow> uint32" where
  "Flash_Get_Gateway_Nums = read_key ''88887777''"

definition Flash_Get_Moto_Flag :: "devdb \<Rightarrow> uint32" where
  "Flash_Get_Moto_Flag = read_key ''Moto''"

definition Flash_Get_Key_Value :: "uint32 \<Rightarrow> devdb \<Rightarrow> uint32" where
  "Flash_Get_Key_Value key = read_key (show_ld key)"

definition Device_RssiGet :: "uint32 \<Rightarrow> devdb \<Rightarrow> uint8" where
  "Device_RssiGet i db = ucast (read_key (attr_key ''Rssi:'' i) db)"

definition Flash_AliveGet :: "uint32 \<Rightarrow> devdb \<Rightarrow> uint8" where
  "Flash_AliveGet i db = ucast (read_key (attr_key ''alive:'' i) db)"

definition Flash_Get_SlaveAlarm :: "uint32 \<Rightarrow> devdb \<Rightarrow> uint8" where
  "Flash_Get_SlaveAlarm i db = ucast (read_key (attr_key ''SlaveAlarm:'' i) db)"

definition Device_BatGet :: "uint32 \<Rightarrow> devdb \<Rightarrow> uint8" where
  "Device_BatGet i db = ucast (read_key (attr_key ''Bat:'' i) db)"

definition Flash_Key_Change :: "uint32 \<Rightarrow> uint32 \<Rightarrow> devdb \<Rightarrow> devdb" where
  "Flash_Key_Change key v = write_key (show_ld key) (show_ld v)"

definition Flash_LearnNums_Change :: "uint32 \<Rightarrow> devdb \<Rightarrow> devdb" where
  "Flash_LearnNums_Change v = write_key ''Learn_Nums'' (show_ld v)"

definition Flash_Moto_Change :: "uint8 \<Rightarrow> devdb \<Rightarrow> devdb" where
  "Flash_Moto_Change v = write_key ''Moto'' (show_int (uint v))"

definition Device_RssiChange :: "uint32 \<Rightarrow> uint8 \<Rightarrow> devdb \<Rightarrow> devdb" where
  "Device_RssiChange i v = write_key (attr_key ''Rssi:'' i) (show_int (uint v))"

definition Device_SlaveAlarmChange :: "uint32 \<Rightarrow> uint8 \<Rightarrow> devdb \<Rightarrow> devdb" where
  "Device_SlaveAlarmChange i v = write_key (attr_key ''SlaveAlarm:'' i) (show_int (uint v))"

definition Flash_AliveChange :: "uint32 \<Rightarrow> uint8 \<Rightarrow> devdb \<Rightarrow> devdb" where
  "Flash_AliveChange i v = write_key (attr_key ''alive:'' i) (show_int (uint v))"

definition Device_BatChange :: "uint32 \<Rightarrow> uint8 \<Rightarrow> devdb \<Rightarrow> devdb" where
  "Device_BatChange i v = write_key (attr_key ''Bat:'' i) (show_int (uint v))"

section \<open>Searching the table\<close>

definition num16 :: "devdb \<Rightarrow> nat" where
  "num16 db = unat (ucast (Num (Global_Device db)) :: uint16)"

text \<open>The loop \<open>while(num) { if(p num) ...; num--; }\<close>: the slot where it stops, 0 if none.\<close>

fun scan_down :: "(nat \<Rightarrow> bool) \<Rightarrow> nat \<Rightarrow> nat" where
  "scan_down p 0 = 0"
| "scan_down p (Suc n) = (if p (Suc n) then Suc n else scan_down p n)"

definition slot_of :: "uint32 \<Rightarrow> devdb \<Rightarrow> nat" where
  "slot_of i db = scan_down (\<lambda>n. arr_get (ID (Global_Device db)) n = i) (num16 db)"

definition Flash_Get_Key_Valid :: "uint32 \<Rightarrow> devdb \<Rightarrow> uint8" where
  "Flash_Get_Key_Valid i db = (if slot_of i db = 0 then RT_ERROR else RT_EOK)"

definition Flash_GetRssi :: "uint32 \<Rightarrow> devdb \<Rightarrow> uint8" where
  "Flash_GetRssi i db =
     (if num16 db = 0 then RT_ERROR
      else let n = slot_of i db in if n = 0 then 0 else arr_get (Rssi (Global_Device db)) n)"

definition Device_AliveGet :: "uint32 \<Rightarrow> devdb \<Rightarrow> uint8" where
  "Device_AliveGet i db =
     (let n = slot_of i db in if n = 0 then 0 else ucast (arr_get (Alive (Global_Device db)) n))"

definition Flash_Get_SlaveAlarmFlag :: "devdb \<Rightarrow> uint8" where
  "Flash_Get_SlaveAlarmFlag db =
     (if scan_down (\<lambda>n. arr_get (SlaveAlarm (Global_Device db)) n \<noteq> 0) (num16 db) = 0 then 0 else 1)"

definition GetDoorID :: "devdb \<Rightarrow> uint32" where
  "GetDoorID db = (let d = Global_Device db in
     if DoorNum d \<noteq> 0 then
       if arr_get (ID d) (unat (DoorNum d)) \<noteq> 0 then arr_get (ID d) (unat (DoorNum d)) else 0
     else 0)"

definition GetGatewayID :: "devdb \<Rightarrow> uint32" where
  "GetGatewayID db = (let d = Global_Device db in
     if GatewayNum d \<noteq> 0 then
       if arr_get (ID d) (unat (GatewayNum d)) \<noteq> 0 then arr_get (ID d) (unat (GatewayNum d)) else 0
     else 0)"

definition GetDoorValid :: "uint32 \<Rightarrow> uint8" where
  "GetDoorValid i = (if 30000000 \<le> i \<and> i < 40000000 then RT_EOK else RT_ERROR)"

section \<open>Changing the table\<close>

text \<open>The loop of \<open>Get_LearnNums_Valid\<close>: the first slot with no ID, \<open>None\<close> if all are taken.\<close>

function first_free :: "uint32 list \<Rightarrow> nat \<Rightarrow> nat option" where
  "first_free ids n =
     (if n < MaxSupport then if arr_get ids n = 0 then Some n else first_free ids (n + 1) else None)"
  by pat_completeness auto
termination by (relation "measure (\<lambda>(_, n). MaxSupport - n)") auto

declare first_free.simps [simp del]

definition Get_LearnNums_Valid :: "devdb \<Rightarrow> nat \<times> devdb" where
  "Get_LearnNums_Valid db =
     (case first_free (ID (Global_Device db)) 1 of
        None \<Rightarrow> (0, db)
      | Some num \<Rightarrow>
          (num,
           if of_nat num > Num (Global_Device db) then
             (block [gdev_upd (Num_update (\<lambda>_. of_nat num)), Flash_LearnNums_Change (of_nat num)]) db
           else db))"

definition set_ID :: "nat \<Rightarrow> uint32 \<Rightarrow> devdb \<Rightarrow> devdb" where
  "set_ID n i = gdev_upd (ID_update (\<lambda>xs. arr_set xs n i))"

definition Add_Device :: "uint32 \<Rightarrow> devdb \<Rightarrow> uint8 \<times> devdb" where
  "Add_Device i db =
     (let (num, db1) = Get_LearnNums_Valid db in
      if num = 0 then (RT_ERROR, db1)
      else (RT_EOK, (block [set_ID num i, Flash_Key_Change (of_nat num) i]) db1))"

definition Add_GatewayDevice :: "uint32 \<Rightarrow> devdb \<Rightarrow> uint8 \<times> devdb" where
  "Add_GatewayDevice i db =
     (if GetGatewayID db \<noteq> 0 then
        let num = Flash_Get_Gateway_Nums db in
        (RT_EOK, (block [set_ID (unat num) i, Flash_Key_Change num i,
                  gdev_upd (GatewayNum_update (\<lambda>_. num)), Flash_Key_Change 88887777 num]) db)
      else
        let (num, db1) = Get_LearnNums_Valid db in
        if num = 0 then (RT_ERROR, db1)
        else (RT_EOK, (block [set_ID num i, Flash_Key_Change (of_nat num) i,
                  gdev_upd (GatewayNum_update (\<lambda>_. of_nat num)),
                  Flash_Key_Change 88887777 (of_nat num)]) db1))"

text \<open>The table part of \<open>Add_DoorDevice\<close>, after the report to the gateway.\<close>

definition Add_DoorDevice_table :: "uint32 \<Rightarrow> devdb \<Rightarrow> uint8 \<times> devdb" where
  "Add_DoorDevice_table i db =
     (if GetDoorID db \<noteq> 0 then
        let num = Flash_Get_Door_Nums db in
        (RT_EOK, (block [set_ID (unat num) i, Flash_Key_Change num i,
                  gdev_upd (DoorNum_update (\<lambda>_. num)), Flash_Key_Change 88888888 num]) db)
      else
        let (num, db1) = Get_LearnNums_Valid db in
        if num = 0 then (RT_ERROR, db1)
        else (RT_EOK, (block [set_ID num i, Flash_Key_Change (of_nat num) i,
                  gdev_upd (DoorNum_update (\<lambda>_. of_nat num)),
                  Flash_Key_Change 88888888 (of_nat num)]) db1))"

definition Delete_Device :: "uint32 \<Rightarrow> devdb \<Rightarrow> uint8 \<times> devdb" where
  "Delete_Device i db =
     (let num = slot_of i db in
      if num = 0 then (RT_ERROR, db)
      else (RT_EOK,
        (block [set_ID num 0, Flash_Key_Change (of_nat num) 0,
         (if GetDoorValid i = RT_EOK
             then block [gdev_upd (DoorNum_update (\<lambda>_. 0)), Flash_Key_Change 88888888 0] else id)]) db))"

definition Device_AliveChange :: "uint32 \<Rightarrow> uint8 \<Rightarrow> devdb \<Rightarrow> uint8 \<times> devdb" where
  "Device_AliveChange i v db =
     (let n = slot_of i db; d = Global_Device db in
      if n = 0 then (RT_ERROR, db)
      else if arr_get (Alive d) n \<noteq> ucast v \<or> arr_get (GetMesssage d) n \<noteq> ucast v then
        (RT_EOK, (block [gdev_upd (Alive_update (\<lambda>xs. arr_set xs n (ucast v))),
                  gdev_upd (GetMesssage_update (\<lambda>xs. arr_set xs n (ucast v))),
                  Flash_AliveChange i v]) db)
      else (RT_EOK, db))"

definition Update_Device_Bat :: "uint32 \<Rightarrow> uint8 \<Rightarrow> devdb \<Rightarrow> uint8 \<times> devdb" where
  "Update_Device_Bat i bat db =
     (let n = slot_of i db in
      if n = 0 then (RT_ERROR, db)
      else if arr_get (Bat (Global_Device db)) n \<noteq> bat then
        (RT_EOK, (block [gdev_upd (Bat_update (\<lambda>xs. arr_set xs n bat)), Device_BatChange i bat]) db)
      else (RT_EOK, db))"

definition rssi_level :: "int \<Rightarrow> uint8" where
  "rssi_level rssi = (if rssi < - 94 then 0 else if rssi \<ge> - 94 \<and> rssi < - 78 then 1
     else if rssi \<ge> - 78 then 2 else 0)"

definition Update_Device_Rssi :: "uint32 \<Rightarrow> int \<Rightarrow> devdb \<Rightarrow> uint8 \<times> devdb" where
  "Update_Device_Rssi i rssi db =
     (let n = slot_of i db; rssi_temp = rssi_level rssi in
      if n = 0 then (RT_ERROR, db)
      else if rssi_temp \<noteq> arr_get (Rssi (Global_Device db)) n then
        (RT_EOK, (block [gdev_upd (Rssi_update (\<lambda>xs. arr_set xs n rssi_temp)), Device_RssiChange i rssi_temp]) db)
      else (RT_EOK, db))"

definition Flash_Set_SlaveAlarmFlag :: "uint32 \<Rightarrow> uint8 \<Rightarrow> devdb \<Rightarrow> uint8 \<times> devdb" where
  "Flash_Set_SlaveAlarmFlag i f db =
     (let n = slot_of i db in
      if n = 0 then (RT_ERROR, db)
      else if arr_get (SlaveAlarm (Global_Device db)) n \<noteq> f then
        (RT_EOK, (block [gdev_upd (SlaveAlarm_update (\<lambda>xs. arr_set xs n f)), Device_SlaveAlarmChange i f]) db)
      else (RT_EOK, db))"

definition Clear_Device_Time :: "uint32 \<Rightarrow> devdb \<Rightarrow> uint8 \<times> devdb" where
  "Clear_Device_Time i db =
     (let n = slot_of i db in
      if n = 0 then (RT_ERROR, db)
      else (RT_EOK, gdev_upd (ID_Time_update (\<lambda>xs. arr_set xs n 0)) db))"

text \<open>\<open>for(uint8_t i=1;i<=Num;i++)\<close>\<close>

definition slots :: "nat \<Rightarrow> nat list" where
  "slots n = [1 ..< Suc n]"

definition for_slots :: "nat \<Rightarrow> (nat \<Rightarrow> devdb \<Rightarrow> devdb) \<Rightarrow> devdb \<Rightarrow> devdb" where
  "for_slots n f db = (if n < 255 then fold f (slots n) db else db\<lparr>stuck := True\<rparr>)"

definition Update_All_Time :: "devdb \<Rightarrow> devdb" where
  "Update_All_Time db = for_slots (num16 db) (\<lambda>i db.
     let t = arr_get (ID_Time (Global_Device db)) i;
         t' = (if t < 25 then t + 1 else t)
     in gdev_upd (ID_Time_update (\<lambda>xs. arr_set xs i t')) db) db"

definition Clear_All_Time :: "devdb \<Rightarrow> devdb" where
  "Clear_All_Time db = for_slots (num16 db) (\<lambda>i db.
     let d = Global_Device db in
     if arr_get (ID_Time d) i < 25 \<or> arr_get (GetMesssage d) i = 1 then
       (block [gdev_upd (GetMesssage_update (\<lambda>xs. arr_set xs i 0)),
        gdev_upd (ID_Time_update (\<lambda>xs. arr_set xs i 0))]) db
     else db) db"

definition load_slot :: "nat \<Rightarrow> devdb \<Rightarrow> devdb" where
  "load_slot i db =
     (let v = Flash_Get_Key_Value (of_nat i) db; db1 = set_ID i v db in
      if arr_get (ID (Global_Device db1)) i \<noteq> 0 then
        let k = arr_get (ID (Global_Device db1)) i in
        (block [gdev_upd (Bat_update (\<lambda>xs. arr_set xs i (Device_BatGet k db1))),
         gdev_upd (Rssi_update (\<lambda>xs. arr_set xs i (Device_RssiGet k db1))),
         gdev_upd (Alive_update (\<lambda>xs. arr_set xs i (ucast (Flash_AliveGet k db1)))),
         gdev_upd (SlaveAlarm_update (\<lambda>xs. arr_set xs i (Flash_Get_SlaveAlarm k db1)))]) db1
      else db1)"

definition LoadDevice2Memory :: "devdb \<Rightarrow> devdb" where
  "LoadDevice2Memory db =
     (let db1 = db\<lparr>Global_Device := Device_Info_zero\<lparr>Num := Flash_Get_Learn_Nums db\<rparr>\<rparr>;
          db2 = for_slots (unat (Num (Global_Device db1))) load_slot db1
      in db2\<lparr>Global_Device := (Global_Device db2)
           \<lparr>DoorNum := Flash_Get_Key_Value 88888888 db2, GatewayNum := Flash_Get_Key_Value 88887777 db2,
            LastFlag := ucast (Flash_Get_Moto_Flag db2)\<rparr>\<rparr>)"

text \<open>\<open>flash_Init\<close>; the arguments say whether the SPI flash was found and the store came up.\<close>

definition flash_Init :: "bool \<Rightarrow> bool \<Rightarrow> devdb \<Rightarrow> devdb" where
  "flash_Init probe_ok store_ok db =
     (if \<not> probe_ok then db
      else let db1 = env_update (easyflash_init store_ok) db in
           if \<not> store_ok then db1 else LoadDevice2Memory db1)"

text \<open>The memory and store part of \<open>DeleteAllDevice\<close>.\<close>

definition erase_table :: "devdb \<Rightarrow> devdb" where
  "erase_table db = db\<lparr>Global_Device := Device_Info_zero, env := ef_env_set_default (env db)\<rparr>"


lemma slots_sel [simp]: "set (slots n) = {1 .. n}" "distinct (slots n)"
  by (auto simp: slots_def)

section \<open>Keys and values\<close>

lemma read_write_other [simp]: "k' \<noteq> k \<Longrightarrow> read_key k' (write_key k v db) = read_key k' db"
  by (simp add: read_key_def write_key_def ef.get_put_other)

lemma read_write_same:
  assumes "ef_usable (env db)" "length k \<le> EF_ENV_NAME_MAX" "v \<noteq> []" "length v \<le> 64"
  shows "read_key k (write_key k v db) = atol v"
proof -
  have len: "length v < 256" using assms(4) by simp
  have "(of_nat (length v) :: uint8) \<noteq> 0"
    using assms(3) len by (simp add: word_unat_eq_iff unat_of_nat)
  then show ?thesis
    using assms by (simp add: read_key_def write_key_def ef.get_put word_neq_0_conv)
qed

lemma write_key_unusable: "\<not> ef_usable (env db) \<Longrightarrow> write_key k v db = db"
  by (auto simp: write_key_def ef_put_def ef_set_env_def ef_usable_def)

lemma write_key_sel [frame, simp]:
  "Global_Device (write_key k v db) = Global_Device db" "stuck (write_key k v db) = stuck db"
  "ef_usable (env (write_key k v db)) = ef_usable (env db)"
  by (simp_all add: write_key_def ef_usable_def)

lemma read_gdev_upd [simp]: "read_key k (gdev_upd f db) = read_key k db"
  "read_key k (db\<lparr>Global_Device := d\<rparr>) = read_key k db" "read_key k (db\<lparr>stuck := b\<rparr>) = read_key k db"
  by (simp_all add: read_key_def)

lemma show_ld_not_name:
  assumes "c \<in> set k" "c \<noteq> CHR ''-''" "digit_in 10 c = None"
  shows "show_ld w \<noteq> k"
proof
  assume "show_ld w = k"
  then obtain d where "d < 10" "c = digit_char d" using show_ld_chars [of c w] assms(1,2) by auto
  with assms(3) show False by simp
qed

lemma show_ld_names [simp]: "show_ld w \<noteq> ''Learn_Nums''" "show_ld w \<noteq> ''Moto''"
  by (rule show_ld_not_name [of "CHR ''m''"], simp_all add: digit_in_def,
      rule show_ld_not_name [of "CHR ''M''"], simp_all add: digit_in_def)

lemmas show_ld_names_sym [simp] = show_ld_names [symmetric]

lemma attr_key_other: "CHR '':'' \<in> set name \<Longrightarrow> CHR '':'' \<notin> set k \<Longrightarrow> attr_key name i \<noteq> k"
  by (auto simp: attr_key_def)

lemma attr_key_names [simp]:
  assumes "CHR '':'' \<in> set name"
  shows "attr_key name i \<noteq> ''Learn_Nums''" "attr_key name i \<noteq> ''Moto''"
    "attr_key name i \<noteq> ''88888888''" "attr_key name i \<noteq> ''88887777''" "attr_key name i \<noteq> show_ld w"
proof -
  show "attr_key name i \<noteq> show_ld w"
    using assms show_ld_not_name [of "CHR '':''" "attr_key name i" w]
    by (auto simp: attr_key_def digit_in_def)
qed (rule attr_key_other [OF assms], simp)+

lemma role_keys: "''88888888'' = show_ld 88888888" "''88887777'' = show_ld 88887777"
  by (simp_all add: show_ld_def show_int_def show_nat_step show_nat_small digit_char_literals)

lemma length_show_ld_key: "length (show_ld w) \<le> EF_ENV_NAME_MAX" "length (show_ld w) \<le> 64"
  using length_show_ld [of w] by (simp_all add: EF_ENV_NAME_MAX_def)

lemma read_write_ld:
  "ef_usable (env db) \<Longrightarrow> read_key k (write_key (show_ld i) (show_ld v) db) = (if k = show_ld i then v else read_key k db)"
  by (simp add: read_write_same length_show_ld_key)

lemma show_int_uint8: "show_int (uint (v :: uint8)) = show_ld (ucast v)"
proof -
  have b: "0 \<le> uint v" "uint v < 256" using uint_bounded [of v] by simp_all
  have "signed_take_bit 31 (uint v) = uint v"
    by (rule signed_take_bit_int_eq_self) (rule order.trans [OF _ b(1)], simp, use b in simp)
  then have "sint (ucast v :: uint32) = uint v"
    using b by (simp add: sint_uint unsigned_ucast_eq take_bit_int_eq_self)
  then show ?thesis by (simp add: show_ld_def)
qed

section \<open>Searching\<close>

lemma scan_down_le: "scan_down p n \<le> n"
  by (induction n) auto

lemma scan_down_0: "scan_down p n = 0 \<longleftrightarrow> (\<forall>k. 1 \<le> k \<longrightarrow> k \<le> n \<longrightarrow> \<not> p k)"
  by (induction n) (auto simp: le_Suc_eq)

lemma scan_down_hit: "scan_down p n \<noteq> 0 \<Longrightarrow> p (scan_down p n)"
  by (induction n) (auto split: if_splits)

lemma scan_down_last: "scan_down p n < k \<Longrightarrow> k \<le> n \<Longrightarrow> \<not> p k"
  by (induction n) (auto simp: le_Suc_eq split: if_splits)

lemma first_free_Some:
  "first_free ids n = Some k \<longleftrightarrow>
     n \<le> k \<and> k < MaxSupport \<and> arr_get ids k = 0 \<and> (\<forall>j. n \<le> j \<longrightarrow> j < k \<longrightarrow> arr_get ids j \<noteq> 0)"
proof (induction ids n rule: first_free.induct)
  case (1 ids n)
  show ?case
  proof (cases "n < MaxSupport \<and> arr_get ids n \<noteq> 0")
    case True
    then have "first_free ids n = first_free ids (n + 1)" by (subst first_free.simps) simp
    with 1 True show ?thesis by (auto simp: Suc_le_eq) (metis le_neq_implies_less)+
  next
    case False
    then show ?thesis by (subst first_free.simps) (auto simp: not_less dest: leD)
  qed
qed

lemma first_free_None:
  "first_free ids n = None \<longleftrightarrow> (\<forall>j. n \<le> j \<longrightarrow> j < MaxSupport \<longrightarrow> arr_get ids j \<noteq> 0)"
proof (induction ids n rule: first_free.induct)
  case (1 ids n)
  show ?case
  proof (cases "n < MaxSupport \<and> arr_get ids n \<noteq> 0")
    case True
    then have "first_free ids n = first_free ids (n + 1)" by (subst first_free.simps) simp
    with 1 True show ?thesis by (auto simp: Suc_le_eq) (metis le_neq_implies_less)
  next
    case False
    then show ?thesis by (subst first_free.simps) (auto simp: not_less dest: leD)
  qed
qed


section \<open>Well-formed tables\<close>

text \<open>
  The invariant of the table. In RAM: arrays of 20 cells, at most \<open>MaxSupport - 1\<close> slots in use,
  the roles name slots in use, and no ID beyond \<open>Num\<close>. In the store: the persisted counts have the
  same bounds, so that the loops of the next start are in range.
\<close>

definition arrays_ok :: "Device_Info \<Rightarrow> bool" where
  "arrays_ok d \<longleftrightarrow> length (Bat d) = 20 \<and> length (Rssi d) = 20 \<and> length (SlaveAlarm d) = 20 \<and>
     length (ID_Time d) = 20 \<and> length (Alive d) = 20 \<and> length (GetMesssage d) = 20 \<and> length (ID d) = 20"

definition roles_ok :: "Device_Info \<Rightarrow> bool" where
  "roles_ok d \<longleftrightarrow> Num d \<le> 12 \<and> DoorNum d \<le> Num d \<and> GatewayNum d \<le> Num d \<and>
     (\<forall>n. unat (Num d) < n \<longrightarrow> arr_get (ID d) n = 0)"

definition store_wf :: "devdb \<Rightarrow> bool" where
  "store_wf db \<longleftrightarrow> Flash_Get_Learn_Nums db \<le> 12 \<and>
     Flash_Get_Door_Nums db \<le> Flash_Get_Learn_Nums db \<and>
     Flash_Get_Gateway_Nums db \<le> Flash_Get_Learn_Nums db"

definition table_wf :: "devdb \<Rightarrow> bool" where
  "table_wf db \<longleftrightarrow> arrays_ok (Global_Device db) \<and> roles_ok (Global_Device db) \<and> \<not> stuck db \<and>
     store_wf db \<and> Flash_Get_Learn_Nums db \<le> Num (Global_Device db) \<and>
     (ef_usable (env db) \<longrightarrow> Flash_Get_Learn_Nums db = Num (Global_Device db))"

text \<open>The store has the registry of the RAM table: the copy a restart will load.\<close>

definition mirrored :: "devdb \<Rightarrow> bool" where
  "mirrored db \<longleftrightarrow> ef_usable (env db) \<and>
     (let d = Global_Device db in
      Flash_Get_Learn_Nums db = Num d \<and> Flash_Get_Door_Nums db = DoorNum d \<and>
      Flash_Get_Gateway_Nums db = GatewayNum d \<and>
      (\<forall>n. 1 \<le> n \<longrightarrow> n \<le> unat (Num d) \<longrightarrow> Flash_Get_Key_Value (of_nat n) db = arr_get (ID d) n))"

definition ids_distinct :: "devdb \<Rightarrow> bool" where
  "ids_distinct db \<longleftrightarrow> (let d = Global_Device db in
     \<forall>m n. 1 \<le> m \<longrightarrow> m \<le> unat (Num d) \<longrightarrow> 1 \<le> n \<longrightarrow> n \<le> unat (Num d) \<longrightarrow>
       arr_get (ID d) m \<noteq> 0 \<longrightarrow> arr_get (ID d) m = arr_get (ID d) n \<longrightarrow> m = n)"

lemmas getter_defs = Flash_Get_Learn_Nums_def Flash_Get_Door_Nums_def Flash_Get_Gateway_Nums_def
  Flash_Get_Moto_Flag_def Flash_Get_Key_Value_def

lemmas changer_defs = Flash_Key_Change_def Flash_LearnNums_Change_def Flash_Moto_Change_def
  Device_RssiChange_def Device_SlaveAlarmChange_def Flash_AliveChange_def Device_BatChange_def

lemma unat_of_nat_small [simp]: "n < 4294967296 \<Longrightarrow> unat (of_nat n :: uint32) = n"
  by (simp add: unat_of_nat)

lemma table_wfD:
  assumes "table_wf db"
  shows "unat (Num (Global_Device db)) \<le> 12" "num16 db = unat (Num (Global_Device db))"
    "unat (DoorNum (Global_Device db)) \<le> unat (Num (Global_Device db))"
    "unat (GatewayNum (Global_Device db)) \<le> unat (Num (Global_Device db))"
    "length (ID (Global_Device db)) = 20" "\<not> stuck db"
    "unat (Num (Global_Device db)) < n \<Longrightarrow> arr_get (ID (Global_Device db)) n = 0"
proof -
  show le: "unat (Num (Global_Device db)) \<le> 12"
    using assms by (simp add: table_wf_def roles_ok_def word_le_nat_alt)
  show "num16 db = unat (Num (Global_Device db))"
    using le by (simp add: num16_def unsigned_ucast_eq take_bit_nat_eq_self)
  show "unat (DoorNum (Global_Device db)) \<le> unat (Num (Global_Device db))"
    "unat (GatewayNum (Global_Device db)) \<le> unat (Num (Global_Device db))"
    "length (ID (Global_Device db)) = 20" "\<not> stuck db"
    "unat (Num (Global_Device db)) < n \<Longrightarrow> arr_get (ID (Global_Device db)) n = 0"
    using assms by (simp_all add: table_wf_def roles_ok_def arrays_ok_def word_le_nat_alt)
qed

lemma slot_of_le: "table_wf db \<Longrightarrow> slot_of i db \<le> unat (Num (Global_Device db))"
  using scan_down_le table_wfD(2) by (metis slot_of_def)

lemma slot_of_0: "table_wf db \<Longrightarrow> slot_of i db = 0 \<longleftrightarrow>
    (\<forall>n. 1 \<le> n \<longrightarrow> n \<le> unat (Num (Global_Device db)) \<longrightarrow> arr_get (ID (Global_Device db)) n \<noteq> i)"
  by (simp add: slot_of_def scan_down_0 table_wfD)

lemma slot_of_hit: "slot_of i db \<noteq> 0 \<Longrightarrow> arr_get (ID (Global_Device db)) (slot_of i db) = i"
  unfolding slot_of_def by (rule scan_down_hit)

lemma slot_of_unique:
  assumes "table_wf db" "ids_distinct db" "i \<noteq> 0" "1 \<le> n" "n \<le> unat (Num (Global_Device db))"
    "arr_get (ID (Global_Device db)) n = i"
  shows "slot_of i db = n"
proof -
  have ne: "slot_of i db \<noteq> 0" using assms slot_of_0 by blast
  then show ?thesis
    using assms slot_of_hit [OF ne] slot_of_le [OF assms(1), of i] unfolding ids_distinct_def Let_def
    by (metis One_nat_def Suc_leI gr0I)
qed

lemma table_wf_write [simp]:
  "k \<noteq> ''Learn_Nums'' \<Longrightarrow> k \<noteq> ''88888888'' \<Longrightarrow> k \<noteq> ''88887777'' \<Longrightarrow>
   table_wf (write_key k v db) = table_wf db"
  by (simp add: table_wf_def store_wf_def getter_defs)

lemma mirrored_write:
  "k \<noteq> ''Learn_Nums'' \<Longrightarrow> k \<noteq> ''88888888'' \<Longrightarrow> k \<noteq> ''88887777'' \<Longrightarrow>
   (\<forall>w. k \<noteq> show_ld w) \<Longrightarrow> mirrored (write_key k v db) = mirrored db"
  by (simp add: mirrored_def getter_defs Let_def not_sym)

lemma table_wf_gdev:
  assumes "Num (f d) = Num d" "DoorNum (f d) = DoorNum d" "GatewayNum (f d) = GatewayNum d"
    "ID (f d) = ID d" "arrays_ok (f d) = arrays_ok d" "Global_Device db = d"
  shows "table_wf (gdev_upd f db) = table_wf db"
  using assms by (simp add: table_wf_def roles_ok_def store_wf_def getter_defs)

lemma mirrored_gdev:
  assumes "Num (f d) = Num d" "DoorNum (f d) = DoorNum d" "GatewayNum (f d) = GatewayNum d"
    "ID (f d) = ID d" "Global_Device db = d"
  shows "mirrored (gdev_upd f db) = mirrored db"
  using assms by (simp add: mirrored_def getter_defs)

text \<open>The operations on the data of a slot leave the registry and its copy as they are.\<close>

lemmas slot_op_defs = Device_AliveChange_def Update_Device_Bat_def Update_Device_Rssi_def
  Flash_Set_SlaveAlarmFlag_def Clear_Device_Time_def

lemma slot_ops_wf [keeps]:
  "table_wf db \<Longrightarrow> table_wf (snd (Device_AliveChange i v db))"
  "table_wf db \<Longrightarrow> table_wf (snd (Update_Device_Bat i v db))"
  "table_wf db \<Longrightarrow> table_wf (snd (Update_Device_Rssi i r db))"
  "table_wf db \<Longrightarrow> table_wf (snd (Flash_Set_SlaveAlarmFlag i v db))"
  "table_wf db \<Longrightarrow> table_wf (snd (Clear_Device_Time i db))"
  by (simp_all add: slot_op_defs changer_defs table_wf_gdev arrays_ok_def Let_def)

lemma slot_ops_mirrored:
  "mirrored db \<Longrightarrow> mirrored (snd (Device_AliveChange i v db))"
  "mirrored db \<Longrightarrow> mirrored (snd (Update_Device_Bat i v db))"
  "mirrored db \<Longrightarrow> mirrored (snd (Update_Device_Rssi i r db))"
  "mirrored db \<Longrightarrow> mirrored (snd (Flash_Set_SlaveAlarmFlag i v db))"
  "mirrored db \<Longrightarrow> mirrored (snd (Clear_Device_Time i db))"
  by (simp_all add: slot_op_defs changer_defs mirrored_gdev mirrored_write Let_def)


section \<open>The registry\<close>

lemma small_not_role [simp]:
  "n < 13 \<Longrightarrow> (of_nat n :: uint32) \<noteq> 88888888" "n < 13 \<Longrightarrow> (of_nat n :: uint32) \<noteq> 88887777"
  "v \<le> 12 \<Longrightarrow> v \<noteq> (88888888 :: uint32)" "v \<le> 12 \<Longrightarrow> v \<noteq> (88887777 :: uint32)"
  by (auto dest: arg_cong [where f = unat])

lemma of_nat_small_eq: "m < 4294967296 \<Longrightarrow> n < 4294967296 \<Longrightarrow> (of_nat m :: uint32) = of_nat n \<longleftrightarrow> m = n"
  by (metis unat_of_nat_small)

lemma set_ID_sel [simp]:
  "Global_Device (set_ID n i db) = (Global_Device db)\<lparr>ID := arr_set (ID (Global_Device db)) n i\<rparr>"
  "env (set_ID n i db) = env db" "stuck (set_ID n i db) = stuck db" "read_key k (set_ID n i db) = read_key k db"
  by (simp_all add: set_ID_def)

lemma Flash_Key_Change_sel [simp]:
  "Global_Device (Flash_Key_Change k v db) = Global_Device db" "stuck (Flash_Key_Change k v db) = stuck db"
  "ef_usable (env (Flash_Key_Change k v db)) = ef_usable (env db)"
  "\<not> ef_usable (env db) \<Longrightarrow> Flash_Key_Change k v db = db"
  by (simp_all add: Flash_Key_Change_def write_key_unusable)

lemma Flash_Key_Change_reads:
  assumes "ef_usable (env db)"
  shows "Flash_Get_Learn_Nums (Flash_Key_Change k v db) = Flash_Get_Learn_Nums db"
    "Flash_Get_Door_Nums (Flash_Key_Change k v db) = (if k = 88888888 then v else Flash_Get_Door_Nums db)"
    "Flash_Get_Gateway_Nums (Flash_Key_Change k v db) = (if k = 88887777 then v else Flash_Get_Gateway_Nums db)"
    "Flash_Get_Moto_Flag (Flash_Key_Change k v db) = Flash_Get_Moto_Flag db"
    "Flash_Get_Key_Value j (Flash_Key_Change k v db) = (if j = k then v else Flash_Get_Key_Value j db)"
  using assms by (auto simp: getter_defs Flash_Key_Change_def read_write_ld role_keys)

lemma Flash_LearnNums_Change_reads:
  assumes "ef_usable (env db)"
  shows "Flash_Get_Learn_Nums (Flash_LearnNums_Change v db) = v"
    "Flash_Get_Door_Nums (Flash_LearnNums_Change v db) = Flash_Get_Door_Nums db"
    "Flash_Get_Gateway_Nums (Flash_LearnNums_Change v db) = Flash_Get_Gateway_Nums db"
    "Flash_Get_Moto_Flag (Flash_LearnNums_Change v db) = Flash_Get_Moto_Flag db"
    "Flash_Get_Key_Value j (Flash_LearnNums_Change v db) = Flash_Get_Key_Value j db"
  using assms by (simp_all add: getter_defs Flash_LearnNums_Change_def read_write_same
      length_show_ld_key EF_ENV_NAME_MAX_def)

lemma Flash_LearnNums_Change_sel [simp]:
  "Global_Device (Flash_LearnNums_Change v db) = Global_Device db" "stuck (Flash_LearnNums_Change v db) = stuck db"
  "ef_usable (env (Flash_LearnNums_Change v db)) = ef_usable (env db)"
  "\<not> ef_usable (env db) \<Longrightarrow> Flash_LearnNums_Change v db = db"
  by (simp_all add: Flash_LearnNums_Change_def write_key_unusable)

lemma getters_gdev [simp]:
  "Flash_Get_Learn_Nums (gdev_upd f db) = Flash_Get_Learn_Nums db"
  "Flash_Get_Door_Nums (gdev_upd f db) = Flash_Get_Door_Nums db"
  "Flash_Get_Gateway_Nums (gdev_upd f db) = Flash_Get_Gateway_Nums db"
  "Flash_Get_Moto_Flag (gdev_upd f db) = Flash_Get_Moto_Flag db"
  "Flash_Get_Key_Value k (gdev_upd f db) = Flash_Get_Key_Value k db"
  "Flash_Get_Learn_Nums (set_ID n i db) = Flash_Get_Learn_Nums db"
  "Flash_Get_Door_Nums (set_ID n i db) = Flash_Get_Door_Nums db"
  "Flash_Get_Gateway_Nums (set_ID n i db) = Flash_Get_Gateway_Nums db"
  "Flash_Get_Moto_Flag (set_ID n i db) = Flash_Get_Moto_Flag db"
  "Flash_Get_Key_Value k (set_ID n i db) = Flash_Get_Key_Value k db"
  by (simp_all add: getter_defs)

text \<open>
  \<open>Get_LearnNums_Valid\<close> returns the least free slot, raising \<open>Num\<close> when that slot is new; it
  fails exactly when all \<open>MaxSupport - 1\<close> slots are taken, and then changes nothing.
\<close>

lemma Get_LearnNums_Valid_full:
  "fst (Get_LearnNums_Valid db) = 0 \<longleftrightarrow>
     (\<forall>j. 1 \<le> j \<longrightarrow> j < MaxSupport \<longrightarrow> arr_get (ID (Global_Device db)) j \<noteq> 0)"
  "fst (Get_LearnNums_Valid db) = 0 \<Longrightarrow> snd (Get_LearnNums_Valid db) = db"
  using first_free_None [of "ID (Global_Device db)" 1]
  by (auto simp: Get_LearnNums_Valid_def first_free_Some split: option.splits)

lemma Get_LearnNums_Valid_slot:
  assumes wf: "table_wf db" and get: "Get_LearnNums_Valid db = (n, db1)" "n \<noteq> 0"
  shows "n < MaxSupport" "arr_get (ID (Global_Device db)) n = 0"
    "\<And>j. 1 \<le> j \<Longrightarrow> j < n \<Longrightarrow> arr_get (ID (Global_Device db)) j \<noteq> 0"
    "Global_Device db1 = (Global_Device db)\<lparr>Num := of_nat (max n (unat (Num (Global_Device db))))\<rparr>"
    "table_wf db1" "ef_usable (env db1) = ef_usable (env db)"
    "Flash_Get_Door_Nums db1 = Flash_Get_Door_Nums db" "Flash_Get_Gateway_Nums db1 = Flash_Get_Gateway_Nums db"
    "Flash_Get_Moto_Flag db1 = Flash_Get_Moto_Flag db" "Flash_Get_Key_Value j db1 = Flash_Get_Key_Value j db"
proof -
  let ?d = "Global_Device db"
  have n: "first_free (ID ?d) 1 = Some n"
    using get by (auto simp: Get_LearnNums_Valid_def split: option.splits)
  then show lt: "n < MaxSupport" and free: "arr_get (ID ?d) n = 0"
    and least: "\<And>j. 1 \<le> j \<Longrightarrow> j < n \<Longrightarrow> arr_get (ID ?d) j \<noteq> 0"
    by (auto simp: first_free_Some)
  have un: "unat (of_nat n :: uint32) = n" using lt by (simp add: MaxSupport_def)
  have db1: "db1 = (if unat (Num ?d) < n
      then (block [gdev_upd (Num_update (\<lambda>_. of_nat n)), Flash_LearnNums_Change (of_nat n)]) db else db)"
    using get n un by (simp add: Get_LearnNums_Valid_def word_less_nat_alt)
  then show g: "Global_Device db1 = ?d\<lparr>Num := of_nat (max n (unat (Num ?d)))\<rparr>"
    by (auto simp: max_def)
  show "ef_usable (env db1) = ef_usable (env db)" using db1 by simp
  show "Flash_Get_Door_Nums db1 = Flash_Get_Door_Nums db" "Flash_Get_Gateway_Nums db1 = Flash_Get_Gateway_Nums db"
    "Flash_Get_Moto_Flag db1 = Flash_Get_Moto_Flag db" "Flash_Get_Key_Value j db1 = Flash_Get_Key_Value j db"
    using db1 by (cases "ef_usable (env db)"; simp add: Flash_LearnNums_Change_reads)+
  show "table_wf db1"
  proof (cases "unat (Num ?d) < n")
    case True
    let ?db = "(block [gdev_upd (Num_update (\<lambda>_. of_nat n)), Flash_LearnNums_Change (of_nat n)]) db"
    have "roles_ok (?d\<lparr>Num := of_nat n\<rparr>)"
      using wf True lt un table_wfD(3,4,7) [OF wf] by (auto simp: roles_ok_def word_le_nat_alt MaxSupport_def)
    moreover have "store_wf ?db \<and> (ef_usable (env db) \<longrightarrow> Flash_Get_Learn_Nums ?db = of_nat n)
        \<and> Flash_Get_Learn_Nums ?db \<le> of_nat n"
      using wf True lt un
      by (cases "ef_usable (env db)")
        (auto simp: table_wf_def store_wf_def Flash_LearnNums_Change_reads word_le_nat_alt MaxSupport_def)
    ultimately show ?thesis using wf db1 True by (simp add: table_wf_def arrays_ok_def)
  qed (use wf db1 in simp)
qed

lemma enroll_core:
  fixes i :: uint32
  assumes wf: "table_wf db" and get: "Get_LearnNums_Valid db = (n, db1)" "n \<noteq> 0"
  defines "db2 \<equiv> (block [set_ID n i, Flash_Key_Change (of_nat n) i]) db1"
  shows "table_wf db2" "mirrored db \<Longrightarrow> mirrored db2"
    "Global_Device db2 = (Global_Device db)\<lparr>Num := of_nat (max n (unat (Num (Global_Device db)))),
       ID := arr_set (ID (Global_Device db)) n i\<rparr>"
proof -
  let ?d = "Global_Device db"
  note s = Get_LearnNums_Valid_slot [OF wf get]
  have n: "n < 13" using s(1) by (simp add: MaxSupport_def)
  show g: "Global_Device db2 = ?d\<lparr>Num := of_nat (max n (unat (Num ?d))), ID := arr_set (ID ?d) n i\<rparr>"
    using s(4) by (simp add: db2_def)
  have un: "unat (of_nat (max n (unat (Num ?d))) :: uint32) = max n (unat (Num ?d))"
    using n table_wfD(1) [OF wf] by simp
  have u: "\<not> ef_usable (env db1) \<Longrightarrow> db2 = set_ID n i db1" by (simp add: db2_def)
  have roles: "roles_ok (Global_Device db2)"
    using s(4,5) n un by (auto simp: g table_wf_def roles_ok_def arr_get_def arr_set_def nth_list_update)
  show "table_wf db2"
    using s(5) roles n un
    by (cases "ef_usable (env db1)")
      (auto simp: u table_wf_def arrays_ok_def store_wf_def Flash_Key_Change_reads db2_def)
  assume m: "mirrored db"
  then have us: "ef_usable (env db)" by (simp add: mirrored_def)
  have key: "Flash_Get_Key_Value (of_nat j) db2 = arr_get (ID (Global_Device db2)) j"
    if "1 \<le> j" "j \<le> max n (unat (Num ?d))" for j
  proof -
    have j: "j < 4294967296" "j < 20" using that n table_wfD(1) [OF wf] by auto
    have "j = n \<or> j \<le> unat (Num ?d)"
    proof (cases "j < n")
      case True
      then show ?thesis using s(3) [of j] that table_wfD(7) [OF wf, of j] by (metis linorder_not_less)
    qed (use that in auto)
    then show ?thesis
    proof
      assume "j = n"
      then show ?thesis using n us s(6) table_wfD(5) [OF wf] by (simp add: db2_def s(4) Flash_Key_Change_reads)
    next
      assume "j \<le> unat (Num ?d)"
      then have "Flash_Get_Key_Value (of_nat j) db = arr_get (ID ?d) j"
        using m that(1) by (simp add: mirrored_def Let_def)
      then show ?thesis using us s(6) n j(1) table_wfD(5) [OF wf]
        by (simp add: db2_def Flash_Key_Change_reads s(4,10) of_nat_small_eq arr_get_set)
    qed
  qed
  have "Flash_Get_Learn_Nums db1 = Num (Global_Device db1)" "Flash_Get_Learn_Nums db2 = Flash_Get_Learn_Nums db1"
    using s(5,6) us by (simp_all add: table_wf_def db2_def Flash_Key_Change_reads)
  then have "Flash_Get_Learn_Nums db2 = Num (Global_Device db2)" by (simp add: g s(4))
  moreover have "Flash_Get_Door_Nums db2 = Flash_Get_Door_Nums db" "Flash_Get_Gateway_Nums db2 = Flash_Get_Gateway_Nums db"
    "Flash_Get_Moto_Flag db2 = Flash_Get_Moto_Flag db" "ef_usable (env db2)"
    using n us s(6-9) by (simp_all add: db2_def Flash_Key_Change_reads)
  ultimately show "mirrored db2"
    using key m unfolding mirrored_def Let_def by (simp add: g un)
qed

lemma put_core:
  fixes i num :: uint32
  assumes wf: "table_wf db" and num: "num \<le> Num (Global_Device db)"
  defines "db2 \<equiv> (block [set_ID (unat num) i, Flash_Key_Change num i]) db"
  shows "table_wf db2" "mirrored db \<Longrightarrow> mirrored db2"
proof -
  let ?d = "Global_Device db"
  have n: "num \<le> 12" "unat num < 20" "num \<noteq> 88888888" "num \<noteq> 88887777"
    using num wf by (auto simp: table_wf_def roles_ok_def word_le_nat_alt dest: arg_cong [where f = unat])
  have roles: "roles_ok (Global_Device db2)"
    using wf num by (auto simp: db2_def table_wf_def roles_ok_def word_le_nat_alt)
  show "table_wf db2"
    using wf roles n
    by (cases "ef_usable (env db)")
      (auto simp: table_wf_def arrays_ok_def store_wf_def Flash_Key_Change_reads db2_def)
  assume m: "mirrored db"
  then have us: "ef_usable (env db)" by (simp add: mirrored_def)
  have "Flash_Get_Key_Value (of_nat j) db2 = arr_get (ID (Global_Device db2)) j"
    if "1 \<le> j" "j \<le> unat (Num ?d)" for j
  proof -
    have "(of_nat j :: uint32) = num \<longleftrightarrow> j = unat num" "Flash_Get_Key_Value (of_nat j) db = arr_get (ID ?d) j"
      using that table_wfD(1) [OF wf] m unat_of_nat_small [of j] by (auto simp: mirrored_def Let_def)
    then show ?thesis
      using us n table_wfD(5) [OF wf] by (simp add: db2_def Flash_Key_Change_reads arr_get_set)
  qed
  then show "mirrored db2"
    using m us n by (simp add: db2_def mirrored_def Let_def Flash_Key_Change_reads)
qed

lemma role_core:
  assumes wf: "table_wf db" and v: "v \<le> Num (Global_Device db)"
  shows "table_wf ((block [gdev_upd (DoorNum_update (\<lambda>_. v)), Flash_Key_Change 88888888 v]) db)"
    "mirrored db \<Longrightarrow> mirrored ((block [gdev_upd (DoorNum_update (\<lambda>_. v)), Flash_Key_Change 88888888 v]) db)"
    "table_wf ((block [gdev_upd (GatewayNum_update (\<lambda>_. v)), Flash_Key_Change 88887777 v]) db)"
    "mirrored db \<Longrightarrow> mirrored ((block [gdev_upd (GatewayNum_update (\<lambda>_. v)), Flash_Key_Change 88887777 v]) db)"
proof -
  have small: "n \<le> unat (Num (Global_Device db)) \<Longrightarrow> n < 13" for n using table_wfD(1) [OF wf] by simp
  show "table_wf ((block [gdev_upd (DoorNum_update (\<lambda>_. v)), Flash_Key_Change 88888888 v]) db)"
    "table_wf ((block [gdev_upd (GatewayNum_update (\<lambda>_. v)), Flash_Key_Change 88887777 v]) db)"
    using wf v
    by (cases "ef_usable (env db)";
        simp add: table_wf_def roles_ok_def arrays_ok_def store_wf_def Flash_Key_Change_reads)+
  show "mirrored db \<Longrightarrow> mirrored ((block [gdev_upd (DoorNum_update (\<lambda>_. v)), Flash_Key_Change 88888888 v]) db)"
    "mirrored db \<Longrightarrow> mirrored ((block [gdev_upd (GatewayNum_update (\<lambda>_. v)), Flash_Key_Change 88887777 v]) db)"
    using small by (auto simp: mirrored_def Let_def Flash_Key_Change_reads)
qed

lemma flash_roles_le:
  assumes "table_wf db"
  shows "Flash_Get_Door_Nums db \<le> Num (Global_Device db)" "Flash_Get_Gateway_Nums db \<le> Num (Global_Device db)"
  using assms order.trans by (auto simp: table_wf_def store_wf_def)

subsection \<open>Every operation on the registry keeps it well formed and mirrored\<close>

lemma Add_Device_keeps:
  assumes "table_wf db"
  shows "table_wf (snd (Add_Device i db))" "mirrored db \<Longrightarrow> mirrored (snd (Add_Device i db))"
proof -
  obtain n db1 where g: "Get_LearnNums_Valid db = (n, db1)" by fastforce
  have "n = 0 \<Longrightarrow> db1 = db" using Get_LearnNums_Valid_full(2) [of db] g by simp
  then show "table_wf (snd (Add_Device i db))" "mirrored db \<Longrightarrow> mirrored (snd (Add_Device i db))"
    using assms g enroll_core [OF assms g] by (cases "n = 0"; simp add: Add_Device_def)+
qed

lemma Add_role_keeps:
  assumes wf: "table_wf db"
  shows "table_wf (snd (Add_GatewayDevice i db))" "mirrored db \<Longrightarrow> mirrored (snd (Add_GatewayDevice i db))"
    "table_wf (snd (Add_DoorDevice_table i db))" "mirrored db \<Longrightarrow> mirrored (snd (Add_DoorDevice_table i db))"
proof -
  obtain n db1 where g: "Get_LearnNums_Valid db = (n, db1)" by fastforce
  define db2 where "db2 = (block [set_ID n i, Flash_Key_Change (of_nat n) i]) db1"
  define put where "put num = (block [set_ID (unat num) i, Flash_Key_Change num i]) db" for num
  have nz: "n = 0 \<Longrightarrow> db1 = db" using Get_LearnNums_Valid_full(2) [of db] g by simp
  have e: "table_wf db2" "mirrored db \<Longrightarrow> mirrored db2" "of_nat n \<le> Num (Global_Device db2)" if "n \<noteq> 0"
    using enroll_core [OF wf g that, of i] Get_LearnNums_Valid_slot(1) [OF wf g that] table_wfD(1) [OF wf]
    by (auto simp: db2_def word_le_nat_alt MaxSupport_def)
  have p: "table_wf (put num)" "mirrored db \<Longrightarrow> mirrored (put num)" "num \<le> Num (Global_Device (put num))"
    if "num \<le> Num (Global_Device db)" for num
    using put_core [OF wf that, of i] that by (simp_all add: put_def)
  show "table_wf (snd (Add_GatewayDevice i db))" "mirrored db \<Longrightarrow> mirrored (snd (Add_GatewayDevice i db))"
    "table_wf (snd (Add_DoorDevice_table i db))" "mirrored db \<Longrightarrow> mirrored (snd (Add_DoorDevice_table i db))"
    using wf nz g e p [OF flash_roles_le(1) [OF wf]] p [OF flash_roles_le(2) [OF wf]]
      role_core [of db2 "of_nat n"] role_core [of "put (Flash_Get_Gateway_Nums db)" "Flash_Get_Gateway_Nums db"]
      role_core [of "put (Flash_Get_Door_Nums db)" "Flash_Get_Door_Nums db"]
    by (cases "n = 0"; simp add: Add_GatewayDevice_def Add_DoorDevice_table_def Let_def db2_def put_def)+
qed

lemma Delete_Device_keeps:
  assumes wf: "table_wf db"
  shows "table_wf (snd (Delete_Device i db))" "mirrored db \<Longrightarrow> mirrored (snd (Delete_Device i db))"
proof -
  define num where "num = (of_nat (slot_of i db) :: uint32)"
  have s: "slot_of i db \<le> unat (Num (Global_Device db))" by (rule slot_of_le [OF wf])
  have un: "unat num = slot_of i db"
    using s table_wfD(1) [OF wf] by (simp add: num_def)
  then have le: "num \<le> Num (Global_Device db)" using s by (simp add: word_le_nat_alt)
  let ?db = "(block [set_ID (slot_of i db) 0, Flash_Key_Change num 0]) db"
  have 1: "table_wf ?db" "mirrored db \<Longrightarrow> mirrored ?db"
    using put_core [OF wf le, of 0] un by simp_all
  then show "table_wf (snd (Delete_Device i db))" "mirrored db \<Longrightarrow> mirrored (snd (Delete_Device i db))"
    using wf role_core(1,2) [OF 1(1), of 0]
    by (simp_all add: Delete_Device_def Let_def num_def)
qed

lemma Flash_Moto_Change_keeps:
  "table_wf (Flash_Moto_Change v db) = table_wf db" "mirrored (Flash_Moto_Change v db) = mirrored db"
  "ef_usable (env (Flash_Moto_Change v db)) = ef_usable (env db)"
  "Flash_Get_Moto_Flag (Flash_Moto_Change v db) =
     (if ef_usable (env db) then ucast v else Flash_Get_Moto_Flag db)"
  by (simp_all add: Flash_Moto_Change_def mirrored_write getter_defs show_int_uint8 read_write_same
      length_show_ld_key EF_ENV_NAME_MAX_def write_key_unusable)

lemma erase_table_keeps: "table_wf db \<Longrightarrow> table_wf (erase_table db)"
  "ef_usable (env db) \<Longrightarrow> mirrored (erase_table db)"
  by (simp_all add: erase_table_def table_wf_def mirrored_def arrays_ok_def roles_ok_def store_wf_def
      getter_defs read_key_def ef_get_env_blob_def ef_env_set_default_def default_env_set_def
      Device_Info_zero_def ef_usable_def)

subsection \<open>The counters of the offline supervision\<close>

definition next_time :: "uint32 \<Rightarrow> uint32" where
  "next_time t = (if t < 25 then t + 1 else t)"

lemma fold_arr_set:
  "distinct is \<Longrightarrow> (\<And>i. i \<in> set is \<Longrightarrow> i < length xs) \<Longrightarrow>
   arr_get (fold (\<lambda>i xs. arr_set xs i (f (arr_get xs i))) is xs) j
     = (if j \<in> set is then f (arr_get xs j) else arr_get xs j)"
  by (induction "is" arbitrary: xs) (auto simp: arr_get_set)

lemma length_fold_arr_set [simp]: "length (fold (\<lambda>i xs. arr_set xs i (g i xs)) is xs) = length xs"
  by (induction "is" arbitrary: xs) auto

lemma Update_All_Time_eq:
  assumes "table_wf db"
  shows "Update_All_Time db = gdev_upd (ID_Time_update
    (fold (\<lambda>i xs. arr_set xs i (next_time (arr_get xs i))) (slots (unat (Num (Global_Device db)))))) db"
proof -
  have "fold (\<lambda>i db. let t = arr_get (ID_Time (Global_Device db)) i; t' = (if t < 25 then t + 1 else t)
        in gdev_upd (ID_Time_update (\<lambda>xs. arr_set xs i t')) db) is db
      = gdev_upd (ID_Time_update (fold (\<lambda>i xs. arr_set xs i (next_time (arr_get xs i))) is)) db" for "is" db
    by (induction "is" arbitrary: db) (simp_all add: next_time_def Let_def)
  then show ?thesis
    using table_wfD(1,2) [OF assms] by (simp add: Update_All_Time_def for_slots_def)
qed

lemma fold_keeps: "(\<And>x s. P s \<Longrightarrow> P (f x s)) \<Longrightarrow> P s \<Longrightarrow> P (fold f xs s)"
  by (induction xs arbitrary: s) auto

lemma for_slots_keeps:
  assumes "table_wf db" "P db" "n \<le> 12" "\<And>i db. P db \<Longrightarrow> P (f i db)"
  shows "P (for_slots n f db)"
  using assms fold_keeps [of P f db] by (simp add: for_slots_def)

lemma time_ops_keep [keeps]:
  assumes wf: "table_wf db"
  shows "table_wf (Update_All_Time db)" "mirrored db \<Longrightarrow> mirrored (Update_All_Time db)"
    "table_wf (Clear_All_Time db)" "mirrored db \<Longrightarrow> mirrored (Clear_All_Time db)"
proof -
  show "table_wf (Update_All_Time db)" "mirrored db \<Longrightarrow> mirrored (Update_All_Time db)"
    using wf by (simp_all add: Update_All_Time_eq [OF wf] table_wf_gdev mirrored_gdev arrays_ok_def)
  have n: "num16 db \<le> 12" using table_wfD [OF wf] by simp
  show "table_wf (Clear_All_Time db)"
    unfolding Clear_All_Time_def
    by (rule for_slots_keeps [of db table_wf, OF wf wf n])
      (simp add: Let_def table_wf_gdev arrays_ok_def)
  show "mirrored (Clear_All_Time db)" if "mirrored db"
    unfolding Clear_All_Time_def
    by (rule for_slots_keeps [of db mirrored, OF wf that n]) (simp add: Let_def mirrored_gdev)
qed

subsection \<open>Loading the table\<close>

lemma load_slot_sel:
  "env (load_slot i db) = env db" "stuck (load_slot i db) = stuck db"
  "ID (Global_Device (load_slot i db)) = arr_set (ID (Global_Device db)) i (Flash_Get_Key_Value (of_nat i) db)"
  "Num (Global_Device (load_slot i db)) = Num (Global_Device db)"
  "arrays_ok (Global_Device (load_slot i db)) = arrays_ok (Global_Device db)"
  by (simp_all add: load_slot_def Let_def arrays_ok_def)

lemma load_slots:
  "distinct is \<Longrightarrow> (\<And>i. i \<in> set is \<Longrightarrow> i < length (ID (Global_Device db))) \<Longrightarrow>
   env (fold load_slot is db) = env db \<and> stuck (fold load_slot is db) = stuck db \<and>
   Num (Global_Device (fold load_slot is db)) = Num (Global_Device db) \<and>
   arrays_ok (Global_Device (fold load_slot is db)) = arrays_ok (Global_Device db) \<and>
   (\<forall>j. arr_get (ID (Global_Device (fold load_slot is db))) j =
     (if j \<in> set is then Flash_Get_Key_Value (of_nat j) db else arr_get (ID (Global_Device db)) j))"
proof (induction "is" arbitrary: db)
  case (Cons i "is")
  have v: "Flash_Get_Key_Value k (load_slot i db) = Flash_Get_Key_Value k db" for k
    by (simp add: getter_defs read_key_def load_slot_sel)
  show ?case using Cons.prems Cons.IH [of "load_slot i db"]
    by (auto simp: load_slot_sel v arr_get_set)
qed simp

lemma LoadDevice2Memory_spec:
  assumes st: "store_wf db" "\<not> stuck db"
  defines "d \<equiv> Global_Device (LoadDevice2Memory db)"
  shows "Num d = Flash_Get_Learn_Nums db" "DoorNum d = Flash_Get_Door_Nums db"
    "GatewayNum d = Flash_Get_Gateway_Nums db" "LastFlag d = ucast (Flash_Get_Moto_Flag db)"
    "arr_get (ID d) j = (if 1 \<le> j \<and> j \<le> unat (Flash_Get_Learn_Nums db)
       then Flash_Get_Key_Value (of_nat j) db else 0)"
    "arrays_ok d" "env (LoadDevice2Memory db) = env db" "\<not> stuck (LoadDevice2Memory db)"
proof -
  define n where "n = unat (Flash_Get_Learn_Nums db)"
  have n: "n \<le> 12" using st(1) by (simp add: n_def store_wf_def word_le_nat_alt)
  let ?db1 = "db\<lparr>Global_Device := Device_Info_zero\<lparr>Num := Flash_Get_Learn_Nums db\<rparr>\<rparr>"
  define db2 where "db2 = fold load_slot (slots n) ?db1"
  have zero: "arrays_ok (Device_Info_zero\<lparr>Num := v\<rparr>)" "length (ID Device_Info_zero) = 20"
    "arr_get (ID Device_Info_zero) k = 0" for v k
    by (simp_all add: Device_Info_zero_def arrays_ok_def)
  have L: "LoadDevice2Memory db = db2\<lparr>Global_Device := (Global_Device db2)
      \<lparr>DoorNum := Flash_Get_Key_Value 88888888 db2, GatewayNum := Flash_Get_Key_Value 88887777 db2,
       LastFlag := ucast (Flash_Get_Moto_Flag db2)\<rparr>\<rparr>"
    using n by (simp add: LoadDevice2Memory_def db2_def for_slots_def n_def [symmetric] Let_def)
  have F: "env db2 = env db" "stuck db2 = stuck db" "Num (Global_Device db2) = Flash_Get_Learn_Nums db"
    "arrays_ok (Global_Device db2)"
    "arr_get (ID (Global_Device db2)) k = (if k \<in> set (slots n) then Flash_Get_Key_Value (of_nat k) ?db1 else 0)" for k
    using load_slots [of "(slots n)" ?db1] n zero by (auto simp: db2_def)
  have R: "read_key k db2 = read_key k db" for k using F(1) by (simp add: read_key_def)
  show "Num d = Flash_Get_Learn_Nums db" "DoorNum d = Flash_Get_Door_Nums db"
    "GatewayNum d = Flash_Get_Gateway_Nums db" "LastFlag d = ucast (Flash_Get_Moto_Flag db)"
    "env (LoadDevice2Memory db) = env db" "\<not> stuck (LoadDevice2Memory db)" "arrays_ok d"
    using F(1-4) st(2) by (simp_all add: d_def L getter_defs R role_keys arrays_ok_def)
  show "arr_get (ID d) j = (if 1 \<le> j \<and> j \<le> unat (Flash_Get_Learn_Nums db)
       then Flash_Get_Key_Value (of_nat j) db else 0)"
    using F(5) [of j] by (auto simp: d_def L n_def Flash_Get_Key_Value_def)
qed

lemma LoadDevice2Memory_wf: "store_wf db \<Longrightarrow> \<not> stuck db \<Longrightarrow> table_wf (LoadDevice2Memory db)"
  using LoadDevice2Memory_spec [of db]
  by (auto simp: table_wf_def store_wf_def roles_ok_def getter_defs read_key_def)

end
