(* ===== verification/Registry.thy ===== *)
theory Registry
  imports DeviceDb
begin

text \<open>
  What the rest of the firmware relies on about the device table: which operations leave the invariant
  and the stored valve flag alone, and the abstract registry the table implements, a set of at most 12
  device identifiers that a restart does not lose.
\<close>

section \<open>Operations that keep the table and its stored copy\<close>

text \<open>The valve flag of the store, as a restart will read it.\<close>

definition saved_flag :: "devdb \<Rightarrow> uint8 option" where
  "saved_flag db = (if ef_usable (env db) then Some (ucast (Flash_Get_Moto_Flag db)) else None)"

lemma ucast_back [simp]: "ucast (ucast (a :: uint8) :: uint32) = a"
  by (rule bit_word_eqI) (simp add: bit_ucast_iff)

definition table_ok :: "devdb \<Rightarrow> bool" where
  "table_ok db \<longleftrightarrow> table_wf db \<and> (ef_usable (env db) \<longrightarrow> mirrored db)"

locale table_operation =
  fixes f :: "devdb \<Rightarrow> devdb"
  assumes wf: "table_wf db \<Longrightarrow> table_wf (f db)"
    and mirror: "table_wf db \<Longrightarrow> mirrored db \<Longrightarrow> mirrored (f db)"
    and usable: "ef_usable (env (f db)) = ef_usable (env db)"
    and valve: "LastFlag (Global_Device (f db)) = LastFlag (Global_Device db)"
    and stored: "Flash_Get_Moto_Flag (f db) = Flash_Get_Moto_Flag db"
begin

lemma keeps_ok: "table_ok db \<Longrightarrow> table_ok (f db)"
  using wf mirror usable by (auto simp: table_ok_def)

lemma keeps_saved: "saved_flag (f db) = saved_flag db"
  by (simp add: saved_flag_def usable stored)

end

lemma slot_ops_frame:
  "ef_usable (env (snd (Get_LearnNums_Valid d))) = ef_usable (env d)"
  "Flash_Get_Moto_Flag (snd (Get_LearnNums_Valid d)) = Flash_Get_Moto_Flag d"
  "LastFlag (Global_Device (snd (Get_LearnNums_Valid d))) = LastFlag (Global_Device d)"
  by (simp_all add: Get_LearnNums_Valid_def Flash_LearnNums_Change_def Flash_Get_Moto_Flag_def split: option.split)

lemma moto_key_frame [simp]:
  "Flash_Get_Moto_Flag (Flash_Key_Change k v db) = Flash_Get_Moto_Flag db"
  "CHR '':'' \<in> set name \<Longrightarrow> read_key ''Moto'' (write_key (attr_key name i) w db) = read_key ''Moto'' db"
  by (simp_all add: Flash_Get_Moto_Flag_def Flash_Key_Change_def not_sym)

interpretation alive: table_operation "\<lambda>d. snd (Device_AliveChange i v d)" for i v
  by unfold_locales
    (simp_all add: slot_ops_wf slot_ops_mirrored, simp_all add: Device_AliveChange_def Flash_AliveChange_def Flash_Get_Moto_Flag_def Let_def)

interpretation bat: table_operation "\<lambda>d. snd (Update_Device_Bat i v d)" for i v
  by unfold_locales
    (simp_all add: slot_ops_wf slot_ops_mirrored, simp_all add: Update_Device_Bat_def Device_BatChange_def Flash_Get_Moto_Flag_def Let_def)

interpretation rssi: table_operation "\<lambda>d. snd (Update_Device_Rssi i r d)" for i r
  by unfold_locales
    (simp_all add: slot_ops_wf slot_ops_mirrored, simp_all add: Update_Device_Rssi_def Device_RssiChange_def Flash_Get_Moto_Flag_def Let_def)

interpretation alarm: table_operation "\<lambda>d. snd (Flash_Set_SlaveAlarmFlag i v d)" for i v
  by unfold_locales
    (simp_all add: slot_ops_wf slot_ops_mirrored, simp_all add: Flash_Set_SlaveAlarmFlag_def Device_SlaveAlarmChange_def
      Flash_Get_Moto_Flag_def Let_def)

interpretation clear_time: table_operation "\<lambda>d. snd (Clear_Device_Time i d)" for i
  by unfold_locales (simp_all add: slot_ops_wf slot_ops_mirrored, simp_all add: Clear_Device_Time_def Let_def)

interpretation remove: table_operation "\<lambda>d. snd (Delete_Device i d)" for i
  by unfold_locales (simp_all add: Delete_Device_keeps, simp_all add: Delete_Device_def Let_def)

lemma add_frames:
  assumes "Get_LearnNums_Valid d = (n, d1)"
  shows "ef_usable (env d1) = ef_usable (env d)" "Flash_Get_Moto_Flag d1 = Flash_Get_Moto_Flag d"
    "LastFlag (Global_Device d1) = LastFlag (Global_Device d)"
  using slot_ops_frame [of d] by (simp_all add: assms)

interpretation enrol: table_operation "\<lambda>d. snd (Add_Device i d)" for i
  by unfold_locales
    (simp_all add: Add_Device_keeps, simp_all add: Add_Device_def add_frames split: prod.split)

interpretation enrol_gateway: table_operation "\<lambda>d. snd (Add_GatewayDevice i d)" for i
  by unfold_locales
    (simp_all add: Add_role_keeps, simp_all add: Add_GatewayDevice_def Let_def add_frames split: prod.split)

interpretation enrol_door: table_operation "\<lambda>d. snd (Add_DoorDevice_table i d)" for i
  by unfold_locales
    (simp_all add: Add_role_keeps, simp_all add: Add_DoorDevice_table_def Let_def add_frames split: prod.split)

lemma for_slots_frame:
  assumes "\<And>i d. P (f i d) = P d" "\<And>d b. P (d\<lparr>stuck := b\<rparr>) = P d"
  shows "P (for_slots n f d) = P d"
proof -
  have "P (fold f is d) = P d" for "is" using assms(1) by (induction "is" arbitrary: d) auto
  then show ?thesis by (simp add: for_slots_def assms(2))
qed

lemmas for_slots_valve = for_slots_frame [where P = "\<lambda>d. LastFlag (Global_Device d)"]

interpretation tick_times: table_operation Update_All_Time
  by unfold_locales
    (simp_all add: time_ops_keep, simp_all add: Update_All_Time_def for_slots_frame for_slots_valve Let_def Flash_Get_Moto_Flag_def)

interpretation clear_times: table_operation Clear_All_Time
  by unfold_locales
    (simp_all add: time_ops_keep, simp_all add: Clear_All_Time_def for_slots_frame for_slots_valve Let_def Flash_Get_Moto_Flag_def)

text \<open>Loading the table from a store in order gives a table in order, with the valve flag of the store.\<close>

lemma LoadDevice2Memory_ok:
  assumes "store_wf db" "\<not> stuck db"
  defines "l \<equiv> LoadDevice2Memory db"
  shows "table_ok l" "saved_flag l = None \<or> saved_flag l = Some (LastFlag (Global_Device l))"
proof -
  note L = LoadDevice2Memory_spec [OF assms(1,2), folded l_def]
  have r: "read_key k l = read_key k db" for k by (simp add: read_key_def L(7))
  show "table_ok l"
    using LoadDevice2Memory_wf [OF assms(1,2)] L
    by (auto simp: table_ok_def mirrored_def Let_def getter_defs r l_def [symmetric])
  show "saved_flag l = None \<or> saved_flag l = Some (LastFlag (Global_Device l))"
    by (simp add: saved_flag_def L(4) getter_defs r)
qed

section \<open>The abstract registry\<close>

text \<open>
  The contract: a set of identifiers. An unknown device is added unless the registry is full; a member
  can be removed; other requests fail and change nothing; a reload loses nothing.
\<close>

datatype 'i request = Enrol 'i | Remove 'i | Restart

text \<open>The set machine the registry implements: the reply and the new members.\<close>

fun serve :: "nat \<Rightarrow> 'i request \<Rightarrow> 'i set \<Rightarrow> uint8 \<times> 'i set" where
  "serve cap (Enrol i) S =
     (if i \<in> S then (RT_EOK, S) else if card S < cap then (RT_EOK, insert i S) else (RT_ERROR, S))"
| "serve cap (Remove i) S = (if i \<in> S then (RT_EOK, S - {i}) else (RT_ERROR, S))"
| "serve cap Restart S = (RT_EOK, S)"

text \<open>The requests of the contract: identifiers are not 0, and those to enrol are of the plain kind.\<close>

fun request_id :: "('i \<Rightarrow> bool) \<Rightarrow> 'i::zero request \<Rightarrow> bool" where
  "request_id plain (Enrol i) \<longleftrightarrow> i \<noteq> 0 \<and> plain i"
| "request_id plain (Remove i) \<longleftrightarrow> i \<noteq> 0"
| "request_id plain Restart \<longleftrightarrow> True"

fun run_requests :: "('r \<Rightarrow> 's \<Rightarrow> 'a \<times> 's) \<Rightarrow> 'r list \<Rightarrow> 's \<Rightarrow> 'a list \<times> 's" where
  "run_requests f [] s = ([], s)"
| "run_requests f (r # rs) s = (let (a, s1) = f r s; (as, s2) = run_requests f rs s1 in (a # as, s2))"

text \<open>
  A request to the code: a known device is not added twice, as in \<open>Device_Learn\<close>.
\<close>

fun handle :: "('i \<Rightarrow> 's \<Rightarrow> bool) \<Rightarrow> ('i \<Rightarrow> 's \<Rightarrow> uint8 \<times> 's) \<Rightarrow>
    ('i \<Rightarrow> 's \<Rightarrow> uint8 \<times> 's) \<Rightarrow> ('s \<Rightarrow> 's) \<Rightarrow> 'i request \<Rightarrow> 's \<Rightarrow> uint8 \<times> 's" where
  "handle known add del reload (Enrol i) s = (if known i s then (RT_EOK, s) else add i s)"
| "handle known add del reload (Remove i) s = del i s"
| "handle known add del reload Restart s = (RT_EOK, reload s)"

locale registry =
  fixes ok :: "'s \<Rightarrow> bool" and members :: "'s \<Rightarrow> 'i::zero set" and cap :: nat and plain :: "'i \<Rightarrow> bool"
    and known :: "'i \<Rightarrow> 's \<Rightarrow> bool" and add :: "'i \<Rightarrow> 's \<Rightarrow> uint8 \<times> 's" and del :: "'i \<Rightarrow> 's \<Rightarrow> uint8 \<times> 's"
    and reload :: "'s \<Rightarrow> 's"
  assumes known: "ok s \<Longrightarrow> i \<noteq> 0 \<Longrightarrow> known i s \<longleftrightarrow> i \<in> members s"
    and add_ok: "ok s \<Longrightarrow> i \<noteq> 0 \<Longrightarrow> plain i \<Longrightarrow> i \<notin> members s \<Longrightarrow> card (members s) < cap \<Longrightarrow>
      fst (add i s) = RT_EOK \<and> ok (snd (add i s)) \<and> members (snd (add i s)) = insert i (members s)"
    and add_full: "ok s \<Longrightarrow> plain i \<Longrightarrow> \<not> card (members s) < cap \<Longrightarrow> add i s = (RT_ERROR, s)"
    and del_ok: "ok s \<Longrightarrow> i \<in> members s \<Longrightarrow>
      fst (del i s) = RT_EOK \<and> ok (snd (del i s)) \<and> members (snd (del i s)) = members s - {i}"
    and del_none: "ok s \<Longrightarrow> i \<noteq> 0 \<Longrightarrow> i \<notin> members s \<Longrightarrow> del i s = (RT_ERROR, s)"
    and reload_ok: "ok s \<Longrightarrow> ok (reload s) \<and> members (reload s) = members s"
begin

lemma handle_serves:
  assumes "ok s" "request_id plain r"
  defines "h \<equiv> handle known add del reload r s"
  shows "ok (snd h) \<and> serve cap r (members s) = (fst h, members (snd h))"
proof (cases r)
  case (Enrol i)
  then show ?thesis
    using assms known [of s i] add_ok [of s i] add_full [of s i] by (cases "card (members s) < cap") auto
next
  case (Remove i)
  then show ?thesis using assms del_ok [of s i] del_none [of s i] by (cases "i \<in> members s") auto
qed (use assms in \<open>auto simp: reload_ok\<close>)

lemma run_serves:
  assumes "ok s" "list_all (request_id plain) rs"
  defines "h \<equiv> run_requests (handle known add del reload) rs s"
  shows "ok (snd h) \<and> run_requests (serve cap) rs (members s) = (fst h, members (snd h))"
  using assms(1,2) unfolding h_def
proof (induction rs arbitrary: s)
  case (Cons r rs)
  obtain a s1 where h: "handle known add del reload r s = (a, s1)" by fastforce
  with handle_serves [of s r] Cons.prems Cons.IH [of s1] show ?case
    by (auto split: prod.splits)
qed simp

end

section \<open>The table implements the registry\<close>

definition enrolled :: "devdb \<Rightarrow> uint32 set" where
  "enrolled db = set (filter (\<lambda>i. i \<noteq> 0) (map (arr_get (ID (Global_Device db))) (slots (num16 db))))"

text \<open>The slots in use; the table holds no identifier twice when the identifiers differ on them.\<close>

definition used :: "(nat \<Rightarrow> uint32) \<Rightarrow> nat set" where
  "used f = {n \<in> {1 .. 12}. f n \<noteq> 0}"

abbreviation id_at :: "devdb \<Rightarrow> nat \<Rightarrow> uint32" where
  "id_at db \<equiv> arr_get (ID (Global_Device db))"

lemma used_slots:
  assumes "table_wf db"
  shows "enrolled db = id_at db ` used (id_at db)"
    "ids_distinct db \<longleftrightarrow> inj_on (id_at db) (used (id_at db))"
proof -
  have "n \<le> unat (Num (Global_Device db))" if "id_at db n \<noteq> 0" for n
    using that table_wfD(7) [OF assms, of n] not_le by blast
  then have n: "1 \<le> n \<and> n \<le> unat (Num (Global_Device db)) \<and> id_at db n \<noteq> 0 \<longleftrightarrow> n \<in> used (id_at db)" for n
    using table_wfD(1) [OF assms] by (auto simp: used_def intro: order.trans)
  have "enrolled db = id_at db ` {n. 1 \<le> n \<and> n \<le> unat (Num (Global_Device db)) \<and> id_at db n \<noteq> 0}"
    unfolding enrolled_def table_wfD(2) [OF assms] by auto
  then show "enrolled db = id_at db ` used (id_at db)" unfolding n by simp
  show "ids_distinct db \<longleftrightarrow> inj_on (id_at db) (used (id_at db))"
    unfolding ids_distinct_def inj_on_def Let_def n [symmetric] Ball_def by metis
qed

lemma used_upd:
  assumes "f n = 0" "1 \<le> n" "n \<le> 12" "i \<noteq> 0"
  shows "used (f(n := i)) = insert n (used f)" "f(n := i) ` used (f(n := i)) = insert i (f ` used f)"
  using assms by (auto simp: used_def)

lemma used_del:
  assumes "inj_on f (used f)" "n \<in> used f"
  shows "f(n := 0) ` used (f(n := 0)) = f ` used f - {f n}" "inj_on (f(n := 0)) (used (f(n := 0)))"
  using assms by (auto simp: used_def inj_on_def)

lemma known_enrolled:
  assumes "table_wf db" "i \<noteq> 0"
  shows "Flash_Get_Key_Valid i db = RT_EOK \<longleftrightarrow> i \<in> enrolled db"
proof -
  have "slot_of i db \<noteq> 0 \<longleftrightarrow> i \<in> enrolled db"
    using slot_of_0 [OF assms(1), of i] assms(2) table_wfD(2) [OF assms(1)] by (auto simp: enrolled_def)
  then show ?thesis by (auto simp: Flash_Get_Key_Valid_def)
qed

lemma card_used: "card (used f) < 12 \<longleftrightarrow> (\<exists>j. 1 \<le> j \<and> j < MaxSupport \<and> f j = 0)"
proof -
  define U where "U = {1 .. 12 :: nat}"
  have U: "finite U" "card U = 12" "j \<in> U \<longleftrightarrow> 1 \<le> j \<and> j < MaxSupport" for j by (auto simp: U_def MaxSupport_def)
  have s: "used f \<subseteq> U" "used f = U \<longleftrightarrow> (\<forall>j \<in> U. f j \<noteq> 0)" unfolding used_def U_def [symmetric] by blast+
  have "card (used f) < 12 \<longleftrightarrow> used f \<noteq> U"
    using psubset_card_mono [OF U(1), of "used f"] s(1) card_subset_eq [OF U(1) s(1)] U(2) by (metis less_le nat_neq_iff)
  then show ?thesis using s(2) U(3) by blast
qed

lemma full_enrolled:
  assumes "table_wf db" "ids_distinct db"
  shows "fst (Get_LearnNums_Valid db) = 0 \<longleftrightarrow> \<not> card (enrolled db) < 12"
proof -
  have "card (enrolled db) = card (used (id_at db))"
    using used_slots [OF assms(1)] assms(2) by (simp add: card_image)
  then show ?thesis unfolding Get_LearnNums_Valid_full card_used [symmetric] by (auto simp: card_used)
qed

text \<open>The state of the table while its store works and no identifier is held twice.\<close>

definition registered :: "devdb \<Rightarrow> bool" where
  "registered db \<longleftrightarrow> table_wf db \<and> mirrored db \<and> ids_distinct db"

lemma id_at_set: "n < 20 \<Longrightarrow> table_wf db \<Longrightarrow> arr_get (arr_set (ID (Global_Device db)) n i) = (id_at db)(n := i)"
  using table_wfD(5) by (auto simp: arr_get_set)

lemma Add_Device_enrols:
  assumes r: "registered db" and i: "i \<noteq> 0" "i \<notin> enrolled db" and c: "card (enrolled db) < 12"
  shows "fst (Add_Device i db) = RT_EOK \<and> registered (snd (Add_Device i db)) \<and>
    enrolled (snd (Add_Device i db)) = insert i (enrolled db)"
proof -
  have wf: "table_wf db" "mirrored db" "ids_distinct db" using r by (simp_all add: registered_def)
  obtain n db1 where g: "Get_LearnNums_Valid db = (n, db1)" by fastforce
  have n0: "n \<noteq> 0" using full_enrolled [OF wf(1,3)] c g by simp
  define db2 where "db2 = snd (Add_Device i db)"
  have e: "Add_Device i db = (RT_EOK, db2)" using g n0 by (simp add: Add_Device_def db2_def)
  have d: "Global_Device db2 = (Global_Device db)\<lparr>Num := of_nat (max n (unat (Num (Global_Device db)))),
       ID := arr_set (ID (Global_Device db)) n i\<rparr>"
    using enroll_core(3) [OF wf(1) g n0, of i] g n0 by (simp add: db2_def Add_Device_def)
  have wf2: "table_wf db2" "mirrored db2" using Add_Device_keeps wf by (simp_all add: db2_def)
  note s = Get_LearnNums_Valid_slot [OF wf(1) g n0]
  have n: "1 \<le> n" "n \<le> 12" using s(1) n0 by (simp_all add: MaxSupport_def)
  have u: "id_at db2 = (id_at db)(n := i)" using id_at_set [OF _ wf(1), of n i] n by (simp add: d)
  note up = used_upd [where f = "id_at db", OF s(2) n i(1)]
  have "enrolled db2 = insert i (enrolled db)" unfolding used_slots(1) [OF wf(1)] used_slots(1) [OF wf2(1)] u up(2) ..
  moreover have "ids_distinct db2"
    using wf(3) i(2) s(2) unfolding used_slots [OF wf(1)] used_slots(2) [OF wf2(1)] u up(1)
    by (auto simp: inj_on_def used_def)
  ultimately show ?thesis using wf2 by (simp add: e registered_def)
qed

lemma Delete_Device_removes:
  assumes r: "registered db" and i: "i \<in> enrolled db"
  shows "fst (Delete_Device i db) = RT_EOK \<and> registered (snd (Delete_Device i db)) \<and>
    enrolled (snd (Delete_Device i db)) = enrolled db - {i}"
proof -
  have wf: "table_wf db" "mirrored db" "ids_distinct db" using r by (simp_all add: registered_def)
  obtain n where n: "n \<in> used (id_at db)" "id_at db n = i" using i unfolding used_slots(1) [OF wf(1)] by blast
  have i0: "i \<noteq> 0" using n by (auto simp: used_def)
  have nz: "slot_of i db \<noteq> 0" using known_enrolled [OF wf(1) i0] i by (auto simp: Flash_Get_Key_Valid_def split: if_splits)
  have h: "id_at db (slot_of i db) = i" "slot_of i db \<le> 12"
    using slot_of_hit [OF nz] slot_of_le [OF wf(1), of i] table_wfD(1) [OF wf(1)] by simp_all
  then have sl: "slot_of i db \<in> used (id_at db)" using nz i0 by (simp add: used_def)
  define db2 where "db2 = snd (Delete_Device i db)"
  have e: "Delete_Device i db = (RT_EOK, db2)" using nz by (simp add: Delete_Device_def db2_def Let_def)
  have wf2: "table_wf db2" "mirrored db2" using Delete_Device_keeps wf by (simp_all add: db2_def)
  have "ID (Global_Device db2) = arr_set (ID (Global_Device db)) (slot_of i db) 0"
    using nz by (simp add: db2_def Delete_Device_def Let_def)
  then have u: "id_at db2 = (id_at db)(slot_of i db := 0)"
    using id_at_set [OF _ wf(1), of "slot_of i db" 0] h(2) by simp
  have inj: "inj_on (id_at db) (used (id_at db))" using wf(3) used_slots(2) [OF wf(1)] by simp
  have "enrolled db2 = enrolled db - {i}" "ids_distinct db2"
    unfolding used_slots [OF wf2(1)] u used_slots(1) [OF wf(1)] using used_del [OF inj sl] h(1) by simp_all
  then show ?thesis using wf2 by (simp add: e registered_def)
qed

lemma LoadDevice2Memory_restores:
  assumes r: "registered db"
  shows "registered (LoadDevice2Memory db)" "enrolled (LoadDevice2Memory db) = enrolled db"
    "id_at (LoadDevice2Memory db) n = (if n = 0 then 0 else id_at db n)"
    "Num (Global_Device (LoadDevice2Memory db)) = Num (Global_Device db)"
    "DoorNum (Global_Device (LoadDevice2Memory db)) = DoorNum (Global_Device db)"
    "GatewayNum (Global_Device (LoadDevice2Memory db)) = GatewayNum (Global_Device db)"
proof -
  let ?l = "LoadDevice2Memory db"
  have wf: "table_wf db" "mirrored db" "ids_distinct db" using r by (simp_all add: registered_def)
  have st: "store_wf db" "\<not> stuck db" using wf(1) by (simp_all add: table_wf_def)
  note L = LoadDevice2Memory_spec [OF st]
  have m: "Flash_Get_Learn_Nums db = Num (Global_Device db)" "Flash_Get_Door_Nums db = DoorNum (Global_Device db)"
    "Flash_Get_Gateway_Nums db = GatewayNum (Global_Device db)" "ef_usable (env db)"
    "1 \<le> n \<Longrightarrow> n \<le> unat (Num (Global_Device db)) \<Longrightarrow> Flash_Get_Key_Value (of_nat n) db = id_at db n" for n
    using wf(2) by (simp_all add: mirrored_def Let_def)
  show ids: "id_at ?l n = (if n = 0 then 0 else id_at db n)" for n
    using m(5) [of n] table_wfD(7) [OF wf(1), of n] by (auto simp: L(5) m(1))
  show nums: "Num (Global_Device ?l) = Num (Global_Device db)" "DoorNum (Global_Device ?l) = DoorNum (Global_Device db)"
    "GatewayNum (Global_Device ?l) = GatewayNum (Global_Device db)"
    by (simp_all add: L m)
  have wfl: "table_wf ?l" using st by (rule LoadDevice2Memory_wf)
  have u: "used (id_at ?l) = used (id_at db)" "n \<in> used (id_at db) \<Longrightarrow> id_at ?l n = id_at db n" for n
    by (auto simp: used_def ids)
  show e: "enrolled ?l = enrolled db"
    unfolding used_slots(1) [OF wf(1)] used_slots(1) [OF wfl] using u by (auto simp: image_def)
  have "ids_distinct ?l"
    using wf(3) u unfolding used_slots(2) [OF wf(1)] used_slots(2) [OF wfl] by (simp add: inj_on_def)
  moreover have "mirrored ?l"
    using LoadDevice2Memory_ok(1) [OF st] m(4) by (simp add: table_ok_def L(7))
  ultimately show "registered ?l" using wfl by (simp add: registered_def)
qed

text \<open>
  What a pairing frame of an unknown device does to the table: \<open>Device_Learn\<close> of \<open>Radio_Decoder.c\<close> chooses by the
  range of the identifier. A sensor gets a slot of its own; a door unit or a gateway takes the slot of the one
  before it, so that the contract of a set is that of the sensors.
\<close>

definition learn_table :: "uint32 \<Rightarrow> devdb \<Rightarrow> uint8 \<times> devdb" where
  "learn_table i db =
     (if sint i < 30000000 then Add_Device i db
      else if sint i < 40000000 then Add_DoorDevice_table i db
      else if sint i < 50000000 then Add_GatewayDevice i db
      else (RT_ERROR, db))"

definition is_sensor :: "uint32 \<Rightarrow> bool" where
  "is_sensor i \<longleftrightarrow> sint i < 30000000"

lemma learn_sensor: "is_sensor i \<Longrightarrow> learn_table i = Add_Device i"
  by (rule ext) (simp add: learn_table_def is_sensor_def)

interpretation table: registry registered enrolled 12 is_sensor "\<lambda>i db. Flash_Get_Key_Valid i db = RT_EOK"
  learn_table Delete_Device LoadDevice2Memory
proof
  fix db i
  show "registered db \<Longrightarrow> i \<noteq> 0 \<Longrightarrow> (Flash_Get_Key_Valid i db = RT_EOK) = (i \<in> enrolled db)"
    by (simp add: known_enrolled registered_def)
  show "registered db \<Longrightarrow> is_sensor i \<Longrightarrow> \<not> card (enrolled db) < 12 \<Longrightarrow> learn_table i db = (RT_ERROR, db)"
    using full_enrolled [of db] Get_LearnNums_Valid_full(2) [of db]
    by (auto simp: registered_def learn_sensor Add_Device_def split: prod.split)
  show "registered db \<Longrightarrow> i \<noteq> 0 \<Longrightarrow> i \<notin> enrolled db \<Longrightarrow> Delete_Device i db = (RT_ERROR, db)"
    using known_enrolled [of db i]
    by (auto simp: registered_def Delete_Device_def Flash_Get_Key_Valid_def Let_def split: if_splits)
qed (simp_all add: learn_sensor Add_Device_enrols Delete_Device_removes LoadDevice2Memory_restores)

section \<open>Properties\<close>

text \<open>The table of a new device: empty, over a store with the default set.\<close>

definition fresh_db :: devdb where
  "fresh_db = \<lparr>Global_Device = Device_Info_zero,
     env = \<lparr>init_ok = True, ef_space = True, kv = map_of default_env_set\<rparr>, stuck = False\<rparr>"

lemma fresh_registered: "registered fresh_db" "enrolled fresh_db = {}"
  by (auto simp: registered_def fresh_db_def table_wf_def arrays_ok_def roles_ok_def store_wf_def mirrored_def Let_def
      getter_defs read_key_def ef_get_env_blob_def default_env_set_def Device_Info_zero_def ef_usable_def
      ids_distinct_def enrolled_def slots_def num16_def)


text \<open>
  C17: On a table in order whose store works, any sequence of enrolling sensors (identifiers other than 0 and below
  30000000), removing devices of any kind (identifiers other than 0) and restarting answers and changes the table exactly
  as the registry of at most 12 identifiers does: the code refines the set machine \<open>serve\<close>. A known device is not
  added again, and an unknown one is added as \<open>Device_Learn\<close> does it.
\<close>

theorem registry_refinement:
  fixes rs :: "uint32 request list"
  assumes "registered db" "list_all (request_id is_sensor) rs"
  defines "code \<equiv> run_requests (handle (\<lambda>i db. Flash_Get_Key_Valid i db = RT_EOK) learn_table Delete_Device LoadDevice2Memory)"
  shows "registered (snd (code rs db)) \<and>
    run_requests (serve 12) rs (enrolled db) = (fst (code rs db), enrolled (snd (code rs db)))"
  unfolding code_def by (rule table.run_serves [OF assms(1,2)])

theorem registry_refinement_witness:
  "fst (run_requests (handle (\<lambda>i db. Flash_Get_Key_Valid i db = RT_EOK) learn_table Delete_Device LoadDevice2Memory)
     [Enrol 20000001, Restart, Remove 20000001, Remove 20000001] fresh_db) = [RT_EOK, RT_EOK, RT_EOK, RT_ERROR]"
proof -
  have "is_sensor 20000001" unfolding is_sensor_def by code_simp
  then show ?thesis
    using registry_refinement [OF fresh_registered(1), of "[Enrol 20000001, Restart, Remove 20000001, Remove 20000001]"]
    by (simp add: fresh_registered(2))
qed


subsection \<open>The silence counters\<close>

lemma Update_All_Time_slot:
  assumes "table_wf db"
  shows "table_wf (Update_All_Time db)" "Num (Global_Device (Update_All_Time db)) = Num (Global_Device db)"
    "arr_get (ID_Time (Global_Device (Update_All_Time db))) n =
      (if n \<in> {1 .. unat (Num (Global_Device db))} then next_time (arr_get (ID_Time (Global_Device db)) n)
       else arr_get (ID_Time (Global_Device db)) n)"
proof -
  show "table_wf (Update_All_Time db)" using time_ops_keep(1) [OF assms] .
  show "Num (Global_Device (Update_All_Time db)) = Num (Global_Device db)" by (simp add: Update_All_Time_eq [OF assms])
  have "length (ID_Time (Global_Device db)) = 20" using assms by (simp add: table_wf_def arrays_ok_def)
  then show "arr_get (ID_Time (Global_Device (Update_All_Time db))) n =
      (if n \<in> {1 .. unat (Num (Global_Device db))} then next_time (arr_get (ID_Time (Global_Device db)) n)
       else arr_get (ID_Time (Global_Device db)) n)"
    unfolding Update_All_Time_eq [OF assms]
    using table_wfD(1) [OF assms] fold_arr_set [of "slots (unat (Num (Global_Device db)))" "ID_Time (Global_Device db)" next_time n]
    by simp
qed

lemma unat_next_time: "unat t \<le> 25 \<Longrightarrow> unat (next_time t) = min 25 (Suc (unat t))"
  by (auto simp: next_time_def word_less_nat_alt unat_word_ariths min_def)


text \<open>
  The hourly update counts the hours of silence of every slot in use, and stops at 25.
\<close>

theorem silence_counted:
  assumes "table_wf db" "1 \<le> n" "n \<le> unat (Num (Global_Device db))"
    "arr_get (ID_Time (Global_Device db)) n \<le> 25"
  shows "unat (arr_get (ID_Time (Global_Device ((Update_All_Time ^^ h) db))) n) =
      min 25 (unat (arr_get (ID_Time (Global_Device db)) n) + h)"
proof -
  have "table_wf ((Update_All_Time ^^ h) db) \<and> Num (Global_Device ((Update_All_Time ^^ h) db)) = Num (Global_Device db) \<and>
    unat (arr_get (ID_Time (Global_Device ((Update_All_Time ^^ h) db))) n) =
      min 25 (unat (arr_get (ID_Time (Global_Device db)) n) + h)"
  proof (induction h)
    case 0
    then show ?case using assms by (simp add: word_le_nat_alt)
  next
    case (Suc h)
    then show ?case using Update_All_Time_slot [of "(Update_All_Time ^^ h) db"] assms(2,3)
      by (simp add: unat_next_time)
  qed
  then show ?thesis by simp
qed


definition sample_table :: devdb where
  "sample_table = \<lparr>Global_Device = Device_Info_zero\<lparr>Num := 1, ID := (replicate 20 0)[1 := 20000001]\<rparr>,
     env = \<lparr>init_ok = False, ef_space = True, kv = Map.empty\<rparr>, stuck = False\<rparr>"

theorem silence_counted_witness:
  "unat (arr_get (ID_Time (Global_Device ((Update_All_Time ^^ 30) sample_table))) 1) = 25"
proof -
  have "table_wf sample_table"
    by (auto simp: sample_table_def table_wf_def arrays_ok_def roles_ok_def store_wf_def getter_defs read_key_def
        ef_get_env_blob_def Device_Info_zero_def ef_usable_def arr_get_def nth_list_update)
  then show ?thesis
    using silence_counted [of sample_table 1 30] by (simp add: sample_table_def Device_Info_zero_def)
qed

end
