(* ===== verification/ButtonDriver.thy ===== *)
theory ButtonDriver
  imports Prelude
begin

text \<open>
  The button driver \<open>src/packages/button-v1.0.1/button.c\<close> in the configuration of the firmware
  (\<open>rtconfig.h\<close>: debounce 1, long time 200, long cycle 25, double time 15, none of the optional
  trigger modes). \<open>Button_Cycle_Process\<close> returns the button and the events whose callbacks it
  calls; the callbacks do not touch the button.
\<close>

section \<open>The driver\<close>

datatype Button_Event = BUTTON_DOWM | BUTTON_UP | BUTTON_DOUBLE | BUTTON_LONG | BUTTON_LONG_FREE
  | BUTTON_CONTINUOS | BUTTON_CONTINUOS_FREE | NONE_TRIGGER

record button =
  Button_State :: Button_Event
  Button_Last_State :: Button_Event
  Button_Trigger_Level :: uint8
  Button_Last_Level :: uint8
  Button_Trigger_Event :: Button_Event
  Button_Cycle :: uint8
  Timer_Count :: uint8
  Debounce_Time :: uint8
  Long_Time :: uint8
  Long_Flag :: uint8

definition BUTTON_DEBOUNCE_TIME :: uint8 where "BUTTON_DEBOUNCE_TIME = 1"
definition BUTTON_LONG_CYCLE :: uint8 where "BUTTON_LONG_CYCLE = 25"
definition BUTTON_DOUBLE_TIME :: uint8 where "BUTTON_DOUBLE_TIME = 15"
definition BUTTON_LONG_TIME :: uint8 where "BUTTON_LONG_TIME = 200"

definition Button_Create :: "uint8 \<Rightarrow> button" where
  "Button_Create trigger_level =
     \<lparr>Button_State = NONE_TRIGGER, Button_Last_State = NONE_TRIGGER, Button_Trigger_Level = trigger_level,
      Button_Last_Level = 1, Button_Trigger_Event = NONE_TRIGGER, Button_Cycle = 0, Timer_Count = 0,
      Debounce_Time = 0, Long_Time = 0, Long_Flag = 0\<rparr>"

definition button_edge :: "uint8 \<Rightarrow> button \<Rightarrow> button" where
  "button_edge current_level b =
     (if current_level \<noteq> Button_Last_Level b then
        let b1 = b\<lparr>Debounce_Time := Debounce_Time b + 1\<rparr> in
        if Debounce_Time b1 \<ge> BUTTON_DEBOUNCE_TIME then
          b1\<lparr>Button_Last_Level := current_level AND 3, Debounce_Time := 0,
             Button_State := (if Button_State b = NONE_TRIGGER \<or> Button_State b = BUTTON_DOUBLE then BUTTON_DOWM
                              else if Button_State b = BUTTON_DOWM then BUTTON_UP else Button_State b)\<rparr>
        else b1
      else b)"

definition button_down :: "button \<Rightarrow> button \<times> Button_Event list" where
  "button_down b =
     (if Button_Last_Level b = Button_Trigger_Level b then
        let b1 = b\<lparr>Button_Trigger_Event := BUTTON_DOWM, Long_Time := Long_Time b + 1\<rparr> in
        if Long_Time b1 \<ge> BUTTON_LONG_TIME then
          let b2 = b1\<lparr>Button_Cycle := Button_Cycle b1 + 1\<rparr>;
              fire = (Button_Cycle b2 \<ge> BUTTON_LONG_CYCLE);
              b3 = (if fire then b2\<lparr>Button_Cycle := 0, Button_Trigger_Event := BUTTON_LONG, Long_Flag := 1\<rparr> else b2);
              b4 = (if Long_Time b3 = 255 then b3\<lparr>Long_Time := BUTTON_LONG_TIME\<rparr> else b3)
          in (b4, if fire then [BUTTON_LONG] else [])
        else (b1, [])
      else (b, []))"

definition button_up :: "button \<Rightarrow> button \<times> Button_Event list" where
  "button_up b =
     (if Long_Flag b \<noteq> 0 then
        (b\<lparr>Long_Flag := 0, Long_Time := 0, Button_State := NONE_TRIGGER, Button_Last_State := BUTTON_LONG\<rparr>,
         [BUTTON_LONG_FREE])
      else if Button_Trigger_Event b = BUTTON_DOWM then
        if Timer_Count b \<le> BUTTON_DOUBLE_TIME \<and> Button_Last_State b = BUTTON_DOUBLE then
          (b\<lparr>Button_Trigger_Event := BUTTON_DOUBLE, Button_State := NONE_TRIGGER, Button_Last_State := NONE_TRIGGER\<rparr>,
           [BUTTON_DOUBLE])
        else
          (b\<lparr>Timer_Count := 0, Long_Time := 0, Button_State := BUTTON_DOUBLE, Button_Last_State := BUTTON_DOUBLE\<rparr>,
           [BUTTON_DOWM])
      else (b, []))"

definition button_double :: "button \<Rightarrow> button \<times> Button_Event list" where
  "button_double b =
     (let b1 = b\<lparr>Timer_Count := Timer_Count b + 1\<rparr> in
      (if Timer_Count b1 \<ge> BUTTON_DOUBLE_TIME
       then b1\<lparr>Button_State := NONE_TRIGGER, Button_Last_State := NONE_TRIGGER\<rparr> else b1, []))"

definition Button_Cycle_Process :: "uint8 \<Rightarrow> button \<Rightarrow> button \<times> Button_Event list" where
  "Button_Cycle_Process current_level b0 =
     (let b = button_edge current_level b0 in
      case Button_State b of
        BUTTON_DOWM \<Rightarrow> button_down b
      | BUTTON_UP \<Rightarrow> button_up b
      | BUTTON_DOUBLE \<Rightarrow> button_double b
      | _ \<Rightarrow> (b, []))"

text \<open>The driver on a sequence of levels, one per call; the events in order.\<close>

fun button_run :: "uint8 list \<Rightarrow> button \<Rightarrow> button \<times> Button_Event list" where
  "button_run [] b = (b, [])"
| "button_run (l # ls) b =
     (let (b1, ev) = Button_Cycle_Process l b; (b2, evs) = button_run ls b1 in (b2, ev @ evs))"

lemma button_run_append:
  "button_run (ls @ ms) b = (let (b1, e1) = button_run ls b; (b2, e2) = button_run ms b1 in (b2, e1 @ e2))"
  by (induction ls arbitrary: b) (auto simp: Let_def split: prod.splits)

section \<open>The states a button can be in\<close>

text \<open>
  The invariant of a button that is low while it is pressed. Neither the cycle counter nor, after a double
  press, the time counter is cleared on release, so at rest both may hold any value below their limits.
\<close>

definition button_ok :: "button \<Rightarrow> bool" where
  "button_ok b \<longleftrightarrow> Button_Trigger_Level b = 0 \<and> Debounce_Time b = 0 \<and> Button_Cycle b < 25 \<and> Long_Time b < 255 \<and>
     (case Button_State b of
        NONE_TRIGGER \<Rightarrow> Button_Last_Level b = 1 \<and> Long_Flag b = 0 \<and> Button_Last_State b \<noteq> BUTTON_DOUBLE
      | BUTTON_DOUBLE \<Rightarrow> Button_Last_Level b = 1 \<and> Long_Flag b = 0 \<and> Button_Last_State b = BUTTON_DOUBLE \<and> Timer_Count b < 15
      | BUTTON_DOWM \<Rightarrow> Button_Last_Level b = 0 \<and> (Long_Flag b = 0 \<longrightarrow> Button_Trigger_Event b = BUTTON_DOWM) \<and>
          (Button_Last_State b = BUTTON_DOUBLE \<longrightarrow> Timer_Count b < 15)
      | _ \<Rightarrow> False)"

lemmas button_consts = BUTTON_DEBOUNCE_TIME_def BUTTON_LONG_CYCLE_def BUTTON_DOUBLE_TIME_def BUTTON_LONG_TIME_def

lemma unat8_Suc: "unat (w :: uint8) < 255 \<Longrightarrow> unat (w + 1) = Suc (unat w)"
  by (simp add: unat_word_ariths)

lemma uint8_Suc_less: "(w :: uint8) < n \<Longrightarrow> w + 1 < n \<or> w + 1 = n"
proof -
  assume l: "w < n"
  have "unat n < 2 ^ LENGTH(8)" by (rule unsigned_less)
  then have "unat (w + 1) = Suc (unat w)" using l by (intro unat8_Suc) (simp add: word_less_nat_alt)
  then show ?thesis using l by (auto simp: word_less_nat_alt word_unat_eq_iff)
qed

lemma button_ok_create: "button_ok (Button_Create 0)"
  by (simp add: button_ok_def Button_Create_def)

lemma button_ok_down:
  assumes "button_ok b"
  defines "d \<equiv> b\<lparr>Button_Last_Level := 0, Debounce_Time := 0, Button_State := BUTTON_DOWM\<rparr>"
  shows "button_ok (fst (button_down d))"
proof -
  have o: "Button_Trigger_Level b = 0" "Button_Cycle b < 25" "Long_Time b < 255"
    "Button_Last_State b = BUTTON_DOUBLE \<Longrightarrow> Timer_Count b < 15"
    using assms(1) by (auto simp: button_ok_def split: Button_Event.splits)
  have l: "Long_Time b + 1 \<noteq> 255 \<Longrightarrow> Long_Time b + 1 < 255" using uint8_Suc_less [OF o(3)] by blast
  have l': "\<not> 200 \<le> Long_Time b + 1 \<Longrightarrow> Long_Time b + 1 < 255" using l by (cases "Long_Time b + 1 = 255") simp_all
  show ?thesis
    unfolding button_down_def d_def Let_def button_consts
    using o l l' by (simp add: button_ok_def not_le)
qed

lemma button_ok_up:
  assumes "button_ok b" "Button_State b = BUTTON_DOWM"
  shows "button_ok (fst (button_up (b\<lparr>Button_Last_Level := 1, Debounce_Time := 0, Button_State := BUTTON_UP\<rparr>)))"
  using assms by (simp add: button_ok_def button_up_def button_consts)

lemma button_ok_double:
  assumes "button_ok b" "Button_State b = BUTTON_DOUBLE"
  shows "button_ok (fst (button_double b))"
  using assms by (simp add: button_ok_def button_double_def button_consts Let_def not_le)

lemma button_ok_process:
  assumes "button_ok b" "l = 0 \<or> l = 1"
  shows "button_ok (fst (Button_Cycle_Process l b))"
proof -
  let ?e = "\<lambda>st. b\<lparr>Button_Last_Level := l, Debounce_Time := 0, Button_State := st\<rparr>"
  have o: "Debounce_Time b = 0" "Button_State b \<in> {NONE_TRIGGER, BUTTON_DOUBLE, BUTTON_DOWM}"
    "Button_Last_Level b = (if Button_State b = BUTTON_DOWM then 0 else 1)"
    using assms(1) by (auto simp: button_ok_def split: Button_Event.splits)
  have a: "l AND 3 = l" using assms(2) by auto
  show ?thesis
  proof (cases "l = Button_Last_Level b")
    case True
    then have p: "button_edge l b = b" by (simp add: button_edge_def)
    have d: "b\<lparr>Button_Last_Level := 0, Debounce_Time := 0, Button_State := BUTTON_DOWM\<rparr> = b" if "Button_State b = BUTTON_DOWM"
      using o that by (cases b) simp
    show ?thesis
      using assms(1) o(2) d button_ok_down [OF assms(1)] button_ok_double [OF assms(1)]
      by (auto simp: Button_Cycle_Process_def p)
  next
    case False
    then have "button_edge l b = ?e (if Button_State b = BUTTON_DOWM then BUTTON_UP else BUTTON_DOWM)"
      using o by (auto simp: button_edge_def button_consts Let_def a)
    then show ?thesis
      using assms(2) False o(2,3) button_ok_down [OF assms(1)] button_ok_up [OF assms(1)]
      by (auto simp: Button_Cycle_Process_def split: if_splits)
  qed
qed

lemma button_ok_run:
  assumes "button_ok b" "set ls \<subseteq> {0, 1}"
  shows "button_ok (fst (button_run ls b))"
  using assms
proof (induction ls arbitrary: b)
  case (Cons l ls)
  then have "button_ok (fst (Button_Cycle_Process l b))" by (intro button_ok_process) auto
  with Cons.IH [of "fst (Button_Cycle_Process l b)"] Cons.prems(2) show ?case by (auto split: prod.splits)
qed simp

section \<open>Short and long presses\<close>

text \<open>
  Of \<open>n\<close> calls with the key down, \<open>long_calls l n\<close> find the time counter, which stood at \<open>l\<close> when the key
  went down, at the limit of a long press; every 25th of them, counted on from the cycle counter, is an event.
\<close>

definition long_calls :: "nat \<Rightarrow> nat \<Rightarrow> nat" where
  "long_calls l n = min n (l + n - 199)"

definition long_events :: "button \<Rightarrow> nat \<Rightarrow> nat" where
  "long_events b n = (unat (Button_Cycle b) + long_calls (unat (Long_Time b)) n) div 25"

lemma long_calls_Suc:
  "long_calls l (Suc n) = (if 200 \<le> l + Suc n then Suc (long_calls l n) else long_calls l n)" "long_calls l 0 = 0"
  by (auto simp: long_calls_def)

text \<open>The button after \<open>n\<close> calls with the key down, which went down with the counters at \<open>c\<close> and \<open>l\<close>.\<close>

definition held :: "nat \<Rightarrow> nat \<Rightarrow> bool \<Rightarrow> nat \<Rightarrow> button \<Rightarrow> bool" where
  "held c l twice n b \<longleftrightarrow> Button_State b = BUTTON_DOWM \<and> Button_Last_Level b = 0 \<and> Button_Trigger_Level b = 0 \<and>
     Debounce_Time b = 0 \<and> (Button_Last_State b = BUTTON_DOUBLE \<longleftrightarrow> twice) \<and> (twice \<longrightarrow> Timer_Count b < 15) \<and>
     (l + n < 200 \<longrightarrow> unat (Long_Time b) = l + n) \<and> (n = 0 \<longrightarrow> unat (Long_Time b) = l) \<and>
     (200 \<le> l + n \<longrightarrow> 200 \<le> unat (Long_Time b) \<and> unat (Long_Time b) < 255) \<and>
     unat (Button_Cycle b) = (c + long_calls l n) mod 25 \<and> (Long_Flag b \<noteq> 0 \<longleftrightarrow> 25 \<le> c + long_calls l n) \<and>
     (n \<noteq> 0 \<and> c + long_calls l n < 25 \<longrightarrow> Button_Trigger_Event b = BUTTON_DOWM)"

lemma press_next:
  assumes "held c l twice n b" "c < 25"
  shows "\<exists>b1. button_down b = (b1, if 200 \<le> l + Suc n \<and> (c + long_calls l n) mod 25 = 24 then [BUTTON_LONG] else [])
    \<and> held c l twice (Suc n) b1"
proof -
  have lt: "unat (Long_Time b) < 255" using assms by (cases "l + n < 200") (auto simp: held_def)
  have lt1: "unat (Long_Time b + 1) = Suc (unat (Long_Time b))" by (rule unat8_Suc [OF lt])
  have c25: "unat (Button_Cycle b) < 25" using assms by (simp add: held_def)
  have c1: "unat (Button_Cycle b + 1) = Suc (unat (Button_Cycle b))" using c25 by (intro unat8_Suc) simp
  show ?thesis
  proof (cases "200 \<le> l + Suc n")
    case False
    then have "\<not> BUTTON_LONG_TIME \<le> Long_Time b + 1"
      using assms lt1 by (simp add: held_def word_le_nat_alt button_consts)
    moreover have "long_calls l n = 0" using False by (simp add: long_calls_def)
    ultimately show ?thesis using False assms lt1
      by (simp add: button_down_def held_def Let_def long_calls_Suc)
  next
    case True
    then have long: "BUTTON_LONG_TIME \<le> Long_Time b + 1"
      using assms lt1 by (cases "l + n < 200") (auto simp: held_def word_le_nat_alt button_consts)
    define k where "k = c + long_calls l n"
    have fire: "BUTTON_LONG_CYCLE \<le> Button_Cycle b + 1 \<longleftrightarrow> k mod 25 = 24"
      using assms c1 c25 by (auto simp: word_le_nat_alt button_consts held_def k_def)
    have next_c: "Suc k mod 25 = (if k mod 25 = 24 then 0 else Suc (k mod 25))"
      using mod_Suc [of k 25] by simp
    have flag: "25 \<le> Suc k \<longleftrightarrow> 25 \<le> k \<or> k mod 25 = 24" by presburger
    have l255: "Long_Time b + 1 = 255 \<longleftrightarrow> unat (Long_Time b) = 254"
      using lt1 by (auto simp: word_unat_eq_iff)
    have ge: "200 \<le> Suc (unat (Long_Time b))" using long lt1 by (simp add: word_le_nat_alt button_consts)
    have s: "c + long_calls l (Suc n) = Suc k" using True by (simp add: long_calls_Suc k_def)
    have b: "Button_Last_Level b = Button_Trigger_Level b" "Button_Trigger_Level b = 0"
      using assms(1) by (simp_all add: held_def)
    define lt' where "lt' = (if Long_Time b + 1 = 255 then 200 else Long_Time b + 1)"
    have lt': "200 \<le> unat lt'" "unat lt' < 255"
      using l255 ge lt lt1 by (auto simp: lt'_def)
    show ?thesis
    proof (cases "k mod 25 = 24")
      case f: True
      have d: "button_down b = (b\<lparr>Button_Trigger_Event := BUTTON_LONG, Long_Time := lt', Button_Cycle := 0, Long_Flag := 1\<rparr>, [BUTTON_LONG])"
        using b long f fire by (simp add: button_down_def Let_def lt'_def BUTTON_LONG_TIME_def)
      have "25 \<le> Suc k" using flag f by blast
      then show ?thesis
        unfolding d using True f next_c lt' assms(1) by (simp add: held_def s k_def [symmetric])
    next
      case f: False
      have d: "button_down b = (b\<lparr>Button_Trigger_Event := BUTTON_DOWM, Long_Time := lt', Button_Cycle := Button_Cycle b + 1\<rparr>, [])"
        using b long f fire by (simp add: button_down_def Let_def lt'_def BUTTON_LONG_TIME_def)
      have "25 \<le> Suc k \<longleftrightarrow> 25 \<le> k" using flag f by blast
      then show ?thesis
        unfolding d using True f next_c lt' c1 assms(1) by (simp add: held_def s k_def [symmetric])
    qed
  qed
qed

lemma held_process:
  assumes "held c l twice n b"
  shows "Button_Cycle_Process 0 b = button_down b"
  using assms by (simp add: Button_Cycle_Process_def button_edge_def held_def)

lemma div_step: "replicate ((k :: nat) div 25) x @ (if k mod 25 = 24 then [x] else []) = replicate (Suc k div 25) x"
proof -
  have "Suc k div 25 = (if k mod 25 = 24 then Suc (k div 25) else k div 25)" by (simp add: div_Suc mod_Suc)
  then show ?thesis by (simp add: replicate_append_same)
qed

lemma hold:
  assumes "held c l twice 0 b" "c < 25"
  shows "\<exists>b1. button_run (replicate n 0) b = (b1, replicate ((c + long_calls l n) div 25) BUTTON_LONG) \<and> held c l twice n b1"
proof (induction n)
  case 0
  then show ?case using assms by (simp add: long_calls_Suc(2))
next
  case (Suc n)
  then obtain b1 where b1: "button_run (replicate n 0) b = (b1, replicate ((c + long_calls l n) div 25) BUTTON_LONG)"
    "held c l twice n b1" by blast
  obtain b2 where b2: "Button_Cycle_Process 0 b1 =
      (b2, if 200 \<le> l + Suc n \<and> (c + long_calls l n) mod 25 = 24 then [BUTTON_LONG] else [])" "held c l twice (Suc n) b2"
    using press_next [OF b1(2) assms(2)] held_process [OF b1(2)] by auto
  have "replicate ((c + long_calls l n) div 25) BUTTON_LONG @
      (if 200 \<le> l + Suc n \<and> (c + long_calls l n) mod 25 = 24 then [BUTTON_LONG] else []) =
    replicate ((c + long_calls l (Suc n)) div 25) BUTTON_LONG"
    using div_step [of "c + long_calls l n" BUTTON_LONG]
    by (cases "200 \<le> l + Suc n") (simp_all only: long_calls_Suc if_True if_False add_Suc_right simp_thms append_Nil2)
  moreover have "replicate (Suc n) (0 :: uint8) = replicate n 0 @ [0]" by (simp add: replicate_append_same)
  ultimately show ?case using b1(1) b2 by (simp add: button_run_append del: replicate.simps(2))
qed

lemma release:
  assumes "held c l twice n b" "n \<noteq> 0"
  shows "snd (Button_Cycle_Process 1 b) = (if 25 \<le> c + long_calls l n then [BUTTON_LONG_FREE]
    else if twice then [BUTTON_DOUBLE] else [BUTTON_DOWM])"
  using assms
  by (auto simp: Button_Cycle_Process_def button_edge_def button_up_def held_def button_consts Let_def)

text \<open>
  C34: Whatever happened to a button, whose level is low (0) while it is pressed and else high (1), since it was created, as
  long as it is up now: when it is held down for \<open>n\<close> calls
  and then released, it gives a long-press event for every 25th call at the limit of a long press, and the event
  of the end of a long press; if there was none of them, a double-press event when the window of a short
  press before it is still open, and otherwise a press event. The calls are counted on from the values that
  the earlier presses have left in the two counters; for a new button the first long-press event comes with
  the 224th call.
\<close>

theorem key_gestures:
  assumes "set past \<subseteq> {0, 1}" "n \<noteq> 0"
  defines "b \<equiv> fst (button_run past (Button_Create 0))"
  assumes "Button_Last_Level b = 1"
  shows "snd (button_run (replicate n 0 @ [1]) b) =
      (if long_events b n \<noteq> 0 then replicate (long_events b n) BUTTON_LONG @ [BUTTON_LONG_FREE]
       else if Button_State b = BUTTON_DOUBLE then [BUTTON_DOUBLE] else [BUTTON_DOWM]) \<and>
    (past = [] \<longrightarrow> long_events b n = (n - 199) div 25)"
proof -
  have ok: "button_ok b" unfolding b_def by (rule button_ok_run [OF button_ok_create assms(1)])
  define c l where "c = unat (Button_Cycle b)" and "l = unat (Long_Time b)"
  define b0 where "b0 = b\<lparr>Button_Last_Level := 0, Debounce_Time := 0, Button_State := BUTTON_DOWM\<rparr>"
  have st: "Button_State b = NONE_TRIGGER \<or> Button_State b = BUTTON_DOUBLE"
    using ok assms(4) by (auto simp: button_ok_def split: Button_Event.splits)
  have c: "c < 25" "l < 255" using ok by (simp_all add: c_def l_def button_ok_def word_less_nat_alt)
  have h: "held c l (Button_State b = BUTTON_DOUBLE) 0 b0"
    using ok st c by (auto simp: button_ok_def held_def b0_def c_def l_def long_calls_Suc(2))
  have e: "long_events b n = (c + long_calls l n) div 25" by (simp add: long_events_def c_def l_def)
  obtain m where m: "n = Suc m" using assms(2) by (cases n) auto
  have "Button_Cycle_Process 0 b = Button_Cycle_Process 0 b0"
    using ok st by (auto simp: Button_Cycle_Process_def button_edge_def b0_def button_consts button_ok_def Let_def)
  then have first: "button_run (replicate n 0) b = button_run (replicate n 0) b0" by (simp add: m)
  obtain b1 where b1: "button_run (replicate n 0) b = (b1, replicate (long_events b n) BUTTON_LONG)"
    "held c l (Button_State b = BUTTON_DOUBLE) n b1"
    using hold [OF h c(1), of n] unfolding first e by blast
  obtain b2 ev where b2: "Button_Cycle_Process 1 b1 = (b2, ev)" by fastforce
  have "ev = (if 25 \<le> c + long_calls l n then [BUTTON_LONG_FREE]
      else if Button_State b = BUTTON_DOUBLE then [BUTTON_DOUBLE] else [BUTTON_DOWM])"
    using release [OF b1(2) assms(2)] b2 by simp
  moreover have "25 \<le> c + long_calls l n \<longleftrightarrow> long_events b n \<noteq> 0" unfolding e by (simp add: div_eq_0_iff not_less)
  moreover have "long_events b n = (n - 199) div 25" if "past = []"
    using that by (simp add: b_def long_events_def Button_Create_def long_calls_def)
  ultimately show ?thesis unfolding button_run_append b1(1) using b2 by (simp add: Let_def)
qed

theorem key_gestures_witness:
  "snd (button_run (replicate 250 0 @ [1]) (fst (button_run [] (Button_Create 0)))) =
     [BUTTON_LONG, BUTTON_LONG, BUTTON_LONG_FREE]"
  using key_gestures [of "[]" 250] by (simp add: Button_Create_def numeral_2_eq_2)

end
