(* ===== verification/Firmware.thy ===== *)
theory Firmware
  imports Led Registry ButtonDriver
begin

text \<open>
  The state of the firmware: one record per source file with its global variables, and the state of
  the services below (LEDs and board, device table). A handler of the firmware is a transformer of
  the record \<open>sys\<close>.
\<close>

section \<open>Types of the source\<close>

datatype Device_Status = Close | Open | SlaverLowPower | SlaverUltraLowPower | SlaverWaterAlarmActive
  | MasterLostPeak | MasterWaterAlarmActive | MasterWaterAlarmDeActive | NTCWarning | MotoFail
  | Learn | Offline

text \<open>The nine event structures of \<open>Status.c\<close> and the callbacks they can hold.\<close>

datatype warning = SlaverLowPowerEvent | SlaverUltraLowPowerEvent | SlaverWaterAlarmActiveEvent
  | MasterLostPeakEvent | MasterWaterAlarmActiveEvent | OfflineEvent | NTCWarningEvent
  | Moto1FailEvent | Moto2FailEvent

datatype warning_callback = SlaverLowBatteryWarning_cb | SlaverUltraLowBatteryWarning_cb
  | SlaverWaterAlarmWarning_cb | MasterLostPeakWarning_cb | MasterWaterAlarmWarning_cb
  | OfflineWarning_cb | NTCWarningEvent_cb | Moto1Fail_cb | Moto2Fail_cb

record WariningEvent =
  warning_id :: uint8
  last_id :: uint8
  priority :: uint8
  callback :: "warning_callback option"

record Radio_Normal_Format =
  Ack :: uint8
  Type :: uint8
  Counter :: uint8
  Command :: uint8
  rn_Rssi :: uint8
  rn_Bat :: uint8
  Data :: uint8
  Taget_ID :: uint32
  Payload_ID :: uint32

definition Radio_Normal_zero :: Radio_Normal_Format where
  "Radio_Normal_zero = \<lparr>Ack = 0, Type = 0, Counter = 0, Command = 0, rn_Rssi = 0, rn_Bat = 0,
     Data = 0, Taget_ID = 0, Payload_ID = 0\<rparr>"

section \<open>Global variables\<close>

record status_st =
  Now_Status :: Device_Status
  NowStatusEvent :: WariningEvent
  events :: "warning \<Rightarrow> WariningEvent"

record moto_st =
  Turn1_Flag :: uint8
  Turn2_Flag :: uint8
  Moto1_Fail_FLag :: uint8
  Moto2_Fail_FLag :: uint8
  Valve_Alarm_Flag :: uint8

record work_st =
  WarningNowStatus :: uint8
  WarningPastStatus :: uint8
  WarningStatus :: uint8
  Water_Alarm_Pause :: uint8
  Peak_ON_Level :: uint8
  Peak_Loss_Level :: uint8

record key_st =
  K0_Status :: uint8
  K0_Long_Status :: uint8
  K1_Status :: uint8
  K1_Long_Status :: uint8
  K0_K1_Status :: uint8
  ValveStatus :: uint8

record device_st =
  K0_Long_Sem_Counter :: uint16
  K1_Long_Sem_Counter :: uint16
  K0_OnceFlag :: uint8
  K1_OnceFlag :: uint8
  K0_K1_OnceFlag :: uint8
  Key_Pause_Flag :: uint8
  ANT_SW_Status :: uint8
  ANT_SW_Status_Temp :: uint8
  Key0 :: button
  Key1 :: button

record gateway_st =
  Heart_Status :: uint8
  Heart_Recv_Flag :: uint8
  Heart_Check_Count :: uint8
  Gateway_Sync_Num :: uint8
  Gateway_ID :: uint32

record decoder_st =
  Learn_Flag :: uint8
  Last_Close_Flag :: uint8
  Gw_Flag :: uint8

text \<open>
  The radio side: the send queue (\<open>None\<close> before \<open>rt_mq_create\<close>), the two completions as
  their flags, where the send thread waits (\<open>tx_wait\<close>: the message and the number of the attempt), and what the driver was asked to do (transmit power register, frames handed to
  \<open>RF_Send\<close>).
\<close>

record encoder_st =
  rf_en_mq :: "Radio_Normal_Format list option"
  rf_ack_sem :: bool
  rf_txdone_sem :: bool
  RadioID :: uint32
  radio_send_buf :: string
  axradio_power_now :: uint8
  TXPWRCOEFFB :: uint16
  tx_wait :: "(Radio_Normal_Format \<times> nat) option"
  sent :: "string list"

record rtc_st =
  RTC_Counter :: uint8
  RTC_Hours :: uint32

record adc_st =
  NTC_State :: uint8
  adc_value :: "uint32 list"
  voltage_temp :: uint32

record sys =
  ui :: leds
  dev :: devdb
  sta :: status_st
  mo :: moto_st
  wk :: work_st
  ky :: key_st
  btn :: device_st
  gw :: gateway_st
  dec :: decoder_st
  enc :: encoder_st
  rtc :: rtc_st
  adc :: adc_st
  Factory_Flag :: uint8

section \<open>Access\<close>

abbreviation "board_of s \<equiv> bd (ui s)"
abbreviation "table_of s \<equiv> Global_Device (dev s)"
abbreviation on_board :: "(board \<Rightarrow> board) \<Rightarrow> sys \<Rightarrow> sys" where
  "on_board f \<equiv> ui_update (bd_update f)"
abbreviation on_table :: "(Device_Info \<Rightarrow> Device_Info) \<Rightarrow> sys \<Rightarrow> sys" where
  "on_table f \<equiv> dev_update (gdev_upd f)"
abbreviation set_Now_Status :: "Device_Status \<Rightarrow> sys \<Rightarrow> sys" where
  "set_Now_Status v \<equiv> sta_update (Now_Status_update (\<lambda>_. v))"
abbreviation set_ValveStatus :: "uint8 \<Rightarrow> sys \<Rightarrow> sys" where
  "set_ValveStatus v \<equiv> ky_update (ValveStatus_update (\<lambda>_. v))"
abbreviation set_LastFlag :: "uint8 \<Rightarrow> sys \<Rightarrow> sys" where
  "set_LastFlag v \<equiv> on_table (LastFlag_update (\<lambda>_. v))"

text \<open>A table operation whose return value is used (\<open>use_dev\<close>) or ignored (\<open>do_dev\<close>).\<close>

definition do_dev :: "(devdb \<Rightarrow> 'r \<times> devdb) \<Rightarrow> sys \<Rightarrow> sys" where
  "do_dev f = dev_update (\<lambda>d. snd (f d))"

definition use_dev :: "(devdb \<Rightarrow> 'r \<times> devdb) \<Rightarrow> ('r \<Rightarrow> sys \<Rightarrow> sys) \<Rightarrow> sys \<Rightarrow> sys" where
  "use_dev f g s = g (fst (f (dev s))) (do_dev f s)"

end
