(* ===== verification/RadioQueue.thy ===== *)
theory RadioQueue
  imports Firmware
begin

text \<open>
  The producers of the radio send queue: the \<open>...Enqueue\<close> functions of
  \<open>src/radio/Radio_Encoder.c\<close>, the uplink functions of \<open>src/applications/gateway.c\<close> that call
  them, and the two power switches of \<open>src/radio/Radio_433.c\<close>.
\<close>

section \<open>Operations\<close>

definition RF_MQ_MSGS :: nat where "RF_MQ_MSGS = 10"

definition mq_post ::
  "(Radio_Normal_Format \<Rightarrow> Radio_Normal_Format list \<Rightarrow> int \<times> Radio_Normal_Format list) \<Rightarrow>
   Radio_Normal_Format \<Rightarrow> sys \<Rightarrow> sys" where
  "mq_post post m s =
     (case rf_en_mq (enc s) of
        None \<Rightarrow> on_board assert_fail s
      | Some q \<Rightarrow> enc_update (rf_en_mq_update (\<lambda>_. Some (snd (post m q)))) s)"

definition RadioEnqueue :: "uint32 \<Rightarrow> uint8 \<Rightarrow> uint8 \<Rightarrow> uint8 \<Rightarrow> sys \<Rightarrow> sys" where
  "RadioEnqueue target counter cmd data =
     mq_post (rt_mq_urgent RF_MQ_MSGS)
       (Radio_Normal_zero\<lparr>Type := 0, Ack := 0, Taget_ID := target, Counter := counter,
          Command := cmd, Data := data\<rparr>)"

definition GatewaySyncEnqueue :: "uint8 \<Rightarrow> uint8 \<Rightarrow> uint32 \<Rightarrow> uint8 \<Rightarrow> uint8 \<Rightarrow> sys \<Rightarrow> sys" where
  "GatewaySyncEnqueue ack cmd device_id rssi bat =
     cond (\<lambda>s. Gateway_ID (gw s) \<noteq> 0)
       (mq_post (rt_mq_send RF_MQ_MSGS)
          (Radio_Normal_zero\<lparr>Type := 1, Ack := ack, Command := cmd, Payload_ID := device_id,
             rn_Rssi := rssi, Data := bat\<rparr>))
       id"

definition GatewayWarningEnqueue :: "uint8 \<Rightarrow> uint32 \<Rightarrow> uint8 \<Rightarrow> uint8 \<Rightarrow> uint8 \<Rightarrow> sys \<Rightarrow> sys" where
  "GatewayWarningEnqueue ack device_id rssi warn_id v =
     cond (\<lambda>s. Gateway_ID (gw s) \<noteq> 0)
       (mq_post (rt_mq_send RF_MQ_MSGS)
          (Radio_Normal_zero\<lparr>Type := 2, Ack := ack, Payload_ID := device_id, rn_Rssi := rssi,
             Command := warn_id, Data := v\<rparr>))
       id"

definition GatewayControlEnqueue :: "uint8 \<Rightarrow> uint32 \<Rightarrow> uint8 \<Rightarrow> uint8 \<Rightarrow> uint8 \<Rightarrow> sys \<Rightarrow> sys" where
  "GatewayControlEnqueue ack device_id rssi control v =
     cond (\<lambda>s. Gateway_ID (gw s) \<noteq> 0)
       (mq_post (rt_mq_send RF_MQ_MSGS)
          (Radio_Normal_zero\<lparr>Type := 3, Ack := ack, Payload_ID := device_id, rn_Rssi := rssi,
             Command := control, Data := v\<rparr>))
       id"

definition WarUpload_GW :: "uint8 \<Rightarrow> uint32 \<Rightarrow> uint8 \<Rightarrow> uint8 \<Rightarrow> sys \<Rightarrow> sys" where
  "WarUpload_GW ack device_id warn_id v =
     cond (\<lambda>s. GetGatewayID (dev s) \<noteq> 0)
       (reading (\<lambda>s. Flash_GetRssi device_id (dev s)) (\<lambda>r. GatewayWarningEnqueue ack device_id r warn_id v))
       id"

definition ControlUpload_GW :: "uint8 \<Rightarrow> uint32 \<Rightarrow> uint8 \<Rightarrow> uint8 \<Rightarrow> sys \<Rightarrow> sys" where
  "ControlUpload_GW ack device_id control_id v =
     cond (\<lambda>s. GetGatewayID (dev s) \<noteq> 0)
       (reading (\<lambda>s. Flash_GetRssi device_id (dev s)) (\<lambda>r. GatewayControlEnqueue ack device_id r control_id v))
       id"

definition Replace_Door :: "uint32 \<Rightarrow> sys \<Rightarrow> sys" where
  "Replace_Door old =
     reading (\<lambda>s. Flash_GetRssi old (dev s)) (\<lambda>r. GatewayWarningEnqueue 1 old r 4 0)"

definition Gateway_RemoteDelete :: "sys \<Rightarrow> sys" where
  "Gateway_RemoteDelete = GatewaySyncEnqueue 1 4 0 0 0"

definition ChangeMaxPower :: "sys \<Rightarrow> sys" where
  "ChangeMaxPower = cond (\<lambda>s. axradio_power_now (enc s) = 0)
     (enc_update (block [axradio_power_now_update (\<lambda>_. 1), TXPWRCOEFFB_update (\<lambda>_. 0x0C00)])) id"

definition BackNormalPower :: "sys \<Rightarrow> sys" where
  "BackNormalPower = cond (\<lambda>s. axradio_power_now (enc s) \<noteq> 0)
     (enc_update (block [axradio_power_now_update (\<lambda>_. 0), TXPWRCOEFFB_update (\<lambda>_. 0x0700)])) id"

section \<open>What they touch\<close>

text \<open>
  The queue exists and has at most \<open>RF_MQ_MSGS\<close> messages; a send on such a queue changes nothing
  but the queue.
\<close>

definition queue_ok :: "sys \<Rightarrow> bool" where
  "queue_ok s = (case rf_en_mq (enc s) of None \<Rightarrow> False | Some q \<Rightarrow> length q \<le> RF_MQ_MSGS)"

text \<open>\<open>radio_only f\<close>: on a state with a queue, \<open>f\<close> changes the radio side only and keeps the bound.\<close>

definition radio_only :: "(sys \<Rightarrow> sys) \<Rightarrow> bool" where
  "radio_only f \<longleftrightarrow> (\<forall>s. queue_ok s \<longrightarrow>
     (\<exists>e. f s = s\<lparr>enc := e\<rparr> \<and> queue_ok (f s) \<and> RadioID e = RadioID (enc s)))"

lemma radio_onlyE:
  assumes "radio_only f" "queue_ok s"
  obtains e where "f s = s\<lparr>enc := e\<rparr>" "queue_ok (s\<lparr>enc := e\<rparr>)" "RadioID e = RadioID (enc s)"
  using assms unfolding radio_only_def by metis

named_theorems radio_intros

lemma radio_only_id [radio_intros]: "radio_only id"
proof -
  have "\<exists>e. s = s\<lparr>enc := e\<rparr> \<and> RadioID e = RadioID (enc s)" for s by (rule exI [of _ "enc s"]) simp
  then show ?thesis unfolding radio_only_def id_apply by blast
qed

lemma radio_only_block [radio_intros]:
  assumes "radio_only f" "radio_only (block fs)"
  shows "radio_only (block (f # fs))"
  unfolding radio_only_def
proof (intro allI impI)
  fix s assume "queue_ok s"
  then obtain e where 1: "f s = s\<lparr>enc := e\<rparr>" "queue_ok (s\<lparr>enc := e\<rparr>)" "RadioID e = RadioID (enc s)"
    using radio_onlyE [OF assms(1)] by blast
  obtain e' where "block fs (s\<lparr>enc := e\<rparr>) = s\<lparr>enc := e, enc := e'\<rparr>" "queue_ok (s\<lparr>enc := e, enc := e'\<rparr>)"
    "RadioID e' = RadioID (enc (s\<lparr>enc := e\<rparr>))"
    using radio_onlyE [OF assms(2) 1(2)] by blast
  with 1 show "\<exists>e. (block (f # fs)) s = s\<lparr>enc := e\<rparr> \<and> queue_ok ((block (f # fs)) s) \<and> RadioID e = RadioID (enc s)"
    by (intro exI [of _ e']) simp
qed

lemma radio_only_nil [radio_intros]: "radio_only (block [])"
  using radio_only_id by (simp add: radio_only_def)

lemma radio_only_cond [radio_intros]: "radio_only f \<Longrightarrow> radio_only g \<Longrightarrow> radio_only (cond p f g)"
  by (simp add: radio_only_def cond_def)

lemma radio_only_reading [radio_intros]: "(\<And>x. radio_only (f x)) \<Longrightarrow> radio_only (reading g f)"
  by (simp add: radio_only_def)

lemma radio_only_enc_update:
  assumes "\<And>s. queue_ok s \<Longrightarrow> f s = enc_update (g s) s" "\<And>s. queue_ok s \<Longrightarrow> queue_ok (f s)"
    "\<And>s e. RadioID (g s e) = RadioID e"
  shows "radio_only f"
  unfolding radio_only_def
proof (intro allI impI)
  fix s assume "queue_ok s"
  with assms show "\<exists>e. f s = s\<lparr>enc := e\<rparr> \<and> queue_ok (f s) \<and> RadioID e = RadioID (enc s)"
    by (intro exI [of _ "g s (enc s)"]) simp
qed

lemma radio_only_mq [radio_intros]: "radio_only (mq_post (rt_mq_send RF_MQ_MSGS) m)"
  "radio_only (mq_post (rt_mq_urgent RF_MQ_MSGS) m)"
  by (rule radio_only_enc_update [where g = "\<lambda>s. rf_en_mq_update (\<lambda>_. Some (snd (rt_mq_send RF_MQ_MSGS m (the (rf_en_mq (enc s))))))"],
      auto simp: mq_post_def queue_ok_def mq.bound_send split: option.splits,
      rule radio_only_enc_update [where g = "\<lambda>s. rf_en_mq_update (\<lambda>_. Some (snd (rt_mq_urgent RF_MQ_MSGS m (the (rf_en_mq (enc s))))))"],
      auto simp: mq_post_def queue_ok_def mq.bound_urgent split: option.splits)

lemma radio_only_power [radio_intros]: "radio_only ChangeMaxPower" "radio_only BackNormalPower"
  unfolding ChangeMaxPower_def BackNormalPower_def
  by (intro radio_intros radio_only_enc_update [OF refl]; simp add: queue_ok_def)+

lemma radio_only_enqueue [radio_intros]:
  "radio_only (RadioEnqueue t c k d)" "radio_only (GatewaySyncEnqueue a k i r b)"
  "radio_only (GatewayWarningEnqueue a i r w v)" "radio_only (GatewayControlEnqueue a i r w v)"
  "radio_only (WarUpload_GW a i w v)" "radio_only (ControlUpload_GW a i w v)" "radio_only (Replace_Door i)"
  "radio_only Gateway_RemoteDelete"
  unfolding RadioEnqueue_def GatewaySyncEnqueue_def GatewayWarningEnqueue_def GatewayControlEnqueue_def
    WarUpload_GW_def ControlUpload_GW_def Replace_Door_def Gateway_RemoteDelete_def
  by (intro radio_intros)+

end
