(* ===== verification/Valve.thy ===== *)
theory Valve
  imports RadioQueue
begin

text \<open>
  The valve: opening, closing and the self test of \<open>src/applications/Moto.c\<close>, with the pause
  flags of the keys (\<open>device.c\<close>) and of the water sensor (\<open>Work.c\<close>) that the self test sets,
  and \<open>Delay_Timer_Stop\<close> of \<open>Status.c\<close>. The valve is open when \<open>Turn1\<close> and \<open>Turn2\<close>
  are high; the self test lowers them for the time of the \<open>Act\<close> timers.
\<close>

section \<open>Operations\<close>

definition Key_IO_Init :: "sys \<Rightarrow> sys" where
  "Key_IO_Init = btn_update (Key_Pause_Flag_update (\<lambda>_. 0))"

definition Key_IO_DeInit :: "sys \<Rightarrow> sys" where
  "Key_IO_DeInit = btn_update (Key_Pause_Flag_update (\<lambda>_. 1))"

definition WaterScan_IO_Init :: "sys \<Rightarrow> sys" where
  "WaterScan_IO_Init = wk_update (Water_Alarm_Pause_update (\<lambda>_. 0))"

definition WaterScan_IO_DeInit :: "sys \<Rightarrow> sys" where
  "WaterScan_IO_DeInit = wk_update (Water_Alarm_Pause_update (\<lambda>_. 1))"

definition Delay_Timer_Stop :: "sys \<Rightarrow> sys" where
  "Delay_Timer_Stop = on_board (rt_timer_stop Delay_Timer)"

definition may_open :: "uint8 \<Rightarrow> sys \<Rightarrow> bool" where
  "may_open ActFlag s \<longleftrightarrow>
     (LastFlag (table_of s) = OtherOff \<and> ActFlag = OtherOpen) \<or> LastFlag (table_of s) \<noteq> OtherOff"

definition Moto_InitOpen :: "uint8 \<Rightarrow> sys \<Rightarrow> sys" where
  "Moto_InitOpen ActFlag =
     cond (may_open ActFlag)
       (block [set_Now_Status Open,
        ui_update (led_Long_Start 1),
        set_ValveStatus 1,
        set_LastFlag ActFlag,
        dev_update (Flash_Moto_Change ActFlag),
        on_board (rt_pin_write Turn1 True),
        on_board (rt_pin_write Turn2 True)])
       (cond (\<lambda>s. LastFlag (table_of s) = OtherOff \<and> ActFlag = NormalOpen)
          (ui_update (beep_start 0 7))
          (ui_update (beep_start 0 6)))"

definition Moto_Open :: "uint8 \<Rightarrow> sys \<Rightarrow> sys" where
  "Moto_Open ActFlag =
     cond (may_open ActFlag)
       (block [set_Now_Status Open,
        ui_update (led_Long_Start 1),
        set_ValveStatus 1,
        set_LastFlag ActFlag,
        dev_update (Flash_Moto_Change ActFlag),
        on_board (rt_pin_write Turn1 True),
        on_board (rt_pin_write Turn2 True),
        (if ActFlag = NormalOpen
            then block [ControlUpload_GW 1 0 1 1, on_board (rt_timer_start Moto_Detect_Timer)] else id),
        ui_update ring_once,
        Delay_Timer_Stop])
       (cond (\<lambda>s. LastFlag (table_of s) = OtherOff \<and> ActFlag = NormalOpen)
          (ui_update (beep_start 0 7))
          id)"

definition Moto_Close :: "uint8 \<Rightarrow> sys \<Rightarrow> sys" where
  "Moto_Close ActFlag =
     cond (\<lambda>s. LastFlag (table_of s) \<noteq> OtherOff)
       (block [set_Now_Status Close,
        ui_update (led_Stop 1),
        set_ValveStatus 0,
        set_LastFlag ActFlag,
        dev_update (Flash_Moto_Change ActFlag),
        (if ActFlag = NormalOff then ControlUpload_GW 1 0 1 0 else id),
        on_board (rt_pin_irq_enable Senor1 False),
        on_board (rt_pin_write Turn1 False),
        on_board (rt_pin_irq_enable Senor2 False),
        on_board (rt_pin_write Turn2 False),
        ui_update ring_once,
        Delay_Timer_Stop,
        on_board (rt_timer_stop Moto1_Timer_Act),
        on_board (rt_timer_stop Moto2_Timer_Act),
        on_board (rt_timer_stop Moto1_Timer_Detect),
        on_board (rt_timer_stop Moto2_Timer_Detect),
        Key_IO_Init,
        WaterScan_IO_Init])
       (cond (\<lambda>s. LastFlag (table_of s) = OtherOff \<and> ActFlag = OtherOff)
          (block [set_Now_Status Close,
           set_ValveStatus 0,
           ui_update ring_once,
           Delay_Timer_Stop])
          (ui_update (beep_start 0 7)))"

definition Turn1_Edge_Callback :: "sys \<Rightarrow> sys" where
  "Turn1_Edge_Callback = mo_update (Turn1_Flag_update (\<lambda>n. n + 1))"

definition Turn2_Edge_Callback :: "sys \<Rightarrow> sys" where
  "Turn2_Edge_Callback = mo_update (Turn2_Flag_update (\<lambda>n. n + 1))"

definition Moto1_Timer_Act_Callback :: "sys \<Rightarrow> sys" where
  "Moto1_Timer_Act_Callback =
     block [on_board (rt_pin_write Turn1 True), on_board (rt_timer_start Moto1_Timer_Detect)]"

definition Moto2_Timer_Act_Callback :: "sys \<Rightarrow> sys" where
  "Moto2_Timer_Act_Callback =
     block [on_board (rt_pin_write Turn2 True), on_board (rt_timer_start Moto2_Timer_Detect)]"

definition Moto_Detect :: "sys \<Rightarrow> sys" where
  "Moto_Detect =
     cond (\<lambda>s. ValveStatus (ky s) = 1)
       (block [mo_update (block [Turn1_Flag_update (\<lambda>_. 0), Turn2_Flag_update (\<lambda>_. 0),
          Moto1_Fail_FLag_update (\<lambda>_. 0), Moto2_Fail_FLag_update (\<lambda>_. 0)]),
        cond (\<lambda>s. rt_pin_read Senor1 (board_of s))
             (block [Key_IO_DeInit, WaterScan_IO_DeInit,
              on_board (rt_pin_irq_enable Senor1 True),
              on_board (rt_pin_write Turn1 False),
              on_board (rt_timer_start Moto1_Timer_Act)]) id,
        cond (\<lambda>s. rt_pin_read Senor2 (board_of s))
             (block [Key_IO_DeInit, WaterScan_IO_DeInit,
              on_board (rt_pin_irq_enable Senor2 True),
              on_board (rt_pin_write Turn2 False),
              on_board (rt_timer_start Moto2_Timer_Act)]) id])
       id"

definition Moto_Detect_Timer_Callback :: "sys \<Rightarrow> sys" where
  "Moto_Detect_Timer_Callback = Moto_Detect"

end
