(* ===== verification/Status.thy ===== *)
theory Status
  imports Valve
begin

text \<open>
  The warnings of \<open>src/applications/Status.c\<close>: the priority filter \<open>Warning_Enable\<close>, the nine
  reactions, the return to normal, the remote commands and the delayed closing; and the parts of
  \<open>Moto.c\<close> that raise warnings (the result of the self test, the start-up of the valve).
\<close>

section \<open>Operations\<close>

definition WaterScan_Clear :: "sys \<Rightarrow> sys" where
  "WaterScan_Clear = wk_update (block [WarningPastStatus_update (\<lambda>_. 0), WarningNowStatus_update (\<lambda>_. 0),
     WarningStatus_update (\<lambda>_. 0)])"

definition BackToNormal :: "sys \<Rightarrow> sys" where
  "BackToNormal =
     block [WaterScan_Clear, ui_update beep_stop, ui_update (led_Stop 0),
     cond (\<lambda>s. ValveStatus (ky s) \<noteq> 0) (set_Now_Status Open) (set_Now_Status Close)]"

definition GetNowStatus :: "sys \<Rightarrow> Device_Status" where
  "GetNowStatus s = Now_Status (sta s)"

definition Warning_Disable :: "sys \<Rightarrow> sys" where
  "Warning_Disable =
     block [sta_update (NowStatusEvent_update (block [last_id_update (\<lambda>_. 0), priority_update (\<lambda>_. 0)])),
     BackToNormal]"

definition SlaverLowBatteryWarning :: "sys \<Rightarrow> sys" where
  "SlaverLowBatteryWarning = ui_update (beep_start 0 15)"

definition SlaverUltraLowBatteryWarning :: "sys \<Rightarrow> sys" where
  "SlaverUltraLowBatteryWarning =
     block [Moto_Close OtherOff, ui_update (beep_start 0 15), set_Now_Status SlaverUltraLowPower]"

definition SlaverWaterAlarmWarning :: "sys \<Rightarrow> sys" where
  "SlaverWaterAlarmWarning =
     block [Moto_Close OtherOff, ui_update (beep_start 0 2), set_Now_Status SlaverWaterAlarmActive]"

definition MasterLostPeakWarning :: "sys \<Rightarrow> sys" where
  "MasterLostPeakWarning =
     block [set_Now_Status MasterLostPeak, WarUpload_GW 1 0 3 1, ui_update (beep_start 0 1),
     ui_update loss_led_start]"

definition MasterStatusChangeToDeAvtive :: "sys \<Rightarrow> sys" where
  "MasterStatusChangeToDeAvtive = set_Now_Status MasterWaterAlarmDeActive"

definition MasterWaterAlarmWarning :: "sys \<Rightarrow> sys" where
  "MasterWaterAlarmWarning =
     block [Moto_Close NormalOff, WarUpload_GW 1 0 1 1, ui_update (beep_start 0 2),
     set_Now_Status MasterWaterAlarmActive]"

definition NTCWarningEvent_Callback :: "sys \<Rightarrow> sys" where
  "NTCWarningEvent_Callback =
     block [Moto_Close NormalOff, WarUpload_GW 1 0 8 1, ui_update NTC_Ring, set_Now_Status NTCWarning]"

definition OfflineWarning :: "sys \<Rightarrow> sys" where
  "OfflineWarning =
     cond (\<lambda>s. Now_Status (sta s) \<noteq> Offline)
       (block [Moto_Close NormalOff, set_Now_Status Offline, ui_update (beep_start 0 5)]) id"

definition Moto1FailCallback :: "sys \<Rightarrow> sys" where
  "Moto1FailCallback = block [WarUpload_GW 1 0 2 2, ui_update (beep_start 0 9), set_Now_Status MotoFail]"

definition Moto2FailCallback :: "sys \<Rightarrow> sys" where
  "Moto2FailCallback = block [WarUpload_GW 1 0 2 3, ui_update (beep_start 0 9), set_Now_Status MotoFail]"

definition run_callback :: "warning_callback \<Rightarrow> sys \<Rightarrow> sys" where
  "run_callback cb = (case cb of
      SlaverLowBatteryWarning_cb \<Rightarrow> SlaverLowBatteryWarning
    | SlaverUltraLowBatteryWarning_cb \<Rightarrow> SlaverUltraLowBatteryWarning
    | SlaverWaterAlarmWarning_cb \<Rightarrow> SlaverWaterAlarmWarning
    | MasterLostPeakWarning_cb \<Rightarrow> MasterLostPeakWarning
    | MasterWaterAlarmWarning_cb \<Rightarrow> MasterWaterAlarmWarning
    | OfflineWarning_cb \<Rightarrow> OfflineWarning
    | NTCWarningEvent_cb \<Rightarrow> NTCWarningEvent_Callback
    | Moto1Fail_cb \<Rightarrow> Moto1FailCallback
    | Moto2Fail_cb \<Rightarrow> Moto2FailCallback)"

definition Warning_Enable :: "WariningEvent \<Rightarrow> sys \<Rightarrow> sys" where
  "Warning_Enable ev =
     cond (\<lambda>s. priority ev \<ge> priority (NowStatusEvent (sta s)))
       (block [sta_update (NowStatusEvent_update
          (block [last_id_update (\<lambda>_. warning_id ev), priority_update (\<lambda>_. priority ev)])),
        (case callback ev of None \<Rightarrow> id
            | Some cb \<Rightarrow> block [sta_update (NowStatusEvent_update (callback_update (\<lambda>_. Some cb))),
                run_callback cb])])
       id"

definition warning_of :: "uint8 \<Rightarrow> warning option" where
  "warning_of k =
     (if k = 1 then Some SlaverUltraLowPowerEvent else if k = 2 then Some SlaverWaterAlarmActiveEvent
      else if k = 3 then Some MasterLostPeakEvent else if k = 4 then Some MasterWaterAlarmActiveEvent
      else if k = 5 then Some OfflineEvent else if k = 6 then Some Moto1FailEvent
      else if k = 7 then Some SlaverLowPowerEvent else if k = 8 then Some NTCWarningEvent
      else if k = 9 then Some Moto2FailEvent else None)"

definition Warning_Enable_Num :: "uint8 \<Rightarrow> sys \<Rightarrow> sys" where
  "Warning_Enable_Num k =
     (case warning_of k of None \<Rightarrow> id | Some w \<Rightarrow> reading (\<lambda>s. events (sta s) w) Warning_Enable)"

definition Delay_Timer_Callback :: "sys \<Rightarrow> sys" where
  "Delay_Timer_Callback = block [Moto_Close OtherOff, ControlUpload_GW 1 0 1 0]"

definition idle_status :: "sys \<Rightarrow> bool" where
  "idle_status s \<longleftrightarrow> Now_Status (sta s) = Close \<or> Now_Status (sta s) = Open"

definition Remote_Open :: "sys \<Rightarrow> sys" where
  "Remote_Open = cond idle_status (Moto_Open OtherOpen) id"

definition Remote_Close :: "sys \<Rightarrow> sys" where
  "Remote_Close = Moto_Close OtherOff"

definition Delay_Timer_OpenDoor :: "uint32 \<Rightarrow> sys \<Rightarrow> sys" where
  "Delay_Timer_OpenDoor device_id =
     cond idle_status (block [on_board (rt_timer_start Delay_Timer), ControlUpload_GW 1 device_id 3 1]) id"

definition Delay_Timer_CloseDoor :: "uint32 \<Rightarrow> sys \<Rightarrow> sys" where
  "Delay_Timer_CloseDoor device_id =
     block [ControlUpload_GW 1 device_id 3 0, on_board (rt_timer_stop Delay_Timer)]"

definition OfflineDisableWarning :: "sys \<Rightarrow> sys" where
  "OfflineDisableWarning = cond (\<lambda>s. Now_Status (sta s) = Offline) Warning_Disable id"

definition Detect_Learn :: "sys \<Rightarrow> bool" where
  "Detect_Learn s \<longleftrightarrow> Now_Status (sta s) \<noteq> Learn"

definition WarningEventInit :: "uint8 \<Rightarrow> uint8 \<Rightarrow> warning_callback option \<Rightarrow> WariningEvent" where
  "WarningEventInit wid prio cb = \<lparr>warning_id = wid, last_id = 0, priority = prio, callback = cb\<rparr>"

definition initial_events :: "warning \<Rightarrow> WariningEvent" where
  "initial_events w = (case w of
      SlaverLowPowerEvent \<Rightarrow> WarningEventInit 7 4 (Some SlaverLowBatteryWarning_cb)
    | SlaverWaterAlarmActiveEvent \<Rightarrow> WarningEventInit 2 8 (Some SlaverWaterAlarmWarning_cb)
    | MasterLostPeakEvent \<Rightarrow> WarningEventInit 3 1 (Some MasterLostPeakWarning_cb)
    | MasterWaterAlarmActiveEvent \<Rightarrow> WarningEventInit 4 7 (Some MasterWaterAlarmWarning_cb)
    | OfflineEvent \<Rightarrow> WarningEventInit 5 5 (Some OfflineWarning_cb)
    | Moto1FailEvent \<Rightarrow> WarningEventInit 6 3 (Some Moto1Fail_cb)
    | Moto2FailEvent \<Rightarrow> WarningEventInit 9 3 (Some Moto2Fail_cb)
    | SlaverUltraLowPowerEvent \<Rightarrow> WarningEventInit 1 6 (Some SlaverUltraLowBatteryWarning_cb)
    | NTCWarningEvent \<Rightarrow> WarningEventInit 8 2 (Some NTCWarningEvent_cb))"

definition WarningInit :: "sys \<Rightarrow> sys" where
  "WarningInit =
     block [sta_update (block [events_update (\<lambda>_. initial_events),
       NowStatusEvent_update (\<lambda>_. WarningEventInit 0 0 None)]),
     on_board (rt_timer_create Delay_Timer (4 * 60 * 60 * 1000) False)]"

section \<open>The self test of the valve\<close>

definition Turn1_Timer_Callback :: "sys \<Rightarrow> sys" where
  "Turn1_Timer_Callback =
     block [Key_IO_Init, WaterScan_IO_Init,
     on_board (rt_pin_irq_enable Senor1 False),
     on_board (rt_pin_write Turn1 True),
     cond (\<lambda>s. Turn1_Flag (mo s) < 2)
          (block [cond (\<lambda>s. Moto2_Fail_FLag (mo s) = 0)
             (block [Warning_Enable_Num 6, mo_update (Valve_Alarm_Flag_update (\<lambda>_. 1))]) id,
           mo_update (Moto1_Fail_FLag_update (\<lambda>_. 1))])
          (block [cond (\<lambda>s. Moto2_Fail_FLag (mo s) = 0)
             (block [WarUpload_GW 1 0 2 0, mo_update (Valve_Alarm_Flag_update (\<lambda>_. 0))]) id,
           mo_update (Moto1_Fail_FLag_update (\<lambda>_. 0))])]"

definition Turn2_Timer_Callback :: "sys \<Rightarrow> sys" where
  "Turn2_Timer_Callback =
     block [Key_IO_Init, WaterScan_IO_Init,
     on_board (rt_pin_irq_enable Senor2 False),
     on_board (rt_pin_write Turn2 True),
     cond (\<lambda>s. Turn2_Flag (mo s) < 2)
          (block [Warning_Enable_Num 9,
           mo_update (block [Moto2_Fail_FLag_update (\<lambda>_. 1), Valve_Alarm_Flag_update (\<lambda>_. 1)])])
          (block [WarUpload_GW 1 0 2 1,
           mo_update (block [Moto2_Fail_FLag_update (\<lambda>_. 0), Valve_Alarm_Flag_update (\<lambda>_. 0)])])]"

text \<open>\<open>Moto_Init\<close>: the pins and timers, then the state the valve had when the power went.\<close>

definition moto_setup :: "sys \<Rightarrow> sys" where
  "moto_setup =
     on_board (block [rt_pin_mode Senor1 PIN_MODE_INPUT, rt_pin_mode Senor2 PIN_MODE_INPUT,
       rt_pin_mode Turn1 PIN_MODE_OUTPUT, rt_pin_mode Turn2 PIN_MODE_OUTPUT,
       rt_timer_create Moto1_Timer_Act 5100 False,
       rt_timer_create Moto2_Timer_Act 5000 False,
       rt_timer_create Moto1_Timer_Detect 3000 False,
       rt_timer_create Moto2_Timer_Detect 3000 False,
       rt_timer_create Moto_Detect_Timer (60000 * 5) False])"

definition moto_resume :: "sys \<Rightarrow> sys" where
  "moto_resume =
     cond (\<lambda>s. Flash_Get_SlaveAlarmFlag (dev s) \<noteq> 0)
       (Warning_Enable_Num 2)
       (cond (\<lambda>s. LastFlag (table_of s) \<noteq> OtherOff) (Moto_InitOpen NormalOpen) id)"

definition Moto_Init :: "sys \<Rightarrow> sys" where
  "Moto_Init = block [moto_setup, moto_resume]"

end
