(* ===== verification/ValveSpec.thy ===== *)
theory ValveSpec
  imports Status
begin

text \<open>
  The specification of the valve control: what a user of the device can observe of it (the drive
  pins, whether the valve counts as open, who closed it last and whether a restart will know, the pause of keys and sensor, the timers
  of the self test, the device status), and each operation of \<open>Moto.c\<close> as a function on this view.
  The safety of the valve is stated and proved here, on the specification; the theory
  \<open>ValveRefine\<close> shows that the code implements it.
\<close>

section \<open>The view\<close>

record vview =
  v_status :: Device_Status
  v_valve :: uint8
  v_last :: uint8
  v_saved :: "uint8 option"
  v_t1 :: bool
  v_t2 :: bool
  v_act1 :: bool
  v_act2 :: bool
  v_det1 :: bool
  v_det2 :: bool
  v_keys_off :: bool
  v_water_off :: bool
  v_s1 :: bool
  v_s2 :: bool

definition view :: "sys \<Rightarrow> vview" where
  "view s = \<lparr>v_status = Now_Status (sta s), v_valve = ValveStatus (ky s), v_last = LastFlag (table_of s),
     v_saved = saved_flag (dev s),
     v_t1 = pin_out (board_of s) Turn1, v_t2 = pin_out (board_of s) Turn2,
     v_act1 = timer_active Moto1_Timer_Act (board_of s), v_act2 = timer_active Moto2_Timer_Act (board_of s),
     v_det1 = timer_active Moto1_Timer_Detect (board_of s), v_det2 = timer_active Moto2_Timer_Detect (board_of s),
     v_keys_off = (Key_Pause_Flag (btn s) \<noteq> 0), v_water_off = (Water_Alarm_Pause (wk s) \<noteq> 0),
     v_s1 = rt_pin_read Senor1 (board_of s), v_s2 = rt_pin_read Senor2 (board_of s)\<rparr>"

section \<open>The operations on the view\<close>

definition a_may_open :: "uint8 \<Rightarrow> vview \<Rightarrow> bool" where
  "a_may_open a v \<longleftrightarrow> v_last v = OtherOff \<and> a = OtherOpen \<or> v_last v \<noteq> OtherOff"

definition a_open :: "uint8 \<Rightarrow> vview \<Rightarrow> vview" where
  "a_open a v = (if a_may_open a v
     then v\<lparr>v_status := Open, v_valve := 1, v_last := a, v_saved := map_option (\<lambda>_. a) (v_saved v), v_t1 := True, v_t2 := True\<rparr> else v)"

definition a_close :: "uint8 \<Rightarrow> vview \<Rightarrow> vview" where
  "a_close a v =
     (if v_last v \<noteq> OtherOff then
        v\<lparr>v_status := Close, v_valve := 0, v_last := a, v_saved := map_option (\<lambda>_. a) (v_saved v),
          v_t1 := False, v_t2 := False, v_act1 := False, v_act2 := False, v_det1 := False, v_det2 := False, v_keys_off := False, v_water_off := False\<rparr>
      else if a = OtherOff then v\<lparr>v_status := Close, v_valve := 0\<rparr> else v)"

definition a_detect :: "vview \<Rightarrow> vview" where
  "a_detect v =
     (if v_valve v = 1 then
        let v1 = (if v_s1 v then v\<lparr>v_keys_off := True, v_water_off := True, v_t1 := False, v_act1 := True\<rparr> else v)
        in if v_s2 v then v1\<lparr>v_keys_off := True, v_water_off := True, v_t2 := False, v_act2 := True\<rparr> else v1
      else v)"

definition a_act1 :: "vview \<Rightarrow> vview" where "a_act1 = block [v_t1_update (\<lambda>_. True), v_det1_update (\<lambda>_. True)]"
definition a_act2 :: "vview \<Rightarrow> vview" where "a_act2 = block [v_t2_update (\<lambda>_. True), v_det2_update (\<lambda>_. True)]"

definition a_normal :: "vview \<Rightarrow> vview" where
  "a_normal v = v\<lparr>v_status := (if v_valve v \<noteq> 0 then Open else Close)\<rparr>"

definition a_set :: "Device_Status \<Rightarrow> vview \<Rightarrow> vview" where
  "a_set st = v_status_update (\<lambda>_. st)"

text \<open>The statuses in which the device has shut the water off because of an alarm.\<close>

definition shut_status :: "Device_Status \<Rightarrow> bool" where
  "shut_status st \<longleftrightarrow> st \<in> set [Close, SlaverUltraLowPower, SlaverWaterAlarmActive,
     MasterWaterAlarmActive, NTCWarning, Offline]"

section \<open>Safety\<close>

definition self_test_runs :: "vview \<Rightarrow> bool" where
  "self_test_runs v \<longleftrightarrow> v_act1 v \<or> v_act2 v \<or> v_det1 v \<or> v_det2 v"

definition valve_safe :: "vview \<Rightarrow> bool" where
  "valve_safe v \<longleftrightarrow>
     (v_valve v = 0 \<or> v_valve v = 1) \<and>
     (v_last v = OtherOff \<longrightarrow> v_valve v = 0) \<and>
     (v_saved v = None \<or> v_saved v = Some (v_last v)) \<and>
     (v_valve v = 0 \<longrightarrow> \<not> v_t1 v \<and> \<not> v_t2 v \<and> \<not> self_test_runs v) \<and>
     (v_valve v = 1 \<longrightarrow> (v_t1 v \<or> v_act1 v) \<and> (v_t2 v \<or> v_act2 v)) \<and>
     (v_keys_off v \<or> v_water_off v \<longrightarrow> self_test_runs v) \<and>
     (shut_status (v_status v) \<longrightarrow> v_valve v = 0)"

lemmas vview_defs = a_may_open_def a_open_def a_close_def a_detect_def a_act1_def a_act2_def a_normal_def
  a_set_def shut_status_def self_test_runs_def valve_safe_def

lemma a_close_closed: "valve_safe v \<Longrightarrow> v_valve (a_close a v) = 0"
  by (auto simp: vview_defs)

lemma a_open_safe: "valve_safe v \<Longrightarrow> a \<noteq> OtherOff \<Longrightarrow> valve_safe (a_open a v)"
  by (auto simp: vview_defs)

lemma a_close_safe: "valve_safe v \<Longrightarrow> valve_safe (a_close a v)"
  by (auto simp: vview_defs)

lemma a_detect_safe: "valve_safe v \<Longrightarrow> valve_safe (a_detect v)"
  by (auto simp: vview_defs Let_def)

lemma a_normal_safe: "valve_safe v \<Longrightarrow> valve_safe (a_normal v)"
  by (auto simp: vview_defs)

lemma a_set_safe: "valve_safe v \<Longrightarrow> (shut_status st \<Longrightarrow> v_valve v = 0) \<Longrightarrow> valve_safe (a_set st v)"
  by (auto simp: valve_safe_def a_set_def self_test_runs_def)

lemma a_close_set_safe: "valve_safe v \<Longrightarrow> valve_safe (a_set st (a_close a v))"
  by (rule a_set_safe) (simp_all add: a_close_safe a_close_closed)

lemma a_expire_act_safe:
  "valve_safe v \<Longrightarrow> v_act1 v \<Longrightarrow> valve_safe (a_act1 (v\<lparr>v_act1 := False\<rparr>))"
  "valve_safe v \<Longrightarrow> v_act2 v \<Longrightarrow> valve_safe (a_act2 (v\<lparr>v_act2 := False\<rparr>))"
  by (auto simp: vview_defs)

end
