(* ===== verification/ValveRefine.thy ===== *)
theory ValveRefine
  imports ValveSpec
begin

text \<open>
  The code of \<open>Moto.c\<close> and \<open>Status.c\<close> implements the specification of the valve: an operation
  \<open>f\<close> of the code refines an operation \<open>F\<close> of the view when, on states that satisfy the base
  invariant, \<open>view (f s) = F (view s)\<close> and the base invariant holds again.
\<close>

section \<open>The base invariant\<close>

definition is_periodic :: "timer \<Rightarrow> bool" where
  "is_periodic t \<longleftrightarrow> t \<in> set [waterscan_timer, ntcscan_timer, Heart_Test_t, Heart_Check_t, Gateway_Sync_t,
     Factory_Cycle]"

text \<open>
  The kernel objects: exactly the timers of \<open>M\<close>, and the semaphores, exist, no assertion has failed, and the
  timer list agrees with the flags. (\<open>Factory_Cycle\<close> is created in factory mode only, and its uses
  are guarded.) \<open>X\<close> holds the periodic timer whose callback is running, if any.
\<close>

definition kernel_ok :: "timer set \<Rightarrow> timer set \<Rightarrow> board \<Rightarrow> bool" where
  "kernel_ok M X b \<longleftrightarrow> \<not> fault b \<and> (\<forall>t. timer_made t b \<longleftrightarrow> t \<in> M) \<and> (\<forall>m. sems b m \<noteq> None) \<and>
     distinct (soft_timer_list b) \<and> (\<forall>t \<in> set (soft_timer_list b). timer_active t b) \<and>
     (\<forall>t. timer_active t b \<longrightarrow> t \<in> set (soft_timer_list b) \<or> t \<in> X) \<and>
     (\<forall>t r. timers b t = Some r \<longrightarrow> periodic r = is_periodic t)"

definition base_ok :: "timer set \<Rightarrow> timer set \<Rightarrow> sys \<Rightarrow> bool" where
  "base_ok M X s \<longleftrightarrow> leds_ok (ui s) \<and> kernel_ok M X (board_of s) \<and> table_ok (dev s) \<and> queue_ok s \<and>
     events (sta s) = initial_events \<and> priority (NowStatusEvent (sta s)) \<le> 8"

definition refines :: "timer set \<Rightarrow> (sys \<Rightarrow> sys) \<Rightarrow> (vview \<Rightarrow> vview) \<Rightarrow> bool" where
  "refines M f F \<longleftrightarrow> (\<forall>X s. base_ok M X s \<longrightarrow> base_ok M X (f s) \<and> view (f s) = F (view s))"

text \<open>All timers but the one of the factory test exist once \<open>main\<close> has run its initialisations.\<close>

definition ALL_TIMERS :: "timer set" where
  "ALL_TIMERS = - {Factory_Cycle}"

definition sys_inv :: "timer set \<Rightarrow> sys \<Rightarrow> bool" where
  "sys_inv X s \<longleftrightarrow> (\<exists>M. ALL_TIMERS \<subseteq> M \<and> base_ok M X s) \<and> valve_safe (view s)"

lemma refinesI:
  "(\<And>X s. base_ok M X s \<Longrightarrow> base_ok M X (f s)) \<Longrightarrow> (\<And>X s. base_ok M X s \<Longrightarrow> view (f s) = F (view s)) \<Longrightarrow> refines M f F"
  by (simp add: refines_def)

lemma refines_block:
  "refines M f F \<Longrightarrow> refines M (block fs) (block Fs) \<Longrightarrow> refines M (block (f # fs)) (block (F # Fs))"
  "refines M (block []) (block [])"
  unfolding refines_def block.simps by (metis, simp)

lemma refines_id: "refines M id id"
  by (simp add: refines_def)

lemma refines_cond:
  assumes "\<And>s. p s = P (view s)" "refines M f F" "refines M g G"
  shows "refines M (cond p f g) (cond P F G)"
  using assms by (simp add: refines_def cond_def)

lemma refines_eq: "refines M f F \<Longrightarrow> (\<And>v. F v = G v) \<Longrightarrow> refines M f G"
  by (simp add: refines_def)

lemma keeps_refines:
  assumes "\<And>M. ALL_TIMERS \<subseteq> M \<Longrightarrow> refines M f F" "\<And>v. valve_safe v \<Longrightarrow> valve_safe (F v)"
  shows "keeps_inv (sys_inv X) f"
proof (rule keeps_invI)
  fix s assume "sys_inv X s"
  then obtain M where M: "ALL_TIMERS \<subseteq> M" "base_ok M X s" "valve_safe (view s)"
    unfolding sys_inv_def by blast
  with assms(1) [OF M(1)] have "base_ok M X (f s)" "view (f s) = F (view s)"
    unfolding refines_def by blast+
  with M assms(2) [OF M(3)] show "sys_inv X (f s)"
    unfolding sys_inv_def by metis
qed

lemma keeps_neutral: "(\<And>M. ALL_TIMERS \<subseteq> M \<Longrightarrow> refines M f id) \<Longrightarrow> keeps_inv (sys_inv X) f"
  by (rule keeps_refines [of f id]) simp_all

section \<open>Primitive steps\<close>

lemma not_led_pins [simp]: "Turn1 \<notin> set LED_PINS" "Turn2 \<notin> set LED_PINS" "Senor1 \<notin> set LED_PINS"
  "Senor2 \<notin> set LED_PINS"
  by (simp_all add: LED_PINS_def)

lemma signal_frame_kernel: "signal_frame b b' \<Longrightarrow> kernel_ok M X b' = kernel_ok M X b"
  by (simp add: kernel_ok_def signal_frame_sel timer_made_def timer_active_def)

lemma refines_ui: "led_safe f \<Longrightarrow> refines M (ui_update f) id"
proof (rule refinesI)
  fix X s assume f: "led_safe f" and s: "base_ok M X s"
  have u: "leds_ok (f (ui s))" "signal_frame (board_of s) (bd (f (ui s)))"
    using f s led_safeD [of f "ui s"] by (simp_all add: base_ok_def)
  show "base_ok M X (ui_update f s)"
    using s u signal_frame_kernel [OF u(2)] by (simp add: base_ok_def queue_ok_def)
  show "view (ui_update f s) = id (view s)"
    using signal_frame_sel [OF u(2)] by (simp add: view_def timer_active_def rt_pin_read_def)
qed

lemma refines_radio: "radio_only f \<Longrightarrow> refines M f id"
proof (rule refinesI)
  fix X s assume f: "radio_only f" and s: "base_ok M X s"
  then obtain e where e: "f s = s\<lparr>enc := e\<rparr>" "queue_ok (s\<lparr>enc := e\<rparr>)"
    using radio_onlyE [OF f, of s] by (auto simp: base_ok_def)
  show "base_ok M X (f s)" using s e by (simp add: base_ok_def)
  show "view (f s) = id (view s)" using e by (simp add: view_def)
qed

definition v_timer :: "timer \<Rightarrow> bool \<Rightarrow> vview \<Rightarrow> vview" where
  "v_timer t on = (case t of Moto1_Timer_Act \<Rightarrow> v_act1_update (\<lambda>_. on) | Moto2_Timer_Act \<Rightarrow> v_act2_update (\<lambda>_. on)
     | Moto1_Timer_Detect \<Rightarrow> v_det1_update (\<lambda>_. on) | Moto2_Timer_Detect \<Rightarrow> v_det2_update (\<lambda>_. on) | _ \<Rightarrow> id)"

lemma kernel_ok_start: "kernel_ok M X b \<Longrightarrow> timer_made t b \<Longrightarrow> kernel_ok M X (rt_timer_start t b)"
  unfolding kernel_ok_def
  by (auto simp: timer_active_start soft_timer_list_start distinct_removeAll dest!: periodic_start_stop(1))

lemma kernel_ok_stop: "kernel_ok M X b \<Longrightarrow> timer_made t b \<Longrightarrow> kernel_ok M X (rt_timer_stop t b)"
  unfolding kernel_ok_def
  by (auto simp: timer_active_stop soft_timer_list_stop dest!: periodic_start_stop(2) split: if_splits)

lemma base_ok_board:
  "base_ok M X s \<Longrightarrow> kernel_ok M X (f (board_of s)) \<Longrightarrow> base_ok M X (on_board f s)"
  by (simp add: base_ok_def leds_ok_def queue_ok_def)

lemma pin_read_timers [simp]: "rt_pin_read p (rt_timer_start t b) = rt_pin_read p b"
  "rt_pin_read p (rt_timer_stop t b) = rt_pin_read p b"
  by (simp_all add: rt_pin_read_def)

lemma refines_timer_start:
  assumes "t \<in> M"
  shows "refines M (on_board (rt_timer_start t)) (v_timer t True)"
proof (rule refinesI)
  fix X s assume s: "base_ok M X s"
  then have made: "timer_made t (board_of s)" using assms by (simp add: base_ok_def kernel_ok_def)
  show "base_ok M X (on_board (rt_timer_start t) s)"
    using s made by (intro base_ok_board kernel_ok_start) (simp_all add: base_ok_def)
  show "view (on_board (rt_timer_start t) s) = v_timer t True (view s)"
    using made by (cases t) (simp_all add: view_def v_timer_def timer_active_start)
qed

lemma refines_timer_stop:
  assumes "t \<in> M"
  shows "refines M (on_board (rt_timer_stop t)) (v_timer t False)"
proof (rule refinesI)
  fix X s assume s: "base_ok M X s"
  then have made: "timer_made t (board_of s)" using assms by (simp add: base_ok_def kernel_ok_def)
  show "base_ok M X (on_board (rt_timer_stop t) s)"
    using s made by (intro base_ok_board kernel_ok_stop) (simp_all add: base_ok_def)
  show "view (on_board (rt_timer_stop t) s) = v_timer t False (view s)"
    by (cases t) (simp_all add: view_def v_timer_def timer_active_stop)
qed

lemma kernel_ok_pin [simp]: "kernel_ok M X (rt_pin_write p v b) = kernel_ok M X b"
  "kernel_ok M X (rt_pin_irq_enable p e b) = kernel_ok M X b"
  by (simp_all add: kernel_ok_def timer_made_def timer_active_def)

lemma refines_turn:
  "refines M (on_board (rt_pin_write Turn1 v)) (v_t1_update (\<lambda>_. v))"
  "refines M (on_board (rt_pin_write Turn2 v)) (v_t2_update (\<lambda>_. v))"
  "refines M (on_board (rt_pin_irq_enable p e)) id"
  by (rule refinesI; simp add: base_ok_board base_ok_def view_def timer_active_def rt_pin_read_def leds_ok_def
      queue_ok_def)+

lemma refines_fields:
  "refines M (set_Now_Status st) (a_set st)"
  "refines M (set_ValveStatus x) (v_valve_update (\<lambda>_. x))"
  "(\<And>e. priority e \<le> 8 \<Longrightarrow> priority (fe e) \<le> 8) \<Longrightarrow> refines M (sta_update (NowStatusEvent_update fe)) id"
  "refines M (mo_update fm) id" "refines M (gw_update fg) id" "refines M (dec_update fd) id"
  "refines M (rtc_update fr) id" "refines M (adc_update fa) id" "refines M (Factory_Flag_update ff) id"
  "refines M Key_IO_Init (v_keys_off_update (\<lambda>_. False))" "refines M Key_IO_DeInit (v_keys_off_update (\<lambda>_. True))"
  "refines M WaterScan_IO_Init (v_water_off_update (\<lambda>_. False))"
  "refines M WaterScan_IO_DeInit (v_water_off_update (\<lambda>_. True))"
  by (rule refinesI; simp add: base_ok_def view_def queue_ok_def a_set_def Key_IO_Init_def Key_IO_DeInit_def
      WaterScan_IO_Init_def WaterScan_IO_DeInit_def)+

lemma refines_work: "(\<And>w. Water_Alarm_Pause (f w) = Water_Alarm_Pause w) \<Longrightarrow> refines M (wk_update f) id"
  by (rule refinesI) (simp_all add: base_ok_def view_def queue_ok_def)

lemma refines_key: "(\<And>k. ValveStatus (f k) = ValveStatus k) \<Longrightarrow> refines M (ky_update f) id"
  by (rule refinesI) (simp_all add: base_ok_def view_def queue_ok_def)

lemma refines_button: "(\<And>k. Key_Pause_Flag (f k) = Key_Pause_Flag k) \<Longrightarrow> refines M (btn_update f) id"
  by (rule refinesI) (simp_all add: base_ok_def view_def queue_ok_def)

lemma refines_dev:
  assumes "table_operation f"
  shows "refines M (dev_update f) id"
  using table_operation.keeps_ok [OF assms] table_operation.keeps_saved [OF assms] table_operation.valve [OF assms]
  by (intro refinesI) (simp_all add: base_ok_def view_def queue_ok_def)

lemma refines_LastFlag:
  "refines M (set_LastFlag a) (v_last_update (\<lambda>_. a))"
  "refines M (dev_update (Flash_Moto_Change a)) (v_saved_update (map_option (\<lambda>_. a)))"
proof -
  have g: "Global_Device (Flash_Moto_Change a d) = Global_Device d" for d by (simp add: Flash_Moto_Change_def)
  show "refines M (set_LastFlag a) (v_last_update (\<lambda>_. a))"
    by (rule refinesI; simp add: base_ok_def view_def queue_ok_def table_ok_def saved_flag_def table_wf_gdev mirrored_gdev
        arrays_ok_def)
  show "refines M (dev_update (Flash_Moto_Change a)) (v_saved_update (map_option (\<lambda>_. a)))"
    by (rule refinesI; simp add: base_ok_def view_def queue_ok_def table_ok_def saved_flag_def Flash_Moto_Change_keeps g)
qed

section \<open>The operations\<close>

lemma refines_if:
  "(b \<Longrightarrow> refines M f F) \<Longrightarrow> (\<not> b \<Longrightarrow> refines M g G) \<Longrightarrow> refines M (if b then f else g) (if b then F else G)"
  by simp

lemma refines_either: "refines M f F \<Longrightarrow> refines M g F \<Longrightarrow> refines M (cond p f g) F"
  by (simp add: refines_def cond_def)

lemma refines_reading: "(\<And>x. refines M (f x) F) \<Longrightarrow> refines M (reading g f) F"
  by (simp add: refines_def)

text \<open>The timers that the valve operations use.\<close>

definition VALVE_TIMERS :: "timer set" where
  "VALVE_TIMERS = {Delay_Timer, Moto_Detect_Timer, Moto1_Timer_Act, Moto2_Timer_Act, Moto1_Timer_Detect,
     Moto2_Timer_Detect}"

lemma used_timers:
  assumes "VALVE_TIMERS \<subseteq> M"
  shows "Delay_Timer \<in> M" "Moto_Detect_Timer \<in> M" "Moto1_Timer_Act \<in> M" "Moto2_Timer_Act \<in> M"
    "Moto1_Timer_Detect \<in> M" "Moto2_Timer_Detect \<in> M"
  using assms by (auto simp: VALVE_TIMERS_def)

lemma valve_timers_all: "ALL_TIMERS \<subseteq> M \<Longrightarrow> VALVE_TIMERS \<subseteq> M"
  by (auto simp: VALVE_TIMERS_def ALL_TIMERS_def)

lemmas refines_uplink = radio_only_enqueue [THEN refines_radio] radio_only_power [THEN refines_radio]

text \<open>The rules that compute the view operation of a statement sequence.\<close>

lemmas refine_rules = refines_block refines_id refines_if refines_uplink
  refines_timer_start refines_timer_stop refines_turn refines_fields refines_LastFlag
  refines_ui

lemma refines_Delay_Timer_Stop:
  assumes M: "VALVE_TIMERS \<subseteq> M"
  shows "refines M Delay_Timer_Stop id"
  unfolding Delay_Timer_Stop_def
  by (rule refines_eq, rule refines_timer_stop, rule used_timers [OF M], simp_all add: v_timer_def)

lemma may_open_view: "may_open a s = a_may_open a (view s)"
  by (simp add: may_open_def a_may_open_def view_def)

lemma refines_Moto_InitOpen: "refines M (Moto_InitOpen a) (a_open a)"
  unfolding Moto_InitOpen_def
  by (rule refines_eq, rule refines_cond, rule may_open_view,
      (rule refine_rules led_safe_intros)+, rule refines_either,
      (rule refines_ui led_safe_intros)+)
    (simp add: a_open_def a_set_def cond_def)

lemma refines_Moto_Open:
  assumes M: "VALVE_TIMERS \<subseteq> M"
  shows "refines M (Moto_Open a) (a_open a)"
  unfolding Moto_Open_def
  by (rule refines_eq, rule refines_cond, rule may_open_view,
      (rule refine_rules used_timers [OF M] refines_Delay_Timer_Stop [OF M] led_safe_intros)+, rule refines_either,
      (rule refines_id refines_ui led_safe_intros)+)
    (simp add: a_open_def a_set_def cond_def v_timer_def)

lemma last_view:
  "(LastFlag (table_of s) \<noteq> OtherOff) = (v_last (view s) \<noteq> OtherOff)"
  "(LastFlag (table_of s) = OtherOff \<and> a = OtherOff) = (v_last (view s) = OtherOff \<and> a = OtherOff)"
  by (simp_all add: view_def)

lemma valve_view:
  "(ValveStatus (ky s) = 1) = (v_valve (view s) = 1)" "(ValveStatus (ky s) \<noteq> 0) = (v_valve (view s) \<noteq> 0)"
  "rt_pin_read Senor1 (board_of s) = v_s1 (view s)" "rt_pin_read Senor2 (board_of s) = v_s2 (view s)"
  "(Now_Status (sta s) \<noteq> Offline) = (v_status (view s) \<noteq> Offline)"
  by (simp_all add: view_def)

lemma refines_Moto_Close:
  assumes M: "VALVE_TIMERS \<subseteq> M"
  shows "refines M (Moto_Close a) (a_close a)"
  unfolding Moto_Close_def
  by (rule refines_eq, rule refines_cond, rule last_view,
      (rule refine_rules used_timers [OF M] refines_Delay_Timer_Stop [OF M] led_safe_intros)+, rule refines_cond, rule last_view,
      (rule refine_rules used_timers [OF M] refines_Delay_Timer_Stop [OF M] led_safe_intros)+)
    (simp add: a_close_def a_set_def cond_def v_timer_def)

lemma refines_Moto_Detect:
  assumes M: "VALVE_TIMERS \<subseteq> M"
  shows "refines M Moto_Detect a_detect"
  unfolding Moto_Detect_def
  by (rule refines_eq, rule refines_cond, rule valve_view, rule refines_block, rule refines_fields,
      rule refines_block, rule refines_cond, rule valve_view, (rule refine_rules used_timers [OF M])+,
      rule refines_cond, rule valve_view, (rule refine_rules used_timers [OF M])+)
    (simp add: a_detect_def cond_def v_timer_def Let_def)

lemma refines_Act_Callbacks:
  assumes M: "VALVE_TIMERS \<subseteq> M"
  shows "refines M Moto1_Timer_Act_Callback a_act1" "refines M Moto2_Timer_Act_Callback a_act2"
  unfolding Moto1_Timer_Act_Callback_def Moto2_Timer_Act_Callback_def
  by (rule refines_eq, (rule refine_rules used_timers [OF M])+, simp add: a_act1_def v_timer_def,
      rule refines_eq, (rule refine_rules used_timers [OF M])+, simp add: a_act2_def v_timer_def)

lemma refines_Edge_Callbacks: "refines M Turn1_Edge_Callback id" "refines M Turn2_Edge_Callback id"
  unfolding Turn1_Edge_Callback_def Turn2_Edge_Callback_def by (rule refines_fields)+

section \<open>The status operations\<close>

lemma refines_WaterScan_Clear: "refines M WaterScan_Clear id"
  unfolding WaterScan_Clear_def by (rule refines_work) simp

lemma refines_BackToNormal: "refines M BackToNormal a_normal"
  unfolding BackToNormal_def
  by (rule refines_eq, (rule refines_block refines_WaterScan_Clear refines_ui led_safe_intros)+,
      rule refines_cond, rule valve_view, (rule refines_fields refines_block)+)
    (simp add: a_normal_def a_set_def cond_def)

lemma refines_Warning_Disable: "refines M Warning_Disable a_normal"
  unfolding Warning_Disable_def
  by (rule refines_eq, (rule refines_block refines_fields(3) refines_BackToNormal | simp)+)

text \<open>The reactions to the nine warnings.\<close>

definition a_warning :: "warning_callback \<Rightarrow> vview \<Rightarrow> vview" where
  "a_warning cb = (case cb of
      SlaverLowBatteryWarning_cb \<Rightarrow> id
    | SlaverUltraLowBatteryWarning_cb \<Rightarrow> block [a_close OtherOff, a_set SlaverUltraLowPower]
    | SlaverWaterAlarmWarning_cb \<Rightarrow> block [a_close OtherOff, a_set SlaverWaterAlarmActive]
    | MasterLostPeakWarning_cb \<Rightarrow> a_set MasterLostPeak
    | MasterWaterAlarmWarning_cb \<Rightarrow> block [a_close NormalOff, a_set MasterWaterAlarmActive]
    | OfflineWarning_cb \<Rightarrow> cond (\<lambda>v. v_status v \<noteq> Offline) (block [a_close NormalOff, a_set Offline]) id
    | NTCWarningEvent_cb \<Rightarrow> block [a_close NormalOff, a_set NTCWarning]
    | Moto1Fail_cb \<Rightarrow> a_set MotoFail
    | Moto2Fail_cb \<Rightarrow> a_set MotoFail)"

lemmas callback_defs = SlaverLowBatteryWarning_def SlaverUltraLowBatteryWarning_def SlaverWaterAlarmWarning_def
  MasterLostPeakWarning_def MasterWaterAlarmWarning_def OfflineWarning_def NTCWarningEvent_Callback_def
  Moto1FailCallback_def Moto2FailCallback_def

lemma refines_callbacks:
  assumes M: "VALVE_TIMERS \<subseteq> M"
  shows "refines M SlaverLowBatteryWarning id"
  "refines M SlaverUltraLowBatteryWarning (block [a_close OtherOff, a_set SlaverUltraLowPower])"
  "refines M SlaverWaterAlarmWarning (block [a_close OtherOff, a_set SlaverWaterAlarmActive])"
  "refines M MasterLostPeakWarning (a_set MasterLostPeak)"
  "refines M MasterWaterAlarmWarning (block [a_close NormalOff, a_set MasterWaterAlarmActive])"
  "refines M NTCWarningEvent_Callback (block [a_close NormalOff, a_set NTCWarning])"
  "refines M Moto1FailCallback (a_set MotoFail)" "refines M Moto2FailCallback (a_set MotoFail)"
  unfolding callback_defs
  by (rule refines_eq, (rule refines_Moto_Close [OF M] refine_rules led_safe_intros)+, simp)+

lemma refines_OfflineWarning:
  assumes M: "VALVE_TIMERS \<subseteq> M"
  shows "refines M OfflineWarning (cond (\<lambda>v. v_status v \<noteq> Offline) (block [a_close NormalOff, a_set Offline]) id)"
  unfolding OfflineWarning_def
  by (rule refines_eq, rule refines_cond, rule valve_view,
      (rule refines_Moto_Close [OF M] refine_rules led_safe_intros)+) (simp add: cond_def)

lemma refines_run_callback:
  assumes M: "VALVE_TIMERS \<subseteq> M"
  shows "refines M (run_callback cb) (a_warning cb)"
  by (cases cb) (simp_all add: run_callback_def a_warning_def refines_callbacks [OF M] refines_OfflineWarning [OF M])

lemma a_warning_safe: "valve_safe v \<Longrightarrow> valve_safe (a_warning cb v)"
proof (cases cb)
  case OfflineWarning_cb
  then show "valve_safe v \<Longrightarrow> ?thesis" by (simp add: a_warning_def cond_def a_close_set_safe)
qed (auto simp: a_warning_def a_close_set_safe intro!: a_set_safe simp: shut_status_def)

end
