(* ===== verification/WaterScan.thy ===== *)
theory WaterScan
  imports Status
begin

text \<open>
  The water sensor of \<open>src/applications/Work.c\<close>: the cable is read once a second, and a change of
  its state (lost, shorted by water, normal) is turned into a warning. The sensor is not read while
  the self test of the valve runs.
\<close>

section \<open>Operations\<close>

definition WarningWithPeak :: "uint8 \<Rightarrow> sys \<Rightarrow> sys" where
  "WarningWithPeak status =
     cond Detect_Learn
       (if status = 0 then
          block [WarUpload_GW 1 0 3 0,
          cond (\<lambda>s. GetNowStatus s = Open \<or> GetNowStatus s = Close \<or> GetNowStatus s = MasterLostPeak)
               (block [BackToNormal, ui_update loss_led_stop]) id]
        else if status = 1 then Warning_Enable_Num 3
        else if status = 2 then Warning_Enable_Num 4
        else if status = 3 then MasterStatusChangeToDeAvtive
        else if status = 4 then block [ui_update loss_led_stop, Warning_Enable_Num 4]
        else id)
       id"

definition Get_Peak_ON_Level :: "sys \<Rightarrow> uint8" where
  "Get_Peak_ON_Level s =
     (if Water_Alarm_Pause (wk s) = 0 then of_bool (rt_pin_read Peak_ON (board_of s)) else 1)"

definition Get_Peak_LOSS_Level :: "sys \<Rightarrow> uint8" where
  "Get_Peak_LOSS_Level s =
     (if Water_Alarm_Pause (wk s) = 0 then of_bool (rt_pin_read Peak_Loss (board_of s)) else 0)"

definition set_past :: "uint8 \<Rightarrow> sys \<Rightarrow> sys" where
  "set_past v = wk_update (WarningPastStatus_update (\<lambda>_. v))"

definition set_WarningStatus :: "uint8 \<Rightarrow> sys \<Rightarrow> sys" where
  "set_WarningStatus v = wk_update (WarningStatus_update (\<lambda>_. v))"

text \<open>
  A transition that is reported once: the call, then \<open>WarningPastStatus = WarningNowStatus\<close> (as
  the callee may have cleared both), then the mark in \<open>WarningStatus\<close>.
\<close>

definition report_change :: "uint8 \<Rightarrow> uint8 \<Rightarrow> sys \<Rightarrow> sys" where
  "report_change mark what =
     cond (\<lambda>s. WarningStatus (wk s) \<noteq> mark)
       (block [WarningWithPeak what, reading (\<lambda>s. WarningNowStatus (wk s)) set_past, set_WarningStatus mark]) id"

definition water_transition :: "uint8 \<Rightarrow> uint8 \<Rightarrow> sys \<Rightarrow> sys" where
  "water_transition past now =
     (if past = 2 \<and> now = 0 then
        cond (\<lambda>s. WarningStatus (wk s) \<noteq> 1) (block [set_WarningStatus 1, WarningWithPeak 3]) id
      else if past = 2 \<and> now = 1 then
        cond (\<lambda>s. WarningStatus (wk s) \<noteq> 2) (set_WarningStatus 2) id
      else if past = 0 \<and> now = 1 then report_change 4 1
      else if past = 0 \<and> now = 2 then report_change 8 2
      else if past = 1 \<and> now = 0 then report_change 16 0
      else if past = 1 \<and> now = 2 then report_change 32 4
      else id)"

definition waterscan_timer_callback :: "sys \<Rightarrow> sys" where
  "waterscan_timer_callback =
     block [reading Get_Peak_ON_Level (\<lambda>v. wk_update (Peak_ON_Level_update (\<lambda>_. v))),
     reading Get_Peak_LOSS_Level (\<lambda>v. wk_update (Peak_Loss_Level_update (\<lambda>_. v))),
     reading (\<lambda>s. (if Peak_Loss_Level (wk s) \<noteq> 0 then 1 else if Peak_ON_Level (wk s) = 0 then 2 else 0))
          (\<lambda>v. wk_update (WarningNowStatus_update (\<lambda>_. v))),
     reading (\<lambda>s. (WarningPastStatus (wk s), WarningNowStatus (wk s)))
          (\<lambda>(past, now). if now \<noteq> past then water_transition past now else id)]"

definition WaterScan_Init :: "sys \<Rightarrow> sys" where
  "WaterScan_Init =
     block [on_board (block [rt_pin_mode Peak_ON PIN_MODE_INPUT, rt_pin_mode Peak_Loss PIN_MODE_INPUT]),
     WaterScan_IO_Init,
     on_board (block [rt_timer_create waterscan_timer 1000 True, rt_timer_start waterscan_timer])]"

end
