(* ===== verification/Gateway.thy ===== *)
theory Gateway
  imports Status
begin

text \<open>
  The gateway link of \<open>src/applications/gateway.c\<close>: heartbeat supervision, the report after a
  restart, and the synchronisation of the device table, one device per timer period.
\<close>

section \<open>Operations\<close>

definition Gateway_Sync_Callback :: "sys \<Rightarrow> sys" where
  "Gateway_Sync_Callback =
     cond (\<lambda>s. ucast (Gateway_Sync_Num (gw s)) \<le> Num (table_of s))
       (block [reading (\<lambda>s. (unat (Gateway_Sync_Num (gw s)), table_of s)) (\<lambda>(n, d).
          if arr_get (ID d) n < 40000000 \<and> arr_get (ID d) n > 0 then
            if arr_get (Alive d) n \<noteq> 0
            then GatewaySyncEnqueue 1 3 (arr_get (ID d) n) (arr_get (Rssi d) n) (arr_get (Bat d) n)
            else GatewaySyncEnqueue 1 5 (arr_get (ID d) n) (arr_get (Rssi d) n) (arr_get (Bat d) n)
          else id),
        gw_update (Gateway_Sync_Num_update (\<lambda>n. n + 1))])
       (block [gw_update (Gateway_Sync_Num_update (\<lambda>_. 1)), on_board (rt_timer_stop Gateway_Sync_t)])"

definition PowerOn_Upload :: "sys \<Rightarrow> sys" where
  "PowerOn_Upload = reading GetNowStatus (\<lambda>st. case st of
      Open \<Rightarrow> WarUpload_GW 1 0 7 0
    | Close \<Rightarrow> WarUpload_GW 1 0 7 0
    | MasterLostPeak \<Rightarrow> WarUpload_GW 1 0 3 1
    | MasterWaterAlarmActive \<Rightarrow> WarUpload_GW 1 0 1 1
    | MasterWaterAlarmDeActive \<Rightarrow> WarUpload_GW 1 0 1 1
    | NTCWarning \<Rightarrow> WarUpload_GW 1 0 8 1
    | MotoFail \<Rightarrow>
        block [cond (\<lambda>s. Moto1_Fail_FLag (mo s) \<noteq> 0) (WarUpload_GW 1 0 2 2) id,
        cond (\<lambda>s. Moto2_Fail_FLag (mo s) \<noteq> 0) (WarUpload_GW 1 0 2 3) id]
    | _ \<Rightarrow> id)"

definition report_valve :: "uint8 \<Rightarrow> uint32 \<Rightarrow> uint8 \<Rightarrow> sys \<Rightarrow> sys" where
  "report_valve ack device_id control_id =
     reading (\<lambda>s. ValveStatus (ky s)) (\<lambda>v. ControlUpload_GW ack device_id control_id v)"

definition Gateway_Sync :: "sys \<Rightarrow> sys" where
  "Gateway_Sync =
     block [report_valve 1 0 5, PowerOn_Upload,
     gw_update (Gateway_Sync_Num_update (\<lambda>_. 1)), on_board (rt_timer_start Gateway_Sync_t)]"

definition Heart_Refresh :: "uint32 \<Rightarrow> sys \<Rightarrow> sys" where
  "Heart_Refresh i =
     cond (\<lambda>s. i = Gateway_ID (gw s))
       (gw_update (block [Heart_Recv_Flag_update (\<lambda>_. 1), Heart_Status_update (\<lambda>_. 1)])) id"

definition Heart_Check :: "sys \<Rightarrow> sys" where
  "Heart_Check =
     cond (\<lambda>s. Heart_Recv_Flag (gw s) \<noteq> 0)
       (block [gw_update (Heart_Recv_Flag_update (\<lambda>_. 0)), ui_update (wifi_led 1)])
       (block [ui_update (wifi_led 2), gw_update (Heart_Status_update (\<lambda>_. 0))])"

definition Heart_Test :: "sys \<Rightarrow> sys" where
  "Heart_Test =
     cond (\<lambda>s. Heart_Recv_Flag (gw s) \<noteq> 0)
       (block [on_board (rt_timer_stop Heart_Test_t), ui_update (wifi_led 1),
        report_valve 1 0 5, PowerOn_Upload])
       (cond (\<lambda>s. Heart_Check_Count (gw s) < 3)
          (block [gw_update (Heart_Check_Count_update (\<lambda>n. n + 1)), ui_update (wifi_led 0),
           report_valve 0 0 5])
          (block [on_board (rt_timer_stop Heart_Test_t), ui_update (wifi_led 2)]))"

definition Heart_Test_Start :: "sys \<Rightarrow> sys" where
  "Heart_Test_Start =
     block [gw_update (Heart_Check_Count_update (\<lambda>_. 0)), on_board (rt_timer_start Heart_Test_t)]"

definition load_Gateway_ID :: "sys \<Rightarrow> sys" where
  "load_Gateway_ID = reading (\<lambda>s. arr_get (ID (table_of s)) (unat (GatewayNum (table_of s))))
     (\<lambda>i. gw_update (Gateway_ID_update (\<lambda>_. i)))"

definition Gateway_Reload :: "sys \<Rightarrow> sys" where
  "Gateway_Reload =
     block [dec_update (Gw_Flag_update (\<lambda>_. 1)), ui_update (wifi_led 1), load_Gateway_ID,
     reading (\<lambda>s. Gateway_ID (gw s)) Heart_Refresh,
     on_board (rt_timer_start Heart_Check_t)]"

definition Gateway_Init :: "sys \<Rightarrow> sys" where
  "Gateway_Init =
     block [load_Gateway_ID, report_valve 0 0 5,
     on_board (block [rt_timer_create Heart_Test_t 5000 True, rt_timer_create Heart_Check_t (1000 * 60 * 20) True,
          rt_timer_create Gateway_Sync_t 2000 True]),
     cond (\<lambda>s. Gateway_ID (gw s) = 0) id
          (block [Heart_Test_Start, on_board (rt_timer_start Heart_Check_t)])]"

section \<open>One synchronisation\<close>

text \<open>What the callback sends for one slot: a device that is not the gateway, while a gateway is known.\<close>

definition sync_message :: "Device_Info \<Rightarrow> nat \<Rightarrow> Radio_Normal_Format" where
  "sync_message d n = Radio_Normal_zero\<lparr>Type := 1, Ack := 1, Command := (if arr_get (Alive d) n \<noteq> 0 then 3 else 5),
     Payload_ID := arr_get (ID d) n, rn_Rssi := arr_get (Rssi d) n, Data := arr_get (Bat d) n\<rparr>"

definition synced :: "Device_Info \<Rightarrow> nat \<Rightarrow> uint32 \<Rightarrow> Radio_Normal_Format list \<Rightarrow> Radio_Normal_Format list" where
  "synced d n gid q = (if 0 < arr_get (ID d) n \<and> arr_get (ID d) n < 40000000 \<and> gid \<noteq> 0
     then snd (rt_mq_send RF_MQ_MSGS (sync_message d n) q) else q)"

lemma sync_step:
  assumes "unat (Gateway_Sync_Num (gw s)) = n" "n \<le> unat (Num (table_of s))" "unat (Num (table_of s)) \<le> 12"
    "rf_en_mq (enc s) = Some q"
  defines "s' \<equiv> Gateway_Sync_Callback s"
  shows "unat (Gateway_Sync_Num (gw s')) = Suc n" "Gateway_ID (gw s') = Gateway_ID (gw s)" "dev s' = dev s"
    "board_of s' = board_of s" "rf_en_mq (enc s') = Some (synced (table_of s) n (Gateway_ID (gw s)) q)"
proof -
  have c: "ucast (Gateway_Sync_Num (gw s)) \<le> Num (table_of s)"
    using assms(1-3) by (simp add: word_le_nat_alt unsigned_ucast_eq take_bit_nat_eq_self)
  have u: "unat (Gateway_Sync_Num (gw s) + 1) = Suc n"
    using assms(1-3) by (simp add: unat8_Suc)
  show "unat (Gateway_Sync_Num (gw s')) = Suc n" "Gateway_ID (gw s') = Gateway_ID (gw s)" "dev s' = dev s"
    "board_of s' = board_of s" "rf_en_mq (enc s') = Some (synced (table_of s) n (Gateway_ID (gw s)) q)"
    using c u assms(1,4)
    by (simp_all add: s'_def Gateway_Sync_Callback_def GatewaySyncEnqueue_def mq_post_def synced_def sync_message_def cond_def)
qed

lemma sync_steps:
  assumes "Gateway_Sync_Num (gw s) = 1" "unat (Num (table_of s)) \<le> 12" "rf_en_mq (enc s) = Some q"
    "k \<le> unat (Num (table_of s))"
  defines "t \<equiv> (Gateway_Sync_Callback ^^ k) s"
  shows "unat (Gateway_Sync_Num (gw t)) = Suc k \<and> Gateway_ID (gw t) = Gateway_ID (gw s) \<and> dev t = dev s \<and>
    board_of t = board_of s \<and> rf_en_mq (enc t) = Some (fold (\<lambda>n. synced (table_of s) n (Gateway_ID (gw s))) (slots k) q)"
  using assms(4) unfolding t_def
proof (induction k)
  case 0
  then show ?case using assms(1,3) by (simp add: slots_def)
next
  case (Suc k)
  let ?t = "(Gateway_Sync_Callback ^^ k) s"
  have IH: "unat (Gateway_Sync_Num (gw ?t)) = Suc k" "Gateway_ID (gw ?t) = Gateway_ID (gw s)" "dev ?t = dev s"
    "board_of ?t = board_of s"
    "rf_en_mq (enc ?t) = Some (fold (\<lambda>n. synced (table_of s) n (Gateway_ID (gw s))) (slots k) q)"
    using Suc by simp_all
  have "slots (Suc k) = slots k @ [Suc k]" by (simp add: slots_def)
  then show ?case using sync_step [OF IH(1) _ _ IH(5)] IH Suc.prems assms(2) by simp
qed

end
