(* ===== verification/Supervision.thy ===== *)
theory Supervision
  imports Status
begin

text \<open>
  The operations of \<open>src/storage/flashwork.c\<close> that combine the device table with warnings and
  reports: offline detection, its withdrawal, replacing the door device, and the factory reset.
\<close>

section \<open>Operations\<close>

definition Add_DoorDevice :: "uint32 \<Rightarrow> (uint8 \<Rightarrow> sys \<Rightarrow> sys) \<Rightarrow> sys \<Rightarrow> sys" where
  "Add_DoorDevice i k =
     block [cond (\<lambda>s. GetDoorID (dev s) \<noteq> 0) (reading (\<lambda>s. GetDoorID (dev s)) Replace_Door) id,
     use_dev (Add_DoorDevice_table i) k]"

definition report_offline :: "uint32 \<Rightarrow> sys \<Rightarrow> sys" where
  "report_offline i = block [WarUpload_GW 1 i 4 1, do_dev (Device_AliveChange i 0)]"

text \<open>One round of the loop of \<open>Detect_All_Time\<close>; the flag says whether to raise the warning.\<close>

definition detect_slot :: "nat \<Rightarrow> bool \<times> sys \<Rightarrow> bool \<times> sys" where
  "detect_slot n = (\<lambda>(warn, s).
     let d = table_of s in
     if arr_get (ID_Time d) n = 25 \<and> arr_get (GetMesssage d) n = 0 \<and> arr_get (ID d) n \<noteq> 0 then
       if of_nat n = DoorNum d then (warn, report_offline (arr_get (ID d) n) s)
       else if of_nat n = GatewayNum d then (warn, s)
       else (True, report_offline (arr_get (ID d) n) s)
     else (warn, s))"

definition Detect_All_Time :: "sys \<Rightarrow> sys" where
  "Detect_All_Time s =
     (if num16 (dev s) = 0 then s
      else let (warn, s1) = fold detect_slot (rev (slots (num16 (dev s)))) (False, s)
           in (block [(if warn then Warning_Enable_Num 5 else id), dev_update Clear_All_Time]) s1)"

definition slave_offline :: "sys \<Rightarrow> nat \<Rightarrow> bool" where
  "slave_offline s n \<longleftrightarrow> (let d = table_of s in
     arr_get (Alive d) n = 0 \<and> of_nat n \<noteq> DoorNum d \<and> of_nat n \<noteq> GatewayNum d)"

definition Offline_React :: "sys \<Rightarrow> sys" where
  "Offline_React s =
     (if GetNowStatus s \<noteq> Offline then s
      else if num16 (dev s) = 0 then s
      else if list_ex (slave_offline s) (rev (slots (num16 (dev s)))) then s
      else OfflineDisableWarning s)"

definition DeleteAllDevice :: "sys \<Rightarrow> sys" where
  "DeleteAllDevice = block [Gateway_RemoteDelete, dev_update erase_table]"

end
