(* ===== verification/RadioDecoder.thy ===== *)
theory RadioDecoder
  imports Gateway Supervision
begin

text \<open>
  Received radio frames, \<open>src/radio/Radio_Decoder.c\<close>: the two frame formats, pairing
  (\<open>Device_Learn\<close>), the commands of the paired devices (\<open>DataSolve\<close>) and those of the gateway
  (\<open>GatewayDataSolve\<close>).

  A frame is the byte buffer of the driver, with the text from index 1 on. \<open>rt_sscanf\<close> is called
  without looking at its result, so the fields it does not reach keep what was on the stack: the
  argument \<open>g\<close> of the two solvers.
\<close>

section \<open>Messages\<close>

record Message =
  Target_ID :: int32
  From_ID :: int32
  Device_ID :: int32
  msg_Counter :: int32
  msg_Command :: int32
  msg_Data :: int32
  msg_Rssi :: int32

text \<open>Stores the values in the order of the pointer arguments of the call.\<close>

fun assign :: "((int32 \<Rightarrow> int32) \<Rightarrow> Message \<Rightarrow> Message) list \<Rightarrow> int32 list \<Rightarrow> Message \<Rightarrow> Message" where
  "assign (f # fs) (v # vs) m = assign fs vs (f (\<lambda>_. v) m)"
| "assign _ _ m = m"

definition parse_normal :: "string \<Rightarrow> Message \<Rightarrow> Message" where
  "parse_normal t = assign
     [Target_ID_update, From_ID_update, msg_Counter_update, msg_Command_update, msg_Data_update]
     (rt_sscanf t ''{%d,%d,%d,%d,%d}'')"

definition parse_gateway :: "string \<Rightarrow> Message \<Rightarrow> Message" where
  "parse_gateway t = assign
     [Target_ID_update, From_ID_update, Device_ID_update, msg_Counter_update, msg_Command_update, msg_Data_update]
     (rt_sscanf t ''G{%d,%d,%d,%d,%d,%d}G'')"

definition byte_at :: "string \<Rightarrow> nat \<Rightarrow> char" where
  "byte_at b i = (if i < length b then b ! i else CHR 0x00)"

definition c_string_at :: "string \<Rightarrow> nat \<Rightarrow> string" where
  "c_string_at b i = takeWhile (\<lambda>c. c \<noteq> CHR 0x00) (drop i b)"

section \<open>Pairing\<close>

definition Check_Valid :: "int32 \<Rightarrow> sys \<Rightarrow> uint8" where
  "Check_Valid i s = Flash_Get_Key_Valid i (dev s)"

text \<open>\<open>Factory_Detect\<close>: the level of the test pin, after setting its pull-up.\<close>

definition Factory_Detect :: "sys \<Rightarrow> uint8 \<times> sys" where
  "Factory_Detect s =
     (let s1 = on_board (rt_pin_mode TEST_PIN PIN_MODE_INPUT_PULLUP) s in
      (if \<not> rt_pin_read TEST_PIN (board_of s1) then 1 else 0, s1))"

definition Start_Learn_Key :: "sys \<Rightarrow> sys" where
  "Start_Learn_Key =
     block [set_Now_Status Learn, dec_update (Learn_Flag_update (\<lambda>_. 1)), ui_update (beep_start 0 4),
     on_board (rt_timer_start Learn_Timer)]"

definition Start_Learn :: "sys \<Rightarrow> sys" where
  "Start_Learn = cond idle_status
     (block [set_Now_Status Learn, dec_update (Learn_Flag_update (\<lambda>_. 1)), ui_update (beep_start 0 4),
      on_board (rt_timer_start Learn_Timer)]) id"

definition Stop_Learn :: "sys \<Rightarrow> sys" where
  "Stop_Learn =
     block [dec_update (Learn_Flag_update (\<lambda>_. 0)), Warning_Disable, ui_update (beep_start 0 6),
     cond (\<lambda>s. Gw_Flag (dec s) \<noteq> 0) (block [dec_update (Gw_Flag_update (\<lambda>_. 0)), Gateway_Sync]) id]"

definition learn_ack :: "Message \<Rightarrow> uint8 \<Rightarrow> sys \<Rightarrow> sys" where
  "learn_ack m d = RadioEnqueue (From_ID m) (ucast (msg_Counter m)) 3 d"

definition after_add :: "Message \<Rightarrow> uint8 \<Rightarrow> sys \<Rightarrow> sys" where
  "after_add m r = (if r = RT_EOK then learn_ack m 1 else ui_update learn_fail_ring)"

definition Device_Learn :: "Message \<Rightarrow> sys \<Rightarrow> sys" where
  "Device_Learn m =
     (if msg_Command m = 3 then
        block [(if msg_Data m = 1 then
           cond (\<lambda>s. Check_Valid (From_ID m) s \<noteq> 0)
             (if sint (From_ID m) < 30000000 then
                use_dev (Add_Device (From_ID m)) (after_add m)
              else if sint (From_ID m) \<ge> 30000000 \<and> sint (From_ID m) < 40000000 then
                Add_DoorDevice (From_ID m) (after_add m)
              else if sint (From_ID m) \<ge> 40000000 \<and> sint (From_ID m) < 50000000 then
                use_dev (Add_GatewayDevice (From_ID m)) (after_add m)
              else id)
             (learn_ack m 1)
         else if msg_Data m = 2 then
           cond (\<lambda>s. Check_Valid (From_ID m) s \<noteq> 0)
             id
             (block [(if sint (From_ID m) \<ge> 40000000 \<and> sint (From_ID m) < 50000000 then Gateway_Reload else id),
              ui_update ring_once,
              do_dev (Device_AliveChange (From_ID m) 1),
              ui_update Relearn,
              learn_ack m 2,
              reading (\<lambda>s. Flash_GetRssi (From_ID m) (dev s))
                   (\<lambda>r. GatewaySyncEnqueue 0 6 (From_ID m) r 0)])
         else id),
        on_board (rt_timer_start Learn_Timer)]
      else id)"

section \<open>Commands of the paired devices\<close>

definition answer :: "Message \<Rightarrow> uint8 \<Rightarrow> uint8 \<Rightarrow> sys \<Rightarrow> sys" where
  "answer m cmd d = RadioEnqueue (From_ID m) (ucast (msg_Counter m)) cmd d"

definition is_door :: "Message \<Rightarrow> sys \<Rightarrow> bool" where
  "is_door m s \<longleftrightarrow> From_ID m = GetDoorID (dev s)"

definition solve_handshake :: "Message \<Rightarrow> sys \<Rightarrow> sys" where
  "solve_handshake m =
     block [do_dev (Update_Device_Bat (From_ID m) (ucast (msg_Data m))),
     (if msg_Data m = 0 then block [answer m 2 0, WarUpload_GW 1 (From_ID m) 6 0]
         else if msg_Data m = 1 then
           block [answer m 2 1, WarUpload_GW 1 (From_ID m) 6 1, cond (is_door m) id (Warning_Enable_Num 7)]
         else if msg_Data m = 2 then
           block [answer m 2 2, WarUpload_GW 1 (From_ID m) 6 2, cond (is_door m) id (Warning_Enable_Num 1)]
         else if msg_Data m = 3 then block [answer m 2 3, WarUpload_GW 1 (From_ID m) 6 3]
         else if msg_Data m = 4 then block [answer m 2 4, WarUpload_GW 1 (From_ID m) 6 4]
         else id)]"

definition solve_alarm :: "Message \<Rightarrow> sys \<Rightarrow> sys" where
  "solve_alarm m =
     (if msg_Data m = 0 then
        cond (is_door m) id (block [answer m 4 0, WarUpload_GW 1 (From_ID m) 5 0])
      else if msg_Data m = 1 then
        cond (is_door m) id
          (block [answer m 4 1, WarUpload_GW 1 (From_ID m) 5 1,
           do_dev (Flash_Set_SlaveAlarmFlag (From_ID m) 1),
           cond (\<lambda>s. Now_Status (sta s) \<noteq> SlaverWaterAlarmActive) (Warning_Enable_Num 2) id])
      else id)"

definition report_remote :: "Message \<Rightarrow> sys \<Rightarrow> sys" where
  "report_remote m = cond (is_door m) (report_valve 1 (From_ID m) 6) (report_valve 1 (From_ID m) 2)"

definition solve_open :: "Message \<Rightarrow> sys \<Rightarrow> sys" where
  "solve_open m =
     block [cond idle_status
       (block [answer m 5 1, Moto_Open OtherOpen, dec_update (Last_Close_Flag_update (\<lambda>_. 0)),
        ui_update ring_once])
       (answer m 5 2),
     report_remote m]"

definition solve_close :: "Message \<Rightarrow> sys \<Rightarrow> sys" where
  "solve_close m =
     block [answer m 6 0,
     cond (\<lambda>s. Flash_Get_SlaveAlarmFlag (dev s) \<noteq> 0)
          (block [do_dev (Flash_Set_SlaveAlarmFlag (From_ID m) 0),
           cond (\<lambda>s. Flash_Get_SlaveAlarmFlag (dev s) = 0) Warning_Disable id]) id,
     cond idle_status
          (block [Warning_Disable, dec_update (Last_Close_Flag_update (\<lambda>_. 1)), Moto_Close OtherOff,
           ui_update ring_once]) id,
     report_remote m]"

definition solve_delay :: "Message \<Rightarrow> sys \<Rightarrow> sys" where
  "solve_delay m =
     block [answer m 8 (ucast (msg_Data m)),
     (if msg_Data m \<noteq> 0 then Delay_Timer_CloseDoor (From_ID m)
         else cond (\<lambda>s. Now_Status (sta s) = Open) (Delay_Timer_OpenDoor (From_ID m)) id)]"

definition DataSolve :: "Message \<Rightarrow> sys \<Rightarrow> sys" where
  "DataSolve m =
     block [(if msg_Command m = 1 then answer m 1 1
      else if msg_Command m = 2 then solve_handshake m
      else if msg_Command m = 3 then
        (if msg_Data m = 3 then
           cond (\<lambda>s. Check_Valid (From_ID m) s = 0) (block [Start_Learn, answer m 3 3]) id
         else id)
      else if msg_Command m = 4 then solve_alarm m
      else if msg_Command m = 5 then solve_open m
      else if msg_Command m = 6 then solve_close m
      else if msg_Command m = 8 then solve_delay m
      else if msg_Command m = 9 then
        block [answer m 9 (ucast (msg_Data m)), WarUpload_GW 1 (From_ID m) 9 (ucast (msg_Data m))]
      else id),
     (if msg_Counter m = 0 then ChangeMaxPower else BackNormalPower),
     do_dev (Clear_Device_Time (From_ID m)),
     Offline_React]"

section \<open>Commands of the gateway\<close>

definition rf_recvack_callback :: "sys \<Rightarrow> sys" where
  "rf_recvack_callback = enc_update (rf_ack_sem_update (\<lambda>_. True))"

definition gateway_valve :: "Message \<Rightarrow> sys \<Rightarrow> sys" where
  "gateway_valve m =
     block [ui_update ring_once,
     cond idle_status
          (block [(if msg_Data m \<noteq> 0 then Remote_Open else Remote_Close),
           reading (\<lambda>s. RadioID (enc s)) (\<lambda>i. report_valve 1 i 2)])
          (reading (\<lambda>s. RadioID (enc s)) (\<lambda>i. ControlUpload_GW 0 i 2 3))]"

definition gateway_command :: "Message \<Rightarrow> sys \<Rightarrow> sys" where
  "gateway_command m =
     (if msg_Command m = 2 then gateway_valve m
      else if msg_Command m = 3 then report_valve 1 0 4
      else if msg_Command m = 4 then Gateway_Sync
      else if msg_Command m = 6 then do_dev (Delete_Device (Device_ID m))
      else if msg_Command m = 7 then rf_recvack_callback
      else id)"

definition blink :: "sys \<Rightarrow> sys" where
  "blink = reading (\<lambda>s. Gateway_ID (gw s)) (\<lambda>i. ui_update (wifi_communication_blink i))"

definition GatewayDataSolve :: "Message \<Rightarrow> string \<Rightarrow> nat \<Rightarrow> sys \<Rightarrow> sys" where
  "GatewayDataSolve g rx_buffer rx_len =
     (if byte_at rx_buffer rx_len = CHR ''G'' then
        let m = parse_gateway (c_string_at rx_buffer 1) g in
        cond (\<lambda>s. Target_ID m = RadioID (enc s) \<and> Check_Valid (From_ID m) s = RT_EOK)
          (block [Heart_Refresh (From_ID m),
           cond (\<lambda>s. From_ID m = GetGatewayID (dev s)) blink id,
           gateway_command m])
          id
      else id)"

section \<open>Frames\<close>

definition factory_rssi :: "int \<Rightarrow> sys \<Rightarrow> sys" where
  "factory_rssi rssi = ui_update (if rssi < - 85 then Factory_WarningRing else Factory_NormalRing)"

definition touch_device :: "Message \<Rightarrow> int \<Rightarrow> sys \<Rightarrow> sys" where
  "touch_device m rssi =
     block [do_dev (Update_Device_Rssi (From_ID m) rssi), do_dev (Device_AliveChange (From_ID m) 1)]"

definition NormalSolve :: "Message \<Rightarrow> int \<Rightarrow> string \<Rightarrow> nat \<Rightarrow> sys \<Rightarrow> sys" where
  "NormalSolve g rssi rx_buffer rx_len =
     (if byte_at rx_buffer rx_len = CHR 0x0A \<and> byte_at rx_buffer (rx_len - 1) = CHR 0x0D then
        let m = parse_normal (c_string_at rx_buffer 1) g in
        cond (\<lambda>s. Target_ID m = RadioID (enc s) \<or> Target_ID m = 99999999)
          (cond (\<lambda>s. Learn_Flag (dec s) \<noteq> 0)
             (block [touch_device m rssi, Device_Learn m])
             (block [cond (\<lambda>s. From_ID m = GetGatewayID (dev s)) blink id,
              cond (\<lambda>s. Flash_Get_Key_Valid (From_ID m) (dev s) = RT_EOK)
                   (block [touch_device m rssi, DataSolve m])
                   (if From_ID m = 98989898 then factory_rssi rssi else id)]))
          id
      else id)"

definition rf433_rx_callback :: "Message \<Rightarrow> int \<Rightarrow> string \<Rightarrow> nat \<Rightarrow> sys \<Rightarrow> sys" where
  "rf433_rx_callback g rssi buf rx_len =
     (if byte_at buf 1 = CHR ''{'' then NormalSolve g rssi buf rx_len
      else if byte_at buf 1 = CHR ''G'' then GatewayDataSolve g buf rx_len
      else id)"

end
