(* ===== verification/KeyHandling.thy ===== *)
theory KeyHandling
  imports RadioDecoder
begin

text \<open>
  The reaction to the two keys, \<open>src/applications/key.c\<close>: one round of the loop of
  \<open>Key_Reponse_Callback\<close>, and the learn timer; and the factory test of \<open>factory.c\<close>.
\<close>

section \<open>Factory test\<close>

definition Factory_Cycle_Callback :: "sys \<Rightarrow> sys" where
  "Factory_Cycle_Callback = RadioEnqueue 98989898 1 9 0"

definition Stop_Factory_Cycle :: "sys \<Rightarrow> sys" where
  "Stop_Factory_Cycle = cond (\<lambda>s. timer_made Factory_Cycle (board_of s))
     (on_board (rt_timer_stop Factory_Cycle)) id"

definition Start_Factory_Cycle :: "sys \<Rightarrow> sys" where
  "Start_Factory_Cycle = cond (\<lambda>s. timer_made Factory_Cycle (board_of s))
     (on_board (rt_timer_start Factory_Cycle)) id"

definition Factory_Init :: "sys \<Rightarrow> sys" where
  "Factory_Init = block [on_board (rt_timer_create Factory_Cycle 2000 True), Start_Factory_Cycle]"

definition DetectFactory :: "sys \<Rightarrow> sys" where
  "DetectFactory =
     block [on_board (rt_pin_mode TEST_PIN PIN_MODE_INPUT_PULLUP),
     reading (\<lambda>s. rt_pin_read TEST_PIN (board_of s)) (\<lambda>v. Factory_Flag_update (\<lambda>_. if v then 0 else 1)),
     cond (\<lambda>s. Factory_Flag s \<noteq> 0) Factory_Init id]"

section \<open>Keys\<close>

definition Key_SemInit :: "sys \<Rightarrow> sys" where
  "Key_SemInit = on_board (block [rt_sem_create K0_Sem 0, rt_sem_create K0_Long_Sem 0, rt_sem_create K1_Sem 0,
     rt_sem_create K1_Long_Sem 0, rt_sem_create K0_K1_Long_Sem 0])"

text \<open>\<open>var = rt_sem_take(sem, 0);\<close> the 8-bit variable gets 0, or 254 for \<open>-RT_ETIMEOUT\<close>.\<close>

definition take_into :: "semaphore \<Rightarrow> ((uint8 \<Rightarrow> uint8) \<Rightarrow> key_st \<Rightarrow> key_st) \<Rightarrow> sys \<Rightarrow> sys" where
  "take_into m upd s =
     (let (ok, b) = rt_sem_take m (board_of s) in
      (block [on_board (\<lambda>_. b), ky_update (upd (\<lambda>_. if ok then 0 else 254))]) s)"

definition key_on :: "Device_Status \<Rightarrow> sys \<Rightarrow> sys" where
  "key_on st = (case st of
      Close \<Rightarrow> cond (\<lambda>s. Last_Close_Flag (dec s) = 0)
                (block [ui_update ring_once, Moto_Open NormalOpen]) (ui_update (beep_start 0 7))
    | Open \<Rightarrow> ui_update ring_once
    | SlaverUltraLowPower \<Rightarrow> ui_update beep_three_times
    | MasterLostPeak \<Rightarrow> block [ui_update key_down, set_Now_Status Open, Moto_Open NormalOpen]
    | MasterWaterAlarmActive \<Rightarrow> ui_update beep_three_times
    | MasterWaterAlarmDeActive \<Rightarrow> ui_update beep_three_times
    | MotoFail \<Rightarrow> ui_update ring_once
    | _ \<Rightarrow> id)"

definition key_off :: "Device_Status \<Rightarrow> sys \<Rightarrow> sys" where
  "key_off st = (case st of
      Close \<Rightarrow> cond (\<lambda>s. Last_Close_Flag (dec s) = 0) (ui_update key_down) (ui_update (beep_start 0 7))
    | Open \<Rightarrow> block [ui_update key_down, dec_update (Last_Close_Flag_update (\<lambda>_. 0)), Moto_Close NormalOff]
    | SlaverUltraLowPower \<Rightarrow> ui_update ring_once
    | SlaverWaterAlarmActive \<Rightarrow> ui_update beep_stop
    | MasterLostPeak \<Rightarrow> block [ui_update key_down, Moto_Close NormalOff, ui_update beep_stop, set_Now_Status Close]
    | MasterWaterAlarmActive \<Rightarrow> ui_update beep_stop
    | MasterWaterAlarmDeActive \<Rightarrow>
        block [ui_update key_down, set_Now_Status Close, Warning_Disable, WarUpload_GW 1 0 1 0]
    | MotoFail \<Rightarrow> ui_update key_down
    | NTCWarning \<Rightarrow> block [ui_update beep_stop, ui_update key_down]
    | _ \<Rightarrow> id)"

definition key_off_long :: "sys \<Rightarrow> sys" where
  "key_off_long =
     cond idle_status (block [set_Now_Status Learn, Start_Learn_Key])
       (cond (\<lambda>s. Now_Status (sta s) = Learn) (block [on_board (rt_timer_stop Learn_Timer), Stop_Learn]) id)"

definition take_keys :: "sys \<Rightarrow> sys" where
  "take_keys =
     block [take_into K0_Sem K0_Status_update, take_into K0_Long_Sem K0_Long_Status_update,
     take_into K1_Sem K1_Status_update, take_into K1_Long_Sem K1_Long_Status_update,
     take_into K0_K1_Long_Sem K0_K1_Status_update]"

text \<open>
  One round of the key loop. The result tells whether the round ends in \<open>rt_hw_cpu_reset\<close>
  (three seconds after the device table was erased; what the other threads do in these seconds is not part of
  the round).
\<close>

definition key_round :: "sys \<Rightarrow> bool \<times> sys" where
  "key_round s0 =
     (let s = take_keys s0 in
      if K0_Status (ky s) = 0 then (False, key_on (Now_Status (sta s)) s)
      else if K1_Status (ky s) = 0 then
        (False, if Factory_Flag s \<noteq> 0 then (block [Stop_Factory_Cycle, Warning_Disable, Moto_Detect]) s
                else key_off (Now_Status (sta s)) s)
      else if K0_K1_Status (ky s) = 0 then (True, (block [DeleteAllDevice, ui_update (beep_start 0 8)]) s)
      else if K0_Long_Status (ky s) = 0 then (False, s)
      else if K1_Long_Status (ky s) = 0 then (False, key_off_long s)
      else (False, s))"

definition Learn_Timer_Callback :: "sys \<Rightarrow> sys" where
  "Learn_Timer_Callback = Stop_Learn"

definition Key_Reponse :: "sys \<Rightarrow> sys" where
  "Key_Reponse = on_board (rt_timer_create Learn_Timer (30 * 1000) False)"

definition release_k0 :: "sys \<Rightarrow> sys" where
  "release_k0 = cond (\<lambda>s. sems (board_of s) K0_Sem \<noteq> None) (on_board (rt_sem_release K0_Sem)) id"

definition release_k1 :: "sys \<Rightarrow> sys" where
  "release_k1 = cond (\<lambda>s. sems (board_of s) K1_Sem \<noteq> None) (on_board (rt_sem_release K1_Sem)) id"

end
