(* ===== verification/Periodic.thy ===== *)
theory Periodic
  imports Complex_Main Gateway Supervision
begin

text \<open>
  Two periodic activities: the temperature sensor (\<open>src/applications/ADCwork.c\<close>) and the hourly
  alarm (\<open>src/applications/RTCWork.c\<close>).

  The voltage is computed in C with \<open>double\<close>; the model uses the rational value. The sum of the
  samples is divided as integers first, so that the voltage takes values \<open>3.3 / 4096\<close> apart, and
  the thresholds are at a distance of more than \<open>10 ^ -4\<close> from each of them
  (\<open>voltage_threshold_margin\<close>): the rounding of \<open>double\<close> cannot change a comparison.
\<close>

section \<open>Temperature\<close>

definition ADC_sum :: "uint32 list \<Rightarrow> uint32" where
  "ADC_sum vs = foldl (+) 0 (map (arr_get vs) [0 ..< 20])"

definition voltage :: "uint32 \<Rightarrow> rat" where
  "voltage vt = of_nat (unat (vt div 20)) * (33 / 10) / 4096 + 18 / 1000"

definition ADC_Voltage_Calc :: "sys \<Rightarrow> rat \<times> sys" where
  "ADC_Voltage_Calc s =
     (let t = ADC_sum (adc_value (adc s)) in (voltage t, adc_update (voltage_temp_update (\<lambda>_. t)) s))"

definition NTC_State_Save :: "uint8 \<Rightarrow> sys \<Rightarrow> sys" where
  "NTC_State_Save r = adc_update (NTC_State_update (\<lambda>_. r))"

definition NTC_State_read :: "sys \<Rightarrow> uint8" where
  "NTC_State_read s = NTC_State (adc s)"

definition ntc_scan_timer_callback :: "sys \<Rightarrow> sys" where
  "ntc_scan_timer_callback s0 =
     (let (v, s) = ADC_Voltage_Calc s0;
          s1 = (if v < 1153 / 1000 \<and> Now_Status (sta s) \<noteq> NTCWarning
                then (block [reading (\<lambda>s. ValveStatus (ky s)) NTC_State_Save, Warning_Enable_Num 8]) s else s);
          (v', s2) = ADC_Voltage_Calc s1
      in if v' \<ge> 1168 / 1000 \<and> Now_Status (sta s2) = NTCWarning
         then (block [WarUpload_GW 1 0 8 0, Warning_Disable,
               cond (\<lambda>s. NTC_State_read s \<noteq> 0) (Moto_Open NormalOpen) (Moto_Close NormalOff)]) s2
         else s2)"

definition NTC_Init :: "sys \<Rightarrow> sys" where
  "NTC_Init = on_board (block [rt_timer_create ntcscan_timer 1000 True, rt_timer_start ntcscan_timer])"

section \<open>The hourly alarm\<close>

definition HAL_RTC_AlarmAEventCallback :: "sys \<Rightarrow> sys" where
  "HAL_RTC_AlarmAEventCallback =
     block [on_board (rt_sem_release RTC_IRQ_Sem), rtc_update (RTC_Hours_update (\<lambda>h. h + 1))]"

text \<open>The body of the loop of \<open>RTC_Timer_Entry\<close>, after the semaphore was taken.\<close>

definition rtc_hour :: "sys \<Rightarrow> sys" where
  "rtc_hour =
     block [cond (\<lambda>s. RTC_Hours (rtc s) mod 120 = 0) Moto_Detect id,
     cond (\<lambda>s. RTC_Counter (rtc s) < 24)
          (block [dev_update Update_All_Time, rtc_update (RTC_Counter_update (\<lambda>c. c + 1))])
          (block [dev_update Update_All_Time, Detect_All_Time, rtc_update (RTC_Counter_update (\<lambda>_. 0))])]"

definition RTC_Timer_round :: "sys \<Rightarrow> sys" where
  "RTC_Timer_round s =
     (let (ok, b) = rt_sem_take RTC_IRQ_Sem (board_of s)
      in if ok then rtc_hour (on_board (\<lambda>_. b) s) else on_board (\<lambda>_. b) s)"

definition RTC_Init :: "sys \<Rightarrow> sys" where
  "RTC_Init = on_board (rt_sem_create RTC_IRQ_Sem 0)"

section \<open>The thresholds\<close>

lemma voltage_low_iff: "voltage t < 1153 / 1000 \<longleftrightarrow> unat (t div 20) \<le> 1408"
proof -
  have "voltage t < 1153 / 1000 \<longleftrightarrow> (of_nat (unat (t div 20)) :: rat) < 1135 * 4096 / 3300"
    by (simp add: voltage_def field_simps)
  also have "\<dots> \<longleftrightarrow> unat (t div 20) \<le> 1408"
  proof
    assume "(of_nat (unat (t div 20)) :: rat) < 1135 * 4096 / 3300"
    then have "(of_nat (unat (t div 20)) :: rat) < of_nat 1409" by simp
    then have "unat (t div 20) < 1409" by (rule of_nat_less_imp_less)
    then show "unat (t div 20) \<le> 1408" by simp
  next
    assume "unat (t div 20) \<le> 1408"
    then have "(of_nat (unat (t div 20)) :: rat) \<le> of_nat 1408" by (rule of_nat_mono)
    then show "(of_nat (unat (t div 20)) :: rat) < 1135 * 4096 / 3300" by simp
  qed
  finally show ?thesis .
qed

lemma voltage_high_iff: "voltage t \<ge> 1168 / 1000 \<longleftrightarrow> 1428 \<le> unat (t div 20)"
proof -
  have "voltage t \<ge> 1168 / 1000 \<longleftrightarrow> (of_nat (unat (t div 20)) :: rat) \<ge> 1150 * 4096 / 3300"
    by (simp add: voltage_def field_simps)
  also have "\<dots> \<longleftrightarrow> 1428 \<le> unat (t div 20)"
  proof
    assume "(of_nat (unat (t div 20)) :: rat) \<ge> 1150 * 4096 / 3300"
    then have "(of_nat 1427 :: rat) < of_nat (unat (t div 20))" by simp
    then have "1427 < unat (t div 20)" by (rule of_nat_less_imp_less)
    then show "1428 \<le> unat (t div 20)" by simp
  next
    assume "1428 \<le> unat (t div 20)"
    then have "(of_nat 1428 :: rat) \<le> of_nat (unat (t div 20))" by (rule of_nat_mono)
    then show "(of_nat (unat (t div 20)) :: rat) \<ge> 1150 * 4096 / 3300" by simp
  qed
  finally show ?thesis .
qed

lemma voltage_threshold_margin:
  "\<bar>voltage t - 1153 / 1000\<bar> > 1 / 10000" "\<bar>voltage t - 1168 / 1000\<bar> > 1 / 10000"
proof -
  let ?q = "unat (t div 20)"
  have q: "?q \<le> m \<Longrightarrow> (of_nat ?q :: rat) \<le> of_nat m" "m \<le> ?q \<Longrightarrow> (of_nat m :: rat) \<le> of_nat ?q" for m
    by (rule of_nat_mono, simp)+
  have "(of_nat ?q :: rat) \<le> 1408 \<or> 1409 \<le> (of_nat ?q :: rat)"
    using q [of 1408] q [of 1409] by (cases "?q \<le> 1408") simp_all
  then show "\<bar>voltage t - 1153 / 1000\<bar> > 1 / 10000"
    by (auto simp: voltage_def abs_if field_simps)
  have "(of_nat ?q :: rat) \<le> 1427 \<or> 1428 \<le> (of_nat ?q :: rat)"
    using q [of 1427] q [of 1428] by (cases "?q \<le> 1427") simp_all
  then show "\<bar>voltage t - 1168 / 1000\<bar> > 1 / 10000"
    by (auto simp: voltage_def abs_if field_simps)
qed

end
