(* ===== verification/RadioLink.thy ===== *)
theory RadioLink
  imports RadioQueue
begin

text \<open>
  The send side of the radio, \<open>src/radio/Radio_Encoder.c\<close>: the text of a frame
  (\<open>SendPrepare\<close>) and the send thread (\<open>rf_encode_entry\<close>), which repeats a frame that asks for
  an acknowledgement up to three times.

  The thread blocks between attempts, so that it is modelled by its steps: taking a message and
  sending it, and the end of a wait, by the acknowledgement or by the timeout.
\<close>

section \<open>Frames\<close>

definition hex_digit :: "uint8 \<Rightarrow> char" where
  "hex_digit v = char_of (unat (if v < 10 then v + 48 else v - 10 + 65))"

definition byte_sum :: "string \<Rightarrow> uint8" where
  "byte_sum t = foldl (\<lambda>acc c. acc + of_nat (of_char c)) 0 t"

text \<open>The 255-byte buffer after \<open>rt_memset\<close> and \<open>rt_sprintf\<close>.\<close>

definition text_buffer :: "string \<Rightarrow> string" where
  "text_buffer t = t @ replicate (255 - length t) (CHR 0x00)"

definition node_text :: "uint32 \<Rightarrow> uint32 \<Rightarrow> uint8 \<Rightarrow> uint8 \<Rightarrow> uint8 \<Rightarrow> string" where
  "node_text target self counter cmd data =
     ''{'' @ show_pad 8 (sint target) @ '','' @ show_pad 8 (sint self) @ '','' @ show_pad 3 (uint counter)
     @ '','' @ show_pad 2 (uint cmd) @ '','' @ show_int (uint data) @ ''}''"

definition node_buffer :: "string \<Rightarrow> string" where
  "node_buffer t =
     (let b = text_buffer t; check = byte_sum (take 28 b)
      in b[28 := hex_digit (check div 16), 29 := hex_digit (check mod 16), 30 := CHR 0x0D, 31 := CHR 0x0A])"

definition gateway_text :: "char \<Rightarrow> uint32 \<Rightarrow> uint32 \<Rightarrow> Radio_Normal_Format \<Rightarrow> string" where
  "gateway_text tag gid self m =
     [tag] @ ''{'' @ show_pad 2 (uint (Ack m)) @ '','' @ show_pad 8 (sint gid) @ '','' @ show_pad 8 (sint self)
     @ '','' @ show_pad 8 (sint (Payload_ID m)) @ '','' @ show_pad 3 (uint (rn_Rssi m)) @ '',''
     @ show_pad 3 (uint (Command m)) @ '','' @ show_pad 2 (uint (Data m)) @ ''}'' @ [tag]"

definition sync_text :: "uint32 \<Rightarrow> uint32 \<Rightarrow> Radio_Normal_Format \<Rightarrow> string" where
  "sync_text gid self m =
     ''A{'' @ show_pad 2 (uint (Ack m)) @ '','' @ show_pad 2 (uint (Command m)) @ '','' @ show_pad 8 (sint gid)
     @ '','' @ show_pad 8 (sint self) @ '','' @ show_pad 8 (sint (Payload_ID m)) @ '',''
     @ show_pad 3 (uint (rn_Rssi m)) @ '','' @ show_pad 2 (uint (Data m)) @ ''}A''"

definition put_buf :: "string \<Rightarrow> sys \<Rightarrow> sys" where
  "put_buf b = enc_update (radio_send_buf_update (\<lambda>_. b))"

definition blink_wifi :: "sys \<Rightarrow> sys" where
  "blink_wifi = reading (\<lambda>s. Gateway_ID (gw s)) (\<lambda>i. ui_update (wifi_communication_blink i))"

definition SendPrepare :: "Radio_Normal_Format \<Rightarrow> sys \<Rightarrow> sys" where
  "SendPrepare m =
     reading (\<lambda>s. (Gateway_ID (gw s), RadioID (enc s))) (\<lambda>(gid, self).
       if Type m = 0 then
         put_buf (node_buffer (node_text (Taget_ID m) self (Counter m + 1) (Command m) (Data m)))
       else if Type m = 1 then block [put_buf (text_buffer (sync_text gid self m)), blink_wifi]
       else if Type m = 2 then block [put_buf (text_buffer (gateway_text (CHR ''B'') gid self m)), blink_wifi]
       else if Type m = 3 then block [put_buf (text_buffer (gateway_text (CHR ''C'') gid self m)), blink_wifi]
       else put_buf (text_buffer []))"

section \<open>The send thread\<close>

definition rf_transmit :: "Radio_Normal_Format \<Rightarrow> sys \<Rightarrow> sys" where
  "rf_transmit m =
     block [enc_update (block [rf_ack_sem_update (\<lambda>_. False), rf_txdone_sem_update (\<lambda>_. False)]),
     SendPrepare m,
     reading (\<lambda>s. takeWhile (\<lambda>c. c \<noteq> CHR 0x00) (radio_send_buf (enc s)))
          (\<lambda>f. enc_update (sent_update (\<lambda>l. l @ [f])))]"

definition set_tx_wait :: "(Radio_Normal_Format \<times> nat) option \<Rightarrow> sys \<Rightarrow> sys" where
  "set_tx_wait w = enc_update (tx_wait_update (\<lambda>_. w))"

text \<open>\<open>rt_mq_recv\<close> returns a message: it is sent once, and then its acknowledgement is awaited.\<close>

definition rf_encode_start :: "sys \<Rightarrow> sys" where
  "rf_encode_start s =
     (case rf_en_mq (enc s) of
        Some (m # q) \<Rightarrow>
          (block [enc_update (rf_en_mq_update (\<lambda>_. Some q)), rf_transmit m,
           set_tx_wait (if Ack m \<noteq> 0 then Some (m, 1) else None)]) s
      | _ \<Rightarrow> s)"

text \<open>The wait for the acknowledgement ends: with it, or by the timeout, after which the frame is repeated.\<close>

definition rf_encode_wake :: "sys \<Rightarrow> sys" where
  "rf_encode_wake s =
     (case tx_wait (enc s) of
        None \<Rightarrow> s
      | Some (m, i) \<Rightarrow>
          if rf_ack_sem (enc s) then (block [enc_update (rf_ack_sem_update (\<lambda>_. False)), set_tx_wait None]) s
          else (block [rf_transmit m, set_tx_wait (if i < 3 then Some (m, i + 1) else None)]) s)"

definition rf_txdone_callback :: "sys \<Rightarrow> sys" where
  "rf_txdone_callback = enc_update (rf_txdone_sem_update (\<lambda>_. True))"

definition RadioQueue_Init :: "uint32 \<Rightarrow> sys \<Rightarrow> sys" where
  "RadioQueue_Init stored =
     enc_update (block [RadioID_update (\<lambda>_. if stored = 0xFFFFFFFF \<or> stored = 0 then 10000000 else stored),
       rf_en_mq_update (\<lambda>_. Some [])])"

section \<open>Repetitions\<close>

lemma rf_transmit_sel:
  "length (sent (enc (rf_transmit m s))) = Suc (length (sent (enc s)))" "tx_wait (enc (rf_transmit m s)) = tx_wait (enc s)"
  "\<not> rf_ack_sem (enc (rf_transmit m s))"
  by (simp_all add: rf_transmit_def SendPrepare_def put_buf_def blink_wifi_def)

lemma rf_encode_wake_cases:
  "tx_wait (enc s) = None \<Longrightarrow> rf_encode_wake s = s"
  "tx_wait (enc s) = Some (m, i) \<Longrightarrow> \<not> rf_ack_sem (enc s) \<Longrightarrow>
     rf_encode_wake s = (block [rf_transmit m, set_tx_wait (if i < 3 then Some (m, i + 1) else None)]) s"
  by (simp_all add: rf_encode_wake_def)

lemma wake_again:
  assumes "tx_wait (enc s) = Some (m, i)" "\<not> rf_ack_sem (enc s)" "i \<le> 3"
  shows "length (sent (enc ((rf_encode_wake ^^ n) s))) = length (sent (enc s)) + min n (4 - i) \<and>
    tx_wait (enc ((rf_encode_wake ^^ n) s)) = (if n < 4 - i then Some (m, i + n) else None) \<and>
    \<not> rf_ack_sem (enc ((rf_encode_wake ^^ n) s))"
proof (induction n)
  case 0
  then show ?case using assms by simp
next
  case (Suc n)
  let ?s = "(rf_encode_wake ^^ n) s"
  show ?case
  proof (cases "n < 4 - i")
    case True
    then have w: "rf_encode_wake ?s = (block [rf_transmit m, set_tx_wait (if i + n < 3 then Some (m, i + n + 1) else None)]) ?s"
      using Suc rf_encode_wake_cases(2) [of ?s m "i + n"] by simp
    then show ?thesis using Suc True by (auto simp: set_tx_wait_def rf_transmit_sel)
  next
    case False
    then have "rf_encode_wake ?s = ?s" using Suc by (intro rf_encode_wake_cases) simp
    then show ?thesis using Suc False by simp
  qed
qed

end
