(* ===== verification/Safety.thy ===== *)
theory Safety
  imports ValveRefine WaterScan KeyHandling Periodic RadioLink
begin

text \<open>
  Every handler of the firmware keeps the system invariant \<open>sys_inv\<close>: the base invariant and the
  safety of the valve. The proofs follow the text of the handlers with the rules of the collection
  \<open>keeps\<close>; the handlers that act on the valve use their refinement.
\<close>

section \<open>Rules\<close>

lemma keeps_ui [keeps]: "led_safe f \<Longrightarrow> keeps_inv (sys_inv X) (ui_update f)"
  by (rule keeps_neutral) (rule refines_ui)

lemmas keeps_uplink [keeps] = refines_uplink [THEN keeps_neutral]

lemmas keeps_fields [keeps] = refines_fields(4-9) [THEN keeps_neutral]

lemma keeps_event [keeps]: "(\<And>e. priority e \<le> 8 \<Longrightarrow> priority (f e) \<le> 8) \<Longrightarrow>
    keeps_inv (sys_inv X) (sta_update (NowStatusEvent_update f))"
  by (intro keeps_neutral refines_fields(3))

lemma keeps_set_Now_Status [keeps]: "\<not> shut_status st \<Longrightarrow> keeps_inv (sys_inv X) (set_Now_Status st)"
  by (rule keeps_refines, rule refines_fields, rule a_set_safe) blast+

lemma keeps_work [keeps]:
  "(\<And>w. Water_Alarm_Pause (f w) = Water_Alarm_Pause w) \<Longrightarrow> keeps_inv (sys_inv X) (wk_update f)"
  by (rule keeps_neutral) (rule refines_work)

definition self_test_timer :: "timer \<Rightarrow> bool" where
  "self_test_timer t \<longleftrightarrow> t \<in> set [Moto1_Timer_Act, Moto2_Timer_Act, Moto1_Timer_Detect, Moto2_Timer_Detect]"

lemma v_timer_other: "\<not> self_test_timer t \<Longrightarrow> v_timer t b = id"
  by (cases t) (simp_all add: v_timer_def self_test_timer_def)

lemma keeps_timer [keeps]:
  assumes "t \<noteq> Factory_Cycle" "\<not> self_test_timer t"
  shows "keeps_inv (sys_inv X) (on_board (rt_timer_start t))" "keeps_inv (sys_inv X) (on_board (rt_timer_stop t))"
proof -
  have "t \<in> M" if "ALL_TIMERS \<subseteq> M" for M using that assms(1) by (auto simp: ALL_TIMERS_def)
  then show "keeps_inv (sys_inv X) (on_board (rt_timer_start t))" "keeps_inv (sys_inv X) (on_board (rt_timer_stop t))"
    using refines_timer_start refines_timer_stop v_timer_other [OF assms(2)]
    by (metis keeps_neutral)+
qed

lemma keeps_dev: "table_operation f \<Longrightarrow> keeps_inv (sys_inv X) (dev_update f)"
  by (intro keeps_neutral refines_dev)

lemma keeps_use_dev [keeps]:
  assumes "keeps_inv (sys_inv X) (do_dev f)" "\<And>r. keeps_inv (sys_inv X) (g r)"
  shows "keeps_inv (sys_inv X) (use_dev f g)"
  using assms by (simp add: keeps_inv_def use_dev_def)

lemma keeps_table_ops [keeps]:
  "keeps_inv (sys_inv X) (do_dev (Device_AliveChange i v))" "keeps_inv (sys_inv X) (do_dev (Update_Device_Bat i v))"
  "keeps_inv (sys_inv X) (do_dev (Update_Device_Rssi i r))"
  "keeps_inv (sys_inv X) (do_dev (Flash_Set_SlaveAlarmFlag i v))"
  "keeps_inv (sys_inv X) (do_dev (Clear_Device_Time i))" "keeps_inv (sys_inv X) (do_dev (Delete_Device i))"
  "keeps_inv (sys_inv X) (do_dev (Add_Device i))" "keeps_inv (sys_inv X) (do_dev (Add_GatewayDevice i))"
  "keeps_inv (sys_inv X) (do_dev (Add_DoorDevice_table i))"
  unfolding do_dev_def
  by (rule keeps_dev, rule alive.table_operation_axioms bat.table_operation_axioms rssi.table_operation_axioms
      alarm.table_operation_axioms clear_time.table_operation_axioms remove.table_operation_axioms
      enrol.table_operation_axioms enrol_gateway.table_operation_axioms enrol_door.table_operation_axioms)+

section \<open>Status and valve\<close>

lemma keeps_valve [keeps]:
  "a \<noteq> OtherOff \<Longrightarrow> keeps_inv (sys_inv X) (Moto_Open a)"
  "a \<noteq> OtherOff \<Longrightarrow> keeps_inv (sys_inv X) (Moto_InitOpen a)"
  "keeps_inv (sys_inv X) (Moto_Close a)" "keeps_inv (sys_inv X) Moto_Detect"
  "keeps_inv (sys_inv X) Moto_Detect_Timer_Callback"
  unfolding Moto_Detect_Timer_Callback_def
  by (rule keeps_refines, (rule refines_Moto_Open [OF valve_timers_all] refines_Moto_InitOpen
        refines_Moto_Close [OF valve_timers_all] refines_Moto_Detect [OF valve_timers_all]; assumption),
      simp add: a_open_safe a_close_safe a_detect_safe)+

lemma keeps_normal [keeps]:
  "keeps_inv (sys_inv X) BackToNormal" "keeps_inv (sys_inv X) Warning_Disable"
  "keeps_inv (sys_inv X) Delay_Timer_Stop" "keeps_inv (sys_inv X) WaterScan_Clear"
  "keeps_inv (sys_inv X) Turn1_Edge_Callback" "keeps_inv (sys_inv X) Turn2_Edge_Callback"
  by (rule keeps_refines, (rule refines_BackToNormal refines_Warning_Disable
      refines_Delay_Timer_Stop [OF valve_timers_all] refines_WaterScan_Clear refines_Edge_Callbacks; assumption),
      simp add: a_normal_safe)+

lemma keeps_run_callback [keeps]: "keeps_inv (sys_inv X) (run_callback cb)"
  by (rule keeps_refines, rule refines_run_callback [OF valve_timers_all], assumption, rule a_warning_safe)

lemma keeps_Warning_Enable: "priority ev \<le> 8 \<Longrightarrow> keeps_inv (sys_inv X) (Warning_Enable ev)"
  unfolding Warning_Enable_def by (cases "callback ev") (auto intro!: keeps)

lemma priority_initial [simp]: "priority (initial_events w) \<le> 8"
  by (cases w) (simp_all add: initial_events_def WarningEventInit_def)

lemma keeps_Warning_Enable_Num [keeps]: "keeps_inv (sys_inv X) (Warning_Enable_Num k)"
proof (rule keeps_invI)
  fix s assume s: "sys_inv X s"
  then have "events (sta s) = initial_events" by (auto simp: sys_inv_def base_ok_def)
  then show "sys_inv X (Warning_Enable_Num k s)"
    using s keeps_invD [OF keeps_Warning_Enable [OF priority_initial] s]
    by (simp add: Warning_Enable_Num_def split: option.split)
qed

lemma keeps_remote [keeps]:
  "keeps_inv (sys_inv X) Delay_Timer_Callback" "keeps_inv (sys_inv X) Remote_Open"
  "keeps_inv (sys_inv X) Remote_Close" "keeps_inv (sys_inv X) (Delay_Timer_OpenDoor i)"
  "keeps_inv (sys_inv X) (Delay_Timer_CloseDoor i)" "keeps_inv (sys_inv X) OfflineDisableWarning"
  "keeps_inv (sys_inv X) MasterStatusChangeToDeAvtive"
  unfolding Delay_Timer_Callback_def Remote_Open_def Remote_Close_def Delay_Timer_OpenDoor_def
    Delay_Timer_CloseDoor_def OfflineDisableWarning_def MasterStatusChangeToDeAvtive_def
  by (intro keeps; simp add: self_test_timer_def shut_status_def)+

section \<open>Gateway, supervision, water sensor\<close>

lemma keeps_gateway [keeps]:
  "keeps_inv (sys_inv X) (report_valve a i c)"
  "keeps_inv (sys_inv X) Gateway_Sync_Callback" "keeps_inv (sys_inv X) (Heart_Refresh i)"
  "keeps_inv (sys_inv X) Heart_Check" "keeps_inv (sys_inv X) load_Gateway_ID" "keeps_inv (sys_inv X) Heart_Test_Start"
  unfolding report_valve_def Gateway_Sync_Callback_def Heart_Refresh_def Heart_Check_def
    load_Gateway_ID_def Heart_Test_Start_def
  by (intro keeps led_safe_intros; simp add: self_test_timer_def)+

lemma keeps_PowerOn_Upload [keeps]: "keeps_inv (sys_inv X) PowerOn_Upload"
  unfolding PowerOn_Upload_def by (rule keeps_inv_reading) (auto intro!: keeps split: Device_Status.split)

lemma keeps_gateway_high [keeps]:
  "keeps_inv (sys_inv X) Gateway_Sync" "keeps_inv (sys_inv X) Heart_Test" "keeps_inv (sys_inv X) Gateway_Reload"
  unfolding Gateway_Sync_def Heart_Test_def Gateway_Reload_def
  by (intro keeps led_safe_intros; simp add: self_test_timer_def)+

lemma keeps_report_offline [keeps]: "keeps_inv (sys_inv X) (report_offline i)"
  unfolding report_offline_def by (intro keeps)

lemma sys_inv_detect_slot: "sys_inv X s \<Longrightarrow> sys_inv X (snd (detect_slot n (w, s)))"
  using keeps_invD [OF keeps_report_offline] by (simp add: detect_slot_def Let_def)

lemma sys_inv_detect_slots: "sys_inv X s \<Longrightarrow> sys_inv X (snd (fold detect_slot ns (w, s)))"
proof (induction ns arbitrary: w s)
  case (Cons n ns)
  then show ?case using sys_inv_detect_slot [of X s n w] by (cases "detect_slot n (w, s)") simp
qed simp

lemma keeps_dev_times [keeps]:
  "keeps_inv (sys_inv X) (dev_update Update_All_Time)" "keeps_inv (sys_inv X) (dev_update Clear_All_Time)"
  by (rule keeps_dev, rule tick_times.table_operation_axioms clear_times.table_operation_axioms)+

lemma erase_table_sel:
  "LastFlag (Global_Device (erase_table d)) = 0" "saved_flag (erase_table d) = map_option (\<lambda>_. 0) (saved_flag d)"
  "table_ok d \<Longrightarrow> table_ok (erase_table d)"
  using erase_table_keeps [of d]
  by (simp_all add: table_ok_def saved_flag_def,
      simp_all add: erase_table_def Device_Info_zero_def getter_defs read_key_def ef_get_env_blob_def
        ef_env_set_default_def default_env_set_def ef_usable_def)

lemma keeps_supervision [keeps]:
  "keeps_inv (sys_inv X) Detect_All_Time" "keeps_inv (sys_inv X) Offline_React"
  "keeps_inv (sys_inv X) (dev_update erase_table)"
proof -
  show "keeps_inv (sys_inv X) (dev_update erase_table)"
  proof (rule keeps_refines)
    fix M
    show "refines M (dev_update erase_table) (\<lambda>v. v\<lparr>v_last := 0, v_saved := map_option (\<lambda>_. 0) (v_saved v)\<rparr>)"
      by (rule refinesI) (simp_all add: base_ok_def view_def queue_ok_def erase_table_sel)
  qed (auto simp: valve_safe_def self_test_runs_def)
  show "keeps_inv (sys_inv X) Offline_React"
    by (rule keeps_invI) (simp add: Offline_React_def keeps_invD [OF keeps_remote(6)])
  show "keeps_inv (sys_inv X) Detect_All_Time"
  proof (rule keeps_invI)
    fix s assume s: "sys_inv X s"
    obtain w s1 where p: "fold detect_slot (rev (slots (num16 (dev s)))) (False, s) = (w, s1)" by fastforce
    have s1: "sys_inv X s1"
      using sys_inv_detect_slots [OF s, of "rev (slots (num16 (dev s)))" False] unfolding p by simp
    have "keeps_inv (sys_inv X) (block [(if w then Warning_Enable_Num 5 else id), dev_update Clear_All_Time])"
      by (intro keeps)
    from keeps_invD [OF this s1] s show "sys_inv X (Detect_All_Time s)"
      by (simp only: Detect_All_Time_def p Let_def prod.case split: if_split) simp
  qed
qed

lemma keeps_DeleteAllDevice [keeps]: "keeps_inv (sys_inv X) DeleteAllDevice"
  unfolding DeleteAllDevice_def by (intro keeps)

lemma keeps_Add_DoorDevice [keeps]:
  "(\<And>r. keeps_inv (sys_inv X) (k r)) \<Longrightarrow> keeps_inv (sys_inv X) (Add_DoorDevice i k)"
  unfolding Add_DoorDevice_def by (intro keeps)

lemma keeps_WarningWithPeak [keeps]: "keeps_inv (sys_inv X) (WarningWithPeak k)"
  unfolding WarningWithPeak_def by (intro keeps led_safe_intros)

lemma keeps_water [keeps]: "keeps_inv (sys_inv X) waterscan_timer_callback"
  unfolding waterscan_timer_callback_def water_transition_def report_change_def set_past_def set_WarningStatus_def
  by (auto intro!: keeps)

section \<open>Radio frames and keys\<close>

lemma keeps_learn [keeps]:
  "keeps_inv (sys_inv X) Start_Learn" "keeps_inv (sys_inv X) Start_Learn_Key" "keeps_inv (sys_inv X) Stop_Learn"
  "keeps_inv (sys_inv X) (learn_ack m d)" "keeps_inv (sys_inv X) (after_add m r)"
  unfolding Start_Learn_def Start_Learn_Key_def Stop_Learn_def learn_ack_def after_add_def
  by (intro keeps led_safe_intros; simp add: self_test_timer_def shut_status_def)+

lemma keeps_Device_Learn [keeps]: "keeps_inv (sys_inv X) (Device_Learn m)"
  unfolding Device_Learn_def
  by (intro keeps keeps_learn led_safe_intros; simp add: self_test_timer_def)

lemma keeps_solvers [keeps]:
  "keeps_inv (sys_inv X) (answer m c d)" "keeps_inv (sys_inv X) (report_remote m)"
  "keeps_inv (sys_inv X) (solve_handshake m)" "keeps_inv (sys_inv X) (solve_alarm m)"
  unfolding answer_def report_remote_def solve_handshake_def solve_alarm_def
  by (intro keeps)+

lemma keeps_solvers_valve [keeps]:
  "keeps_inv (sys_inv X) (solve_open m)" "keeps_inv (sys_inv X) (solve_close m)" "keeps_inv (sys_inv X) (solve_delay m)"
  unfolding solve_open_def solve_close_def solve_delay_def
  by (intro keeps led_safe_intros; simp)+

lemma keeps_DataSolve [keeps]: "keeps_inv (sys_inv X) (DataSolve m)"
  unfolding DataSolve_def by (intro keeps)

lemma keeps_ack [keeps]: "keeps_inv (sys_inv X) rf_recvack_callback"
  unfolding rf_recvack_callback_def
  by (intro keeps_neutral refines_radio radio_only_enc_update [OF refl]) (simp_all add: queue_ok_def)

lemma keeps_gateway_command [keeps]:
  "keeps_inv (sys_inv X) (gateway_valve m)" "keeps_inv (sys_inv X) (gateway_command m)" "keeps_inv (sys_inv X) blink"
  unfolding gateway_valve_def gateway_command_def blink_def
  by (intro keeps led_safe_intros)+

lemma keeps_frames [keeps]:
  "keeps_inv (sys_inv X) (GatewayDataSolve g b n)" "keeps_inv (sys_inv X) (NormalSolve g r b n)"
  "keeps_inv (sys_inv X) (rf433_rx_callback g r b n)"
proof -
  have f: "keeps_inv (sys_inv X) (factory_rssi r)" "keeps_inv (sys_inv X) (touch_device m r)" for m r
    unfolding factory_rssi_def touch_device_def by (intro keeps led_safe_intros)+
  show g: "keeps_inv (sys_inv X) (GatewayDataSolve g b n)" and n: "keeps_inv (sys_inv X) (NormalSolve g r b n)"
    unfolding GatewayDataSolve_def NormalSolve_def Let_def by (intro keeps f)+
  show "keeps_inv (sys_inv X) (rf433_rx_callback g r b n)"
    unfolding rf433_rx_callback_def by (intro keeps g n)
qed

lemma keeps_key_on [keeps]: "keeps_inv (sys_inv X) (key_on st)"
  by (cases st) (simp_all add: key_on_def, (intro keeps led_safe_intros; simp add: shut_status_def)+)

lemma keeps_key_off [keeps]: "keeps_inv (sys_inv X) (key_off st)"
proof (cases st)
  case MasterLostPeak
  have r: "ALL_TIMERS \<subseteq> M \<Longrightarrow> refines M (block [ui_update key_down, Moto_Close NormalOff, ui_update beep_stop, set_Now_Status Close])
      (block [id, a_close NormalOff, id, a_set Close])" for M
    by (intro refines_block refines_Moto_Close valve_timers_all refines_fields refines_ui led_safe_intros)
  show ?thesis
    using keeps_refines [OF r] by (simp add: key_off_def MasterLostPeak a_close_set_safe)
next
  case MasterWaterAlarmDeActive
  have r: "ALL_TIMERS \<subseteq> M \<Longrightarrow> refines M (block [ui_update key_down, set_Now_Status Close, Warning_Disable, WarUpload_GW 1 0 1 0])
      (block [id, a_set Close, a_normal, id])" for M
    by (intro refines_block refines_Warning_Disable refines_fields refines_ui refines_uplink led_safe_intros)
  show ?thesis
    using keeps_refines [OF r] by (simp add: key_off_def MasterWaterAlarmDeActive vview_defs)
qed (simp_all add: key_off_def, (intro keeps led_safe_intros)+)

lemma keeps_key_long [keeps]:
  "keeps_inv (sys_inv X) key_off_long" "keeps_inv (sys_inv X) Learn_Timer_Callback"
  unfolding key_off_long_def Learn_Timer_Callback_def
  by (intro keeps; simp add: self_test_timer_def shut_status_def)+

lemma kernel_ok_sem: "kernel_ok M X b \<Longrightarrow> kernel_ok M X (snd (rt_sem_take m b))"
  "kernel_ok M X b \<Longrightarrow> kernel_ok M X (rt_sem_release m b)"
  by (simp_all add: kernel_ok_def timer_made_def timer_active_def)

lemma pin_read_sem [simp]: "rt_pin_read p (snd (rt_sem_take m b)) = rt_pin_read p b"
  "rt_pin_read p (rt_sem_release m b) = rt_pin_read p b"
  by (auto simp: rt_pin_read_def rt_sem_take_def rt_sem_release_def split: option.split)

lemma refines_sem: "refines M (on_board (\<lambda>b. snd (rt_sem_take m b))) id" "refines M (on_board (rt_sem_release m)) id"
  by (rule refinesI; simp add: base_ok_board base_ok_def kernel_ok_sem leds_ok_def queue_ok_def view_def timer_active_def)+

lemma on_board_cong: "f (board_of s) = g (board_of s) \<Longrightarrow> on_board f s = on_board g s"
proof -
  assume eq: "f (board_of s) = g (board_of s)"
  have "bd_update f (ui s) = bd_update g (ui s)"
    using eq by (cases "ui s") simp
  then show ?thesis by (cases s) simp
qed

lemma take_into_eq:
  "take_into m upd = reading (\<lambda>s. fst (rt_sem_take m (board_of s)))
     (\<lambda>ok. block [on_board (\<lambda>b. snd (rt_sem_take m b)), ky_update (upd (\<lambda>_. if ok then 0 else 254))])"
  by (rule ext) (simp add: take_into_def split: prod.split)

lemma keeps_take_keys [keeps]: "keeps_inv (sys_inv X) take_keys"
  unfolding take_keys_def take_into_eq
  by (intro keeps refines_sem [THEN keeps_neutral] refines_key [THEN keeps_neutral]) simp_all

lemma keeps_factory [keeps]:
  "keeps_inv (sys_inv X) Stop_Factory_Cycle" "keeps_inv (sys_inv X) Start_Factory_Cycle"
  "keeps_inv (sys_inv X) Factory_Cycle_Callback"
proof -
  have "refines M Stop_Factory_Cycle id" "refines M Start_Factory_Cycle id" for M
    unfolding Stop_Factory_Cycle_def Start_Factory_Cycle_def
    by (rule refinesI; simp add: cond_def base_ok_board base_ok_def kernel_ok_stop kernel_ok_start view_def
        timer_active_stop timer_active_start leds_ok_def queue_ok_def)+
  then show "keeps_inv (sys_inv X) Stop_Factory_Cycle" "keeps_inv (sys_inv X) Start_Factory_Cycle"
    by (simp_all add: keeps_neutral)
  show "keeps_inv (sys_inv X) Factory_Cycle_Callback"
    unfolding Factory_Cycle_Callback_def by (intro keeps)
qed

lemma sys_inv_key_round: "sys_inv X s \<Longrightarrow> sys_inv X (snd (key_round s))"
proof -
  assume "sys_inv X s"
  then have t: "sys_inv X (take_keys s)" by (rule keeps_invD [OF keeps_take_keys])
  have k: "keeps_inv (sys_inv X) (block [Stop_Factory_Cycle, Warning_Disable, Moto_Detect])"
    "keeps_inv (sys_inv X) (block [DeleteAllDevice, ui_update (beep_start 0 8)])"
    by (intro keeps led_safe_intros)+
  show ?thesis
    using t keeps_invD [OF k(1) t] keeps_invD [OF k(2) t] keeps_invD [OF keeps_key_on t]
      keeps_invD [OF keeps_key_off t] keeps_invD [OF keeps_key_long(1) t]
    by (simp add: key_round_def Let_def)
qed

section \<open>Periodic activities and the send thread\<close>

lemma keeps_ntc [keeps]: "keeps_inv (sys_inv X) ntc_scan_timer_callback"
proof -
  have calc: "sys_inv X s \<Longrightarrow> sys_inv X (snd (ADC_Voltage_Calc s))" for s
    using keeps_invD [OF keeps_fields(5)] by (simp add: ADC_Voltage_Calc_def Let_def)
  have k: "keeps_inv (sys_inv X) (block [reading (\<lambda>s. ValveStatus (ky s)) NTC_State_Save, Warning_Enable_Num 8])"
    "keeps_inv (sys_inv X) (block [WarUpload_GW 1 0 8 0, Warning_Disable,
       cond (\<lambda>s. NTC_State_read s \<noteq> 0) (Moto_Open NormalOpen) (Moto_Close NormalOff)])"
    unfolding NTC_State_Save_def by (intro keeps; simp)+
  show ?thesis
  proof (rule keeps_invI)
    fix s0 assume "sys_inv X s0"
    define s where "s = snd (ADC_Voltage_Calc s0)"
    define s1 where "s1 = (if fst (ADC_Voltage_Calc s0) < 1153 / 1000 \<and> Now_Status (sta s) \<noteq> NTCWarning
      then (block [reading (\<lambda>s. ValveStatus (ky s)) NTC_State_Save, Warning_Enable_Num 8]) s else s)"
    define s2 where "s2 = snd (ADC_Voltage_Calc s1)"
    have "sys_inv X s" unfolding s_def by (rule calc) fact
    then have "sys_inv X s1" unfolding s1_def using keeps_invD [OF k(1)] by simp
    then have "sys_inv X s2" unfolding s2_def by (rule calc)
    with keeps_invD [OF k(2) this] show "sys_inv X (ntc_scan_timer_callback s0)"
      unfolding ntc_scan_timer_callback_def Let_def s2_def s1_def s_def case_prod_beta by presburger
  qed
qed

lemma keeps_rtc [keeps]: "keeps_inv (sys_inv X) HAL_RTC_AlarmAEventCallback" "keeps_inv (sys_inv X) rtc_hour"
  "keeps_inv (sys_inv X) RTC_Timer_round"
proof -
  show h: "keeps_inv (sys_inv X) rtc_hour" unfolding rtc_hour_def by (intro keeps)
  show "keeps_inv (sys_inv X) HAL_RTC_AlarmAEventCallback"
    unfolding HAL_RTC_AlarmAEventCallback_def by (intro keeps refines_sem [THEN keeps_neutral])
  have eq: "RTC_Timer_round = reading (\<lambda>s. fst (rt_sem_take RTC_IRQ_Sem (board_of s)))
      (\<lambda>ok. block [on_board (\<lambda>b. snd (rt_sem_take RTC_IRQ_Sem b)), (if ok then rtc_hour else id)])"
    by (rule ext) (auto simp: RTC_Timer_round_def split: prod.split
        intro!: arg_cong [where f = rtc_hour] on_board_cong)
  show "keeps_inv (sys_inv X) RTC_Timer_round"
    unfolding eq by (intro keeps h refines_sem [THEN keeps_neutral])
qed

lemma keeps_enc: "(\<And>e. RadioID (f e) = RadioID e) \<Longrightarrow> (\<And>e. rf_en_mq (f e) = rf_en_mq e) \<Longrightarrow>
    keeps_inv (sys_inv X) (enc_update f)"
  by (intro keeps_neutral refines_radio radio_only_enc_update [OF refl]) (simp_all add: queue_ok_def)

lemma keeps_transmit [keeps]: "keeps_inv (sys_inv X) (SendPrepare m)" "keeps_inv (sys_inv X) (rf_transmit m)"
  "keeps_inv (sys_inv X) (set_tx_wait w)" "keeps_inv (sys_inv X) rf_txdone_callback"
proof -
  show s: "keeps_inv (sys_inv X) (SendPrepare m)"
    unfolding SendPrepare_def put_buf_def blink_wifi_def
    by (intro keeps keeps_enc led_safe_intros) simp_all
  show "keeps_inv (sys_inv X) (rf_transmit m)" unfolding rf_transmit_def by (intro keeps keeps_enc s) simp_all
  show "keeps_inv (sys_inv X) (set_tx_wait w)" "keeps_inv (sys_inv X) rf_txdone_callback"
    unfolding set_tx_wait_def rf_txdone_callback_def by (rule keeps_enc; simp)+
qed

lemma keeps_rf_encode [keeps]: "keeps_inv (sys_inv X) rf_encode_start" "keeps_inv (sys_inv X) rf_encode_wake"
proof -
  have pop: "sys_inv X (enc_update (rf_en_mq_update (\<lambda>_. Some q)) s)"
    if s: "sys_inv X s" and q: "rf_en_mq (enc s) = Some (m # q)" for s m q
  proof -
    let ?s = "enc_update (rf_en_mq_update (\<lambda>_. Some q)) s"
    have "base_ok M X ?s" if "base_ok M X s" for M
      using that q by (simp add: base_ok_def queue_ok_def)
    moreover have "view ?s = view s" by (simp add: view_def)
    ultimately show ?thesis using s unfolding sys_inv_def by metis
  qed
  have k: "keeps_inv (sys_inv X) (block [rf_transmit m, set_tx_wait w])" for m w by (intro keeps)
  show "keeps_inv (sys_inv X) rf_encode_start"
    by (rule keeps_invI)
      (auto simp: rf_encode_start_def dest: pop split: option.split list.split intro: keeps_invD [OF k, simplified])
  have w: "keeps_inv (sys_inv X) (block [enc_update (rf_ack_sem_update (\<lambda>_. False)), set_tx_wait None])"
    by (intro keeps keeps_enc) simp_all
  show "keeps_inv (sys_inv X) rf_encode_wake"
    by (rule keeps_invI)
      (auto simp: rf_encode_wake_def split: option.split prod.split
        intro: keeps_invD [OF k, simplified] keeps_invD [OF w, simplified])
qed

end
