(* ===== verification/Buttons.thy ===== *)
theory Buttons
  imports Valve
begin

text \<open>
  The key task of \<open>src/applications/device.c\<close>: the callbacks of the two buttons, which turn presses
  into semaphore releases (a simultaneous long press of both keys is the factory reset), the levels of
  the keys with the pause of the self test, and the antenna switch.
\<close>

section \<open>Callbacks\<close>

definition K0_Sem_Release :: "sys \<Rightarrow> sys" where
  "K0_Sem_Release = on_board (rt_sem_release K0_Sem)"

definition K1_Sem_Release :: "sys \<Rightarrow> sys" where
  "K1_Sem_Release = on_board (rt_sem_release K1_Sem)"

definition K0_LongSem_Release :: "sys \<Rightarrow> sys" where
  "K0_LongSem_Release =
     cond (\<lambda>s. K0_OnceFlag (btn s) = 0)
       (cond (\<lambda>s. K0_Long_Sem_Counter (btn s) > 6)
          (cond (\<lambda>s. K1_Long_Sem_Counter (btn s) = 0)
             (block [btn_update (K0_OnceFlag_update (\<lambda>_. 1)), on_board (rt_sem_release K0_Long_Sem)]) id)
          (btn_update (K0_Long_Sem_Counter_update (\<lambda>c. c + 1))))
       id"

definition K1_LongSem_Release :: "sys \<Rightarrow> sys" where
  "K1_LongSem_Release =
     cond (\<lambda>s. K1_OnceFlag (btn s) = 0)
       (cond (\<lambda>s. K1_Long_Sem_Counter (btn s) > 6)
          (block [btn_update (K1_OnceFlag_update (\<lambda>_. 1)),
           cond (\<lambda>s. K0_Long_Sem_Counter (btn s) > 5)
                (on_board (rt_sem_release K0_K1_Long_Sem))
                (on_board (rt_sem_release K1_Long_Sem))])
          (btn_update (K1_Long_Sem_Counter_update (\<lambda>c. c + 1))))
       id"

definition k0_K1_LongSem_Release :: "sys \<Rightarrow> sys" where
  "k0_K1_LongSem_Release =
     cond (\<lambda>s. K0_K1_OnceFlag (btn s) = 0)
       (block [btn_update (K0_K1_OnceFlag_update (\<lambda>_. 1)), on_board (rt_sem_release K0_K1_Long_Sem)]) id"

definition K0_LongFree_Release :: "sys \<Rightarrow> sys" where
  "K0_LongFree_Release = btn_update (block [K0_OnceFlag_update (\<lambda>_. 0), K0_K1_OnceFlag_update (\<lambda>_. 0),
     K0_Long_Sem_Counter_update (\<lambda>_. 0)])"

definition K1_LongFree_Release :: "sys \<Rightarrow> sys" where
  "K1_LongFree_Release = btn_update (block [K1_OnceFlag_update (\<lambda>_. 0), K1_Long_Sem_Counter_update (\<lambda>_. 0)])"

text \<open>\<open>Button_Attach\<close>: which callback belongs to which event.\<close>

definition k0_event :: "Button_Event \<Rightarrow> sys \<Rightarrow> sys" where
  "k0_event ev = (case ev of BUTTON_DOWM \<Rightarrow> K0_Sem_Release | BUTTON_LONG \<Rightarrow> K0_LongSem_Release
     | BUTTON_LONG_FREE \<Rightarrow> K0_LongFree_Release | _ \<Rightarrow> id)"

definition k1_event :: "Button_Event \<Rightarrow> sys \<Rightarrow> sys" where
  "k1_event ev = (case ev of BUTTON_DOWM \<Rightarrow> K1_Sem_Release | BUTTON_LONG \<Rightarrow> K1_LongSem_Release
     | BUTTON_LONG_FREE \<Rightarrow> K1_LongFree_Release | _ \<Rightarrow> id)"

section \<open>The task\<close>

definition Key_Pin_Init :: "sys \<Rightarrow> sys" where
  "Key_Pin_Init = on_board (block [rt_pin_mode K0 PIN_MODE_INPUT, rt_pin_mode K1 PIN_MODE_INPUT,
     rt_pin_mode ANT_INT PIN_MODE_OUTPUT, rt_pin_mode ANT_EXT PIN_MODE_OUTPUT,
     rt_pin_mode ANT_SW PIN_MODE_INPUT])"

definition Read_K0_Level :: "sys \<Rightarrow> uint8" where
  "Read_K0_Level s = (if Key_Pause_Flag (btn s) \<noteq> 0 then 1 else of_bool (rt_pin_read K0 (board_of s)))"

definition Read_K1_Level :: "sys \<Rightarrow> uint8" where
  "Read_K1_Level s = (if Key_Pause_Flag (btn s) \<noteq> 0 then 1 else of_bool (rt_pin_read K1 (board_of s)))"

definition select_antenna :: "sys \<Rightarrow> sys" where
  "select_antenna =
     reading (\<lambda>s. ANT_SW_Status (btn s)) (\<lambda>v.
       block [on_board (rt_pin_write ANT_EXT (v = 0)), on_board (rt_pin_write ANT_INT (v \<noteq> 0))])"

definition RF_Switch_Pin_Init :: "sys \<Rightarrow> sys" where
  "RF_Switch_Pin_Init =
     block [reading (\<lambda>s. of_bool (rt_pin_read ANT_SW (board_of s))) (\<lambda>v. btn_update (ANT_SW_Status_update (\<lambda>_. v))),
     select_antenna]"

definition RF_Switch :: "sys \<Rightarrow> sys" where
  "RF_Switch =
     block [reading (\<lambda>s. of_bool (rt_pin_read ANT_SW (board_of s))) (\<lambda>v. btn_update (ANT_SW_Status_Temp_update (\<lambda>_. v))),
     cond (\<lambda>s. ANT_SW_Status_Temp (btn s) \<noteq> ANT_SW_Status (btn s))
          (block [reading (\<lambda>s. ANT_SW_Status_Temp (btn s)) (\<lambda>v. btn_update (ANT_SW_Status_update (\<lambda>_. v))),
           select_antenna, ui_update ring_once])
          id]"

text \<open>\<open>Button_Process\<close>: \<open>Add_Button\<close> links at the head, so that the second button comes first.\<close>

definition process_key1 :: "sys \<Rightarrow> sys" where
  "process_key1 = reading (\<lambda>s. Button_Cycle_Process (Read_K1_Level s) (Key1 (btn s)))
     (\<lambda>(b, evs). block [btn_update (Key1_update (\<lambda>_. b)), fold k1_event evs])"

definition process_key0 :: "sys \<Rightarrow> sys" where
  "process_key0 = reading (\<lambda>s. Button_Cycle_Process (Read_K0_Level s) (Key0 (btn s)))
     (\<lambda>(b, evs). block [btn_update (Key0_update (\<lambda>_. b)), fold k0_event evs])"

definition button_task_init :: "sys \<Rightarrow> sys" where
  "button_task_init = block [Key_Pin_Init, RF_Switch_Pin_Init,
     btn_update (block [Key0_update (\<lambda>_. Button_Create 0), Key1_update (\<lambda>_. Button_Create 0)])]"

definition button_task_round :: "sys \<Rightarrow> sys" where
  "button_task_round = block [RF_Switch, process_key1, process_key0]"

end
