(* ===== verification/System.thy ===== *)
theory System
  imports Safety Buttons
begin

text \<open>
  The running firmware: the start-up sequence of \<open>main.c\<close> and the activities that interleave
  after it (the soft timers, the threads, the interrupts, the radio, and the environment), as a step
  relation on the state. A step is one activity from wake-up to the next blocking call, such as one
  callback of a timer or one round of a thread's loop.
\<close>

section \<open>Start-up\<close>

text \<open>
  What the hardware has at power-on: input levels, the contents of fresh heap memory, whether the SPI
  flash answers and the store comes up, and the radio identifier programmed at \<open>0x0801FFF0\<close>.
\<close>

record hardware =
  hw_pins :: "nat \<Rightarrow> bool"
  hw_mem :: "led \<Rightarrow> agile_led"
  hw_probe :: bool
  hw_store :: bool
  hw_id :: uint32

definition cold_board :: "(nat \<Rightarrow> bool) \<Rightarrow> board" where
  "cold_board ins = \<lparr>tick = 0, pin_in = ins, pin_out = (\<lambda>_. False), mode_of = (\<lambda>_. PIN_MODE_INPUT),
     pin_irq = (\<lambda>_. False), timers = (\<lambda>_. None), soft_timer_list = [], sems = (\<lambda>_. None), fault = False\<rparr>"

text \<open>The initial values of the global variables; the flash contents \<open>e\<close> survive.\<close>

definition cold :: "(nat \<Rightarrow> bool) \<Rightarrow> env_store \<Rightarrow> sys" where
  "cold ins e = \<lparr>
     ui = \<lparr>bd = cold_board ins, led_obj = (\<lambda>_. None), agile_led_list = [], is_initialized = False,
           led_id_temp = 0, led_mode_temp = 0\<rparr>,
     dev = \<lparr>Global_Device = Device_Info_zero, env = e\<lparr>init_ok := False\<rparr>, stuck = False\<rparr>,
     sta = \<lparr>Now_Status = Close, NowStatusEvent = WarningEventInit 0 0 None,
            events = (\<lambda>_. WarningEventInit 0 0 None)\<rparr>,
     mo = \<lparr>Turn1_Flag = 0, Turn2_Flag = 0, Moto1_Fail_FLag = 0, Moto2_Fail_FLag = 0, Valve_Alarm_Flag = 0\<rparr>,
     wk = \<lparr>WarningNowStatus = 0, WarningPastStatus = 0, WarningStatus = 0, Water_Alarm_Pause = 0,
           Peak_ON_Level = 0, Peak_Loss_Level = 0\<rparr>,
     ky = \<lparr>K0_Status = 0, K0_Long_Status = 0, K1_Status = 0, K1_Long_Status = 0, K0_K1_Status = 0,
           ValveStatus = 0\<rparr>,
     btn = \<lparr>K0_Long_Sem_Counter = 0, K1_Long_Sem_Counter = 0, K0_OnceFlag = 0, K1_OnceFlag = 0,
            K0_K1_OnceFlag = 0, Key_Pause_Flag = 0, ANT_SW_Status = 0, ANT_SW_Status_Temp = 0,
            Key0 = Button_Create 0, Key1 = Button_Create 0\<rparr>,
     gw = \<lparr>Heart_Status = 0, Heart_Recv_Flag = 0, Heart_Check_Count = 0, Gateway_Sync_Num = 1, Gateway_ID = 0\<rparr>,
     dec = \<lparr>Learn_Flag = 0, Last_Close_Flag = 0, Gw_Flag = 0\<rparr>,
     enc = \<lparr>rf_en_mq = None, rf_ack_sem = False, rf_txdone_sem = False, RadioID = 0, radio_send_buf = [],
            axradio_power_now = 0, TXPWRCOEFFB = 0, tx_wait = None, sent = []\<rparr>,
     rtc = \<lparr>RTC_Counter = 0, RTC_Hours = 0\<rparr>,
     adc = \<lparr>NTC_State = 0, adc_value = replicate 20 0, voltage_temp = 0\<rparr>,
     Factory_Flag = 0\<rparr>"

text \<open>
  \<open>main\<close>, with what its threads do before their first loop. \<open>agile_led_init\<close> runs before
  \<open>main\<close> as an application initialiser.
\<close>

definition main_services :: "hardware \<Rightarrow> sys \<Rightarrow> sys" where
  "main_services hw =
     block [ui_update (block [agile_led_init, led_Init (hw_mem hw)]),
     Key_Reponse, Key_SemInit,
     dev_update (flash_Init (hw_probe hw) (hw_store hw)),
     WarningInit, RTC_Init, RadioQueue_Init (hw_id hw)]"

definition main_tasks :: "sys \<Rightarrow> sys" where
  "main_tasks = block [Moto_Init, NTC_Init, button_task_init, WaterScan_Init, DetectFactory, Gateway_Init]"

definition boot :: "hardware \<Rightarrow> env_store \<Rightarrow> sys" where
  "boot hw e = main_tasks (main_services hw (cold (hw_pins hw) e))"

section \<open>Activities\<close>

text \<open>Which function \<open>rt_timer_create\<close> was given for each timer.\<close>

definition timer_callback :: "timer \<Rightarrow> sys \<Rightarrow> sys" where
  "timer_callback t = (case t of
      Learn_Timer \<Rightarrow> Learn_Timer_Callback
    | Delay_Timer \<Rightarrow> Delay_Timer_Callback
    | Moto1_Timer_Act \<Rightarrow> Moto1_Timer_Act_Callback
    | Moto2_Timer_Act \<Rightarrow> Moto2_Timer_Act_Callback
    | Moto1_Timer_Detect \<Rightarrow> Turn1_Timer_Callback
    | Moto2_Timer_Detect \<Rightarrow> Turn2_Timer_Callback
    | Moto_Detect_Timer \<Rightarrow> Moto_Detect_Timer_Callback
    | waterscan_timer \<Rightarrow> waterscan_timer_callback
    | ntcscan_timer \<Rightarrow> ntc_scan_timer_callback
    | Heart_Test_t \<Rightarrow> Heart_Test
    | Heart_Check_t \<Rightarrow> Heart_Check
    | Gateway_Sync_t \<Rightarrow> Gateway_Sync_Callback
    | Factory_Cycle \<Rightarrow> Factory_Cycle_Callback)"

definition fire :: "timer \<Rightarrow> sys \<Rightarrow> sys" where
  "fire t = block [on_board (soft_timer_expire t), timer_callback t, on_board (soft_timer_rearm t)]"

text \<open>
  The steps. A restart (power, watchdog, or the factory reset) keeps the flash contents; when the
  store had not come up, the restart is an initial boot from the same flash.
\<close>

inductive step :: "sys \<Rightarrow> sys \<Rightarrow> bool" where
  tick: "step s (on_board (tick_update (\<lambda>t. t + 1)) s)"
| inputs: "step s (on_board (pin_in_update (\<lambda>_. f)) s)"
| samples: "step s (adc_update (adc_value_update (\<lambda>_. xs)) s)"
| timer: "soft_timer_next (board_of s) = Some t \<Longrightarrow> step s (fire t s)"
| edge1: "pin_irq (board_of s) Senor1 \<Longrightarrow> step s (Turn1_Edge_Callback s)"
| edge2: "pin_irq (board_of s) Senor2 \<Longrightarrow> step s (Turn2_Edge_Callback s)"
| buttons: "step s (button_task_round s)"
| keys: "key_round s = (False, s') \<Longrightarrow> step s s'"
| wipe: "key_round s = (True, s') \<Longrightarrow> init_ok (env (dev s')) \<Longrightarrow> step s (boot hw (env (dev s')))"
| restart: "init_ok (env (dev s)) \<Longrightarrow> step s (boot hw (env (dev s)))"
| alarm: "step s (HAL_RTC_AlarmAEventCallback s)"
| hour: "step s (RTC_Timer_round s)"
| receive: "step s (rf433_rx_callback g rssi buf n s)"
| send: "tx_wait (enc s) = None \<Longrightarrow> step s (rf_encode_start s)"
| wake: "step s (rf_encode_wake s)"
| txdone: "step s (rf_txdone_callback s)"
| lights: "led_process_pass (led_complete (Heart_Status (gw s))) (ui s) = Some u \<Longrightarrow> step s (s\<lparr>ui := u\<rparr>)"

text \<open>The flash at the first start: empty, or with counters in their ranges.\<close>

definition persist_ok :: "env_store \<Rightarrow> bool" where
  "persist_ok e \<longleftrightarrow> store_wf \<lparr>Global_Device = Device_Info_zero, env = e\<lparr>init_ok := True\<rparr>, stuck = False\<rparr>"

inductive reachable :: "sys \<Rightarrow> bool" where
  boot: "persist_ok e \<Longrightarrow> reachable (boot hw e)"
| step: "reachable s \<Longrightarrow> step s s' \<Longrightarrow> reachable s'"

inductive_cases stepE: "step s s'"
inductive_cases reachableE: "reachable s"

end
