(* ===== verification/StartUp.thy ===== *)
theory StartUp
  imports System
begin

text \<open>
  The start-up establishes the system invariant: \<open>led_Init\<close> creates every LED object, the services
  exist before they are used, and every timer is created before it is started.
\<close>

section \<open>The LED objects\<close>

text \<open>The invariant of the LED layer while only the objects of \<open>L\<close> exist.\<close>

definition leds_part :: "led set \<Rightarrow> leds \<Rightarrow> bool" where
  "leds_part L u \<longleftrightarrow> is_initialized u \<and> distinct (agile_led_list u) \<and>
     (\<forall>l. l \<notin> L \<longrightarrow> led_obj u l = None \<and> l \<notin> set (agile_led_list u)) \<and>
     (\<forall>l \<in> L. \<exists>d. led_obj u l = Some d \<and> led_object_ok d \<and> (active d \<longleftrightarrow> l \<in> set (agile_led_list u)))"

lemma leds_part_UNIV: "leds_part UNIV u = leds_ok u"
  by (simp add: leds_part_def leds_ok_def)

text \<open>What the start-up of the LED layer may do to the board.\<close>

definition init_frame :: "board \<Rightarrow> board \<Rightarrow> bool" where
  "init_frame b b' \<longleftrightarrow> b' = b\<lparr>pin_out := pin_out b', mode_of := mode_of b'\<rparr> \<and>
     (\<forall>p. p \<notin> set LED_PINS \<longrightarrow> pin_out b' p = pin_out b p)"

definition led_grows :: "led set \<Rightarrow> led set \<Rightarrow> (leds \<Rightarrow> leds) \<Rightarrow> bool" where
  "led_grows L L' f \<longleftrightarrow> (\<forall>u. leds_part L u \<longrightarrow> leds_part L' (f u) \<and> init_frame (bd u) (bd (f u)))"

lemma init_frame_trans:
  assumes "init_frame b b1" "init_frame b1 b2"
  shows "init_frame b b2"
proof -
  have 1: "b1 = b\<lparr>pin_out := pin_out b1, mode_of := mode_of b1\<rparr>"
    "b2 = b1\<lparr>pin_out := pin_out b2, mode_of := mode_of b2\<rparr>"
    using assms by (simp_all add: init_frame_def)
  have "b2 = (b\<lparr>pin_out := pin_out b1, mode_of := mode_of b1\<rparr>)\<lparr>pin_out := pin_out b2, mode_of := mode_of b2\<rparr>"
    using 1 by metis
  then have "b2 = b\<lparr>pin_out := pin_out b2, mode_of := mode_of b2\<rparr>" by simp
  with assms show ?thesis by (simp add: init_frame_def)
qed

lemma led_grows_block:
  "led_grows L L1 f \<Longrightarrow> led_grows L1 L2 (block fs) \<Longrightarrow> led_grows L L2 (block (f # fs))" "led_grows L L (block [])"
  unfolding led_grows_def using init_frame_trans by (fastforce, simp add: init_frame_def)

lemma led_grows_guard:
  assumes "l \<notin> L" "led_grows L L' f"
  shows "led_grows L L' (\<lambda>u. if led_obj u l = None then f u else u)"
  using assms by (simp add: led_grows_def leds_part_def)

lemma led_grows_create:
  assumes "pattern_ok m" "count_light m \<noteq> 0" "p \<in> set LED_PINS" "l \<notin> L"
  shows "led_grows L (insert l L) (agile_led_create mem l p lg (Some m) cnt)"
  unfolding led_grows_def
proof (intro allI impI)
  fix u assume u: "leds_part L u"
  let ?d = "mem\<lparr>active := False, pin := p, active_logic := lg, light_arr := None, arr_num := 0, arr_index := 0\<rparr>"
  obtain d where d: "agile_led_get_light_arr m ?d = Some d"
    using assms(2) by (simp add: agile_led_get_light_arr_def Let_def)
  have ok: "led_object_ok d" "active d = False"
    using get_light_arr_ok [OF assms(1) d] assms(3) by simp_all
  let ?d' = "d\<lparr>loop_init := cnt, loop_cnt := cnt, tick_timeout := tick (bd u), compelete := Some default_compelete\<rparr>"
  have e: "agile_led_create mem l p lg (Some m) cnt u =
      bd_update (block [rt_pin_mode p PIN_MODE_OUTPUT, rt_pin_write p (\<not> lg)]) (put_led l ?d' u)"
    using u d assms(1) by (simp add: agile_led_create_def leds_part_def Let_def pattern_ok_def)
  have "leds_part (insert l L) (agile_led_create mem l p lg (Some m) cnt u)"
    unfolding e using u ok assms(4) by (auto simp: leds_part_def put_led_def)
  moreover have "init_frame (bd u) (bd (agile_led_create mem l p lg (Some m) cnt u))"
    unfolding e using assms(3) by (auto simp: init_frame_def rt_pin_mode_def rt_pin_write_def put_led_def)
  ultimately show "leds_part (insert l L) (agile_led_create mem l p lg (Some m) cnt u) \<and>
    init_frame (bd u) (bd (agile_led_create mem l p lg (Some m) cnt u))" ..
qed

lemma led_grows_start: "l \<in> L \<Longrightarrow> led_grows L L (agile_led_start l)"
  by (auto simp: led_grows_def leds_part_def agile_led_start_def on_led_def put_led_def init_frame_def
      split: option.split)

lemma led_Init_ok:
  assumes "is_initialized u" "agile_led_list u = []" "led_obj u = (\<lambda>_. None)"
  shows "leds_ok (led_Init mem u)" "init_frame (bd u) (bd (led_Init mem u))"
proof -
  have c: "count_light ''200,200'' \<noteq> 0" "count_light ''200,1'' \<noteq> 0" "count_light ''200,200,200,5000'' \<noteq> 0"
    "count_light ''50,50,200,200'' \<noteq> 0" by (simp_all add: count_light_def)
  have "led_grows {} (insert wifi_R (insert wifi_G (insert learnbeep (insert beep_three (insert singlebeep
      (insert beep (insert led1 (insert led0_three (insert lossled0 (insert singleled0 (insert led0 {})))))))))))
     (led_Init mem)"
    unfolding led_Init_def
    by (rule led_grows_block led_grows_guard led_grows_create led_grows_start pattern_ok_literal c
        | simp add: LED_PINS_def)+
  moreover have "insert wifi_R (insert wifi_G (insert learnbeep (insert beep_three (insert singlebeep
      (insert beep (insert led1 (insert led0_three (insert lossled0 (insert singleled0 (insert led0 {})))))))))) = UNIV"
    using UNIV_led by auto
  moreover have "leds_part {} u" using assms by (simp add: leds_part_def)
  ultimately show "leds_ok (led_Init mem u)" "init_frame (bd u) (bd (led_Init mem u))"
    by (simp_all add: led_grows_def leds_part_UNIV)
qed

lemma init_frame_sel:
  assumes "init_frame b b'"
  shows "pin_in b' = pin_in b" "timers b' = timers b" "soft_timer_list b' = soft_timer_list b" "sems b' = sems b"
    "fault b' = fault b" "p \<notin> set LED_PINS \<Longrightarrow> pin_out b' p = pin_out b p"
proof -
  have b': "b' = b\<lparr>pin_out := pin_out b', mode_of := mode_of b'\<rparr>" using assms by (simp add: init_frame_def)
  show "pin_in b' = pin_in b" by (subst b') simp
  show "timers b' = timers b" by (subst b') simp
  show "soft_timer_list b' = soft_timer_list b" by (subst b') simp
  show "sems b' = sems b" by (subst b') simp
  show "fault b' = fault b" by (subst b') simp
  show "pin_out b' p = pin_out b p" if "p \<notin> set LED_PINS"
    using assms that by (simp add: init_frame_def)
qed

section \<open>The services\<close>

definition starting :: "timer set \<Rightarrow> sys \<Rightarrow> bool" where
  "starting M s \<longleftrightarrow> base_ok M {} s \<and> valve_safe (view s)"

lemma create_sel [simp]:
  "tick (rt_timer_create t d p b) = tick b" "pin_in (rt_timer_create t d p b) = pin_in b"
  "pin_out (rt_timer_create t d p b) = pin_out b" "mode_of (rt_timer_create t d p b) = mode_of b"
  "pin_irq (rt_timer_create t d p b) = pin_irq b" "sems (rt_timer_create t d p b) = sems b"
  "soft_timer_list (rt_timer_create t d p b) = soft_timer_list b" "fault (rt_timer_create t d p b) = fault b"
  "timers (rt_timer_create t d p b) = (timers b)(t \<mapsto> \<lparr>init_tick = d, periodic = p, activated = False, timeout_tick = 0\<rparr>)"
  "timers (rt_sem_create m v b) = timers b" "soft_timer_list (rt_sem_create m v b) = soft_timer_list b"
  "pin_out (rt_sem_create m v b) = pin_out b" "fault (rt_sem_create m v b) = fault b"
  "sems (rt_sem_create m v b) = (sems b)(m \<mapsto> v)"
  by (simp_all add: rt_timer_create_def rt_sem_create_def)

lemma flash_Init_ok:
  fixes probe store :: bool
  assumes "persist_ok e"
  defines "db \<equiv> \<lparr>Global_Device = Device_Info_zero, env = e\<lparr>init_ok := False\<rparr>, stuck = False\<rparr>"
  defines "l \<equiv> flash_Init probe store db"
  shows "table_ok l" "saved_flag l = None \<or> saved_flag l = Some (LastFlag (Global_Device l))"
proof -
  have z: "table_ok (db\<lparr>env := f\<rparr>)" "saved_flag (db\<lparr>env := f\<rparr>) = None" if "\<not> init_ok f" for f
    using that by (simp_all add: table_ok_def saved_flag_def table_wf_def store_wf_def roles_ok_def arrays_ok_def db_def
        Device_Info_zero_def getter_defs read_key_def ef_get_env_blob_def ef_usable_def)
  have "store_wf (db\<lparr>env := e\<lparr>init_ok := True\<rparr>\<rparr>)" "\<not> stuck (db\<lparr>env := e\<lparr>init_ok := True\<rparr>\<rparr>)"
    using assms(1) by (simp_all add: persist_ok_def db_def)
  note L = LoadDevice2Memory_ok [OF this]
  show "table_ok l" "saved_flag l = None \<or> saved_flag l = Some (LastFlag (Global_Device l))"
    using L z [of "env db"] z [of "e\<lparr>init_ok := False\<rparr>"]
    by (simp_all add: l_def flash_Init_def easyflash_init_def db_def Let_def)
qed

lemma services_start:
  assumes "persist_ok e"
  shows "starting {Learn_Timer, Delay_Timer} (main_services hw (cold ins e))"
proof -
  let ?u = "agile_led_init (ui (cold ins e))"
  have u: "leds_ok (led_Init (hw_mem hw) ?u)" "init_frame (bd ?u) (bd (led_Init (hw_mem hw) ?u))"
    by (rule led_Init_ok; simp add: agile_led_init_def cold_def)+
  define s where "s = main_services hw (cold ins e)"
  define b where "b = bd (led_Init (hw_mem hw) ?u)"
  have b: "timers b = (\<lambda>_. None)" "soft_timer_list b = []" "sems b = (\<lambda>_. None)" "\<not> fault b"
    "\<not> pin_out b Turn1" "\<not> pin_out b Turn2"
    using init_frame_sel [OF u(2)] unfolding b_def
    by (simp_all add: agile_led_init_def cold_def cold_board_def LED_PINS_def)
  have ui: "ui s = bd_update (\<lambda>_. (block [rt_timer_create Learn_Timer 30000 False, rt_sem_create K0_Sem 0,
      rt_sem_create K0_Long_Sem 0, rt_sem_create K1_Sem 0, rt_sem_create K1_Long_Sem 0,
      rt_sem_create K0_K1_Long_Sem 0, rt_timer_create Delay_Timer (4 * 60 * 60 * 1000) False,
      rt_sem_create RTC_IRQ_Sem 0]) b) (led_Init (hw_mem hw) ?u)"
    by (simp add: s_def main_services_def Key_Reponse_def Key_SemInit_def WarningInit_def RTC_Init_def
        RadioQueue_Init_def b_def)
  have d: "dev s = flash_Init (hw_probe hw) (hw_store hw)
      \<lparr>Global_Device = Device_Info_zero, env = e\<lparr>init_ok := False\<rparr>, stuck = False\<rparr>"
    by (simp add: s_def main_services_def Key_Reponse_def Key_SemInit_def WarningInit_def RTC_Init_def
        RadioQueue_Init_def cold_def)
  have "leds_ok (ui s)" using u(1) by (simp add: ui leds_ok_def)
  moreover have "sems (board_of s) m \<noteq> None" for m
    by (cases m) (simp_all add: ui)
  then have "kernel_ok {Learn_Timer, Delay_Timer} {} (board_of s)"
    by (auto simp: kernel_ok_def ui b timer_made_def timer_active_def is_periodic_def)
  moreover have "table_ok (dev s)" "saved_flag (dev s) = None \<or> saved_flag (dev s) = Some (LastFlag (table_of s))"
    unfolding d by (rule flash_Init_ok [OF assms])+
  moreover have "events (sta s) = initial_events" "queue_ok s" "Now_Status (sta s) = Close" "ValveStatus (ky s) = 0"
    "Key_Pause_Flag (btn s) = 0" "Water_Alarm_Pause (wk s) = 0" "priority (NowStatusEvent (sta s)) \<le> 8"
    by (simp_all add: s_def main_services_def Key_Reponse_def Key_SemInit_def WarningInit_def RTC_Init_def
        RadioQueue_Init_def queue_ok_def cold_def WarningEventInit_def)
  moreover have "valve_safe (view s)"
    using b calculation by (simp add: valve_safe_def view_def ui timer_active_def self_test_runs_def shut_status_def)
  ultimately show ?thesis by (simp add: starting_def base_ok_def s_def)
qed

section \<open>The tasks\<close>

definition grows :: "timer set \<Rightarrow> timer set \<Rightarrow> (sys \<Rightarrow> sys) \<Rightarrow> bool" where
  "grows M M' f \<longleftrightarrow> (\<forall>s. starting M s \<longrightarrow> starting M' (f s))"

lemma grows_block:
  "grows M M1 f \<Longrightarrow> grows M1 M2 (block fs) \<Longrightarrow> grows M M2 (block (f # fs))" "grows M M (block [])"
  by (simp_all add: grows_def)

lemma grows_cond: "grows M M' f \<Longrightarrow> grows M M' g \<Longrightarrow> grows M M' (cond p f g)"
  by (simp add: grows_def cond_def)

lemma grows_reading: "(\<And>x. grows M M' (f x)) \<Longrightarrow> grows M M' (reading g f)"
  by (simp add: grows_def)

lemma grows_id: "grows M M id"
  by (simp add: grows_def)

lemma grows_refines: "refines M f F \<Longrightarrow> (\<And>v. valve_safe v \<Longrightarrow> valve_safe (F v)) \<Longrightarrow> grows M M f"
  unfolding grows_def starting_def refines_def by metis

lemma grows_neutral: "refines M f id \<Longrightarrow> grows M M f"
  by (rule grows_refines [of M f id]) simp_all

lemma valve_safe_sensors [simp]: "valve_safe (v\<lparr>v_s1 := x\<rparr>) = valve_safe v" "valve_safe (v\<lparr>v_s2 := x\<rparr>) = valve_safe v"
  by (simp_all add: valve_safe_def self_test_runs_def)

text \<open>A change of the board that only the sensor inputs can see.\<close>

lemma view_board:
  assumes "pin_out (f b) Turn1 = pin_out b Turn1" "pin_out (f b) Turn2 = pin_out b Turn2" "b = board_of s"
    "\<And>t. timer_active t (f b) = timer_active t b"
  shows "view (on_board f s) = (view s)\<lparr>v_s1 := rt_pin_read Senor1 (f b), v_s2 := rt_pin_read Senor2 (f b)\<rparr>"
  using assms by (simp add: view_def)

lemma starting_board:
  assumes "starting M s" "kernel_ok M' {} (f (board_of s))"
    "pin_out (f (board_of s)) Turn1 = pin_out (board_of s) Turn1"
    "pin_out (f (board_of s)) Turn2 = pin_out (board_of s) Turn2"
    "\<And>t. timer_active t (f (board_of s)) = timer_active t (board_of s)"
  shows "starting M' (on_board f s)"
  using assms view_board [of f "board_of s" s, OF assms(3,4) refl assms(5)]
  by (simp add: starting_def base_ok_def leds_ok_def queue_ok_def)

lemma kernel_ok_create:
  assumes "kernel_ok M X b" "t \<notin> M" "per = is_periodic t"
  shows "kernel_ok (insert t M) X (rt_timer_create t d per b)"
    "timer_active u (rt_timer_create t d per b) = timer_active u b"
proof -
  have n: "timers b t = None" using assms(1,2) by (auto simp: kernel_ok_def timer_made_def)
  show a: "timer_active u (rt_timer_create t d per b) = timer_active u b" for u
    using n by (simp add: timer_active_def)
  show "kernel_ok (insert t M) X (rt_timer_create t d per b)"
    using assms a by (auto simp: kernel_ok_def timer_made_def)
qed

lemma grows_create:
  assumes "t \<notin> M" "per = is_periodic t"
  shows "grows M (insert t M) (on_board (rt_timer_create t d per))"
  unfolding grows_def
proof (intro allI impI, rule starting_board)
  fix s assume s: "starting M s"
  then have k: "kernel_ok M {} (board_of s)" by (simp add: starting_def base_ok_def)
  show "kernel_ok (insert t M) {} (rt_timer_create t d per (board_of s))"
    "timer_active u (rt_timer_create t d per (board_of s)) = timer_active u (board_of s)" for u
    using kernel_ok_create [OF k assms] by simp_all
qed simp_all

lemma grows_pin_mode: "grows M M (on_board (rt_pin_mode p m))"
  unfolding grows_def
  by (intro allI impI, rule starting_board [where M = M]) (simp_all add: starting_def base_ok_def kernel_ok_def timer_made_def timer_active_def)

lemma grows_on_board_block:
  "grows M M1 (on_board f) \<Longrightarrow> grows M1 M2 (on_board (block fs)) \<Longrightarrow> grows M M2 (on_board (block (f # fs)))"
  "grows M M (on_board (block []))"
proof -
  have e: "on_board (block (f # fs)) s = on_board (block fs) (on_board f s)" "on_board (block []) s = s" for s :: sys
    by (simp_all add: o_def)
  show "grows M M1 (on_board f) \<Longrightarrow> grows M1 M2 (on_board (block fs)) \<Longrightarrow> grows M M2 (on_board (block (f # fs)))"
    "grows M M (on_board (block []))" unfolding grows_def e by blast+
qed

lemma grows_timer_start: "t \<in> M \<Longrightarrow> \<not> self_test_timer t \<Longrightarrow> grows M M (on_board (rt_timer_start t))"
  using refines_timer_start [of t M] v_timer_other [of t True] by (auto intro: grows_neutral)

lemma grows_antenna: "p \<noteq> Turn1 \<Longrightarrow> p \<noteq> Turn2 \<Longrightarrow> grows M M (on_board (rt_pin_write p v))"
  unfolding grows_def
  by (intro allI impI, rule starting_board [where M = M]) (simp_all add: starting_def base_ok_def timer_active_def)

lemmas grows_rules = grows_on_board_block grows_block grows_cond grows_reading grows_id grows_pin_mode grows_create
  grows_timer_start grows_antenna

lemma grows_Warning_Enable:
  assumes "VALVE_TIMERS \<subseteq> M"
  shows "grows M M (Warning_Enable_Num k)"
proof -
  have e: "grows M M (Warning_Enable ev)" if "priority ev \<le> 8" for ev
    unfolding Warning_Enable_def
    by (cases "callback ev", (rule grows_cond grows_block grows_id grows_neutral [OF refines_fields(3)]
          grows_refines [OF refines_run_callback [OF assms] a_warning_safe] | simp add: that)+)
  have "starting M s \<Longrightarrow> events (sta s) = initial_events" for s by (simp add: starting_def base_ok_def)
  with e [OF priority_initial] show ?thesis
    by (auto simp: grows_def Warning_Enable_Num_def split: option.split)
qed

text \<open>The timers that exist after the setup of the valve.\<close>

definition MOTO_TIMERS :: "timer set" where
  "MOTO_TIMERS = {Moto_Detect_Timer, Moto2_Timer_Detect, Moto1_Timer_Detect, Moto2_Timer_Act, Moto1_Timer_Act,
     Learn_Timer, Delay_Timer}"

lemma moto_valve_timers: "VALVE_TIMERS \<subseteq> MOTO_TIMERS"
  by (simp add: VALVE_TIMERS_def MOTO_TIMERS_def)

lemma grows_moto_setup: "grows {Learn_Timer, Delay_Timer} MOTO_TIMERS moto_setup"
  unfolding moto_setup_def MOTO_TIMERS_def by (rule grows_rules | simp add: is_periodic_def)+

lemma grows_Moto_Init: "grows {Learn_Timer, Delay_Timer} MOTO_TIMERS Moto_Init"
  unfolding Moto_Init_def moto_resume_def
  by (rule grows_moto_setup grows_rules grows_Warning_Enable moto_valve_timers
      grows_refines [OF refines_Moto_InitOpen a_open_safe] | simp)+

lemma grows_ui: "led_safe f \<Longrightarrow> grows M M (ui_update f)"
  by (rule grows_neutral) (rule refines_ui)

lemma grows_Gateway_Init:
  assumes "Heart_Test_t \<notin> M" "Heart_Check_t \<notin> M" "Gateway_Sync_t \<notin> M"
  shows "grows M (insert Gateway_Sync_t (insert Heart_Check_t (insert Heart_Test_t M))) Gateway_Init"
  unfolding Gateway_Init_def load_Gateway_ID_def report_valve_def Heart_Test_Start_def
  by (rule grows_rules grows_neutral [OF refines_fields(5)] grows_neutral [OF refines_uplink(6)]
      | simp add: assms is_periodic_def self_test_timer_def)+

lemma grows_plain_tasks:
  "ntcscan_timer \<notin> M \<Longrightarrow> grows M (insert ntcscan_timer M) NTC_Init"
  "waterscan_timer \<notin> M \<Longrightarrow> grows M (insert waterscan_timer M) WaterScan_Init"
  "grows M M button_task_init"
proof -
  have w: "grows M M WaterScan_IO_Init"
    by (rule grows_refines, rule refines_fields) (simp add: valve_safe_def self_test_runs_def)
  show "ntcscan_timer \<notin> M \<Longrightarrow> grows M (insert ntcscan_timer M) NTC_Init"
    unfolding NTC_Init_def
    by (rule grows_rules | simp add: is_periodic_def self_test_timer_def)+
  show "waterscan_timer \<notin> M \<Longrightarrow> grows M (insert waterscan_timer M) WaterScan_Init"
    unfolding WaterScan_Init_def
    by (rule w grows_rules | simp add: is_periodic_def self_test_timer_def)+
  show "grows M M button_task_init"
    unfolding button_task_init_def Key_Pin_Init_def RF_Switch_Pin_Init_def select_antenna_def
    by (rule grows_rules grows_neutral [OF refines_button] | simp)+
qed

text \<open>In factory mode one more timer exists.\<close>

lemma DetectFactory_starts:
  assumes "starting M s" "Factory_Cycle \<notin> M"
  shows "\<exists>M'. M \<subseteq> M' \<and> M' \<subseteq> insert Factory_Cycle M \<and> starting M' (DetectFactory s)"
proof -
  have f: "grows M (insert Factory_Cycle M) Factory_Init"
    unfolding Factory_Init_def Start_Factory_Cycle_def
    by (rule grows_rules | simp add: assms(2) is_periodic_def self_test_timer_def)+
  define s1 where "s1 = (block [on_board (rt_pin_mode TEST_PIN PIN_MODE_INPUT_PULLUP),
     reading (\<lambda>s. rt_pin_read TEST_PIN (board_of s)) (\<lambda>v. Factory_Flag_update (\<lambda>_. if v then 0 else 1))]) s"
  have "grows M M (block [on_board (rt_pin_mode TEST_PIN PIN_MODE_INPUT_PULLUP),
     reading (\<lambda>s. rt_pin_read TEST_PIN (board_of s)) (\<lambda>v. Factory_Flag_update (\<lambda>_. if v then 0 else 1))])"
    by (rule grows_block grows_pin_mode grows_reading grows_neutral [OF refines_fields(9)])+
  then have s1: "starting M s1" using assms(1) by (simp add: grows_def s1_def)
  then have "starting (insert Factory_Cycle M) (Factory_Init s1)" using f by (simp add: grows_def)
  with s1 show ?thesis by (cases "Factory_Flag s1 \<noteq> 0") (auto simp: DetectFactory_def s1_def)
qed

lemma boot_sys_inv:
  assumes "persist_ok e"
  shows "sys_inv {} (boot hw e)"
proof -
  define s1 where "s1 = main_services hw (cold (hw_pins hw) e)"
  define s2 where "s2 = (block [Moto_Init, NTC_Init, button_task_init, WaterScan_Init]) s1"
  let ?M = "insert waterscan_timer (insert ntcscan_timer MOTO_TIMERS)"
  have "grows {Learn_Timer, Delay_Timer} ?M (block [Moto_Init, NTC_Init, button_task_init, WaterScan_Init])"
    by (rule grows_block grows_plain_tasks grows_Moto_Init | simp add: MOTO_TIMERS_def)+
  then have "starting ?M s2" using services_start [OF assms] unfolding grows_def s2_def s1_def by blast
  then obtain M where M: "?M \<subseteq> M" "M \<subseteq> insert Factory_Cycle ?M" "starting M (DetectFactory s2)"
    using DetectFactory_starts [of ?M s2] by (auto simp: MOTO_TIMERS_def)
  have "grows M (insert Gateway_Sync_t (insert Heart_Check_t (insert Heart_Test_t M))) Gateway_Init"
    using M(2) by (intro grows_Gateway_Init) (auto simp: MOTO_TIMERS_def)
  then have "starting (insert Gateway_Sync_t (insert Heart_Check_t (insert Heart_Test_t M))) (boot hw e)"
    using M(3) by (simp add: grows_def boot_def main_tasks_def s2_def s1_def)
  moreover have "ALL_TIMERS \<subseteq> insert Gateway_Sync_t (insert Heart_Check_t (insert Heart_Test_t M))"
  proof
    fix t assume "t \<in> ALL_TIMERS"
    then show "t \<in> insert Gateway_Sync_t (insert Heart_Check_t (insert Heart_Test_t M))"
      using M(1) by (cases t) (auto simp: ALL_TIMERS_def MOTO_TIMERS_def)
  qed
  ultimately show ?thesis unfolding sys_inv_def starting_def by blast
qed

section \<open>The valve after the start-up\<close>

lemma tail_keeps:
  "sta ((block [NTC_Init, button_task_init, WaterScan_Init, DetectFactory, Gateway_Init]) s) = sta s"
  "ky ((block [NTC_Init, button_task_init, WaterScan_Init, DetectFactory, Gateway_Init]) s) = ky s"
proof -
  have u: "sta (ControlUpload_GW a i c v s) = sta s" "ky (ControlUpload_GW a i c v s) = ky s" for a i c v s
    by (simp_all add: ControlUpload_GW_def GatewayControlEnqueue_def mq_post_def cond_def split: option.split)
  have g: "sta (Gateway_Init s) = sta s" "ky (Gateway_Init s) = ky s" for s
    by (simp_all add: Gateway_Init_def load_Gateway_ID_def report_valve_def u cond_def Heart_Test_Start_def)
  have f: "sta (DetectFactory s) = sta s" "ky (DetectFactory s) = ky s" for s
    by (simp_all add: DetectFactory_def Factory_Init_def Start_Factory_Cycle_def cond_def)
  show "sta ((block [NTC_Init, button_task_init, WaterScan_Init, DetectFactory, Gateway_Init]) s) = sta s"
    "ky ((block [NTC_Init, button_task_init, WaterScan_Init, DetectFactory, Gateway_Init]) s) = ky s"
    by (simp_all add: g f NTC_Init_def WaterScan_Init_def WaterScan_IO_Init_def button_task_init_def Key_Pin_Init_def
        RF_Switch_Pin_Init_def select_antenna_def)
qed

text \<open>The device table that \<open>flash_Init\<close> leaves.\<close>

definition flash_loaded :: "hardware \<Rightarrow> env_store \<Rightarrow> devdb" where
  "flash_loaded hw e = flash_Init (hw_probe hw) (hw_store hw)
     \<lparr>Global_Device = Device_Info_zero, env = e\<lparr>init_ok := False\<rparr>, stuck = False\<rparr>"

lemma services_sel:
  "dev (main_services hw (cold ins e)) = flash_loaded hw e"
  "Now_Status (sta (main_services hw (cold ins e))) = Close"
  "ValveStatus (ky (main_services hw (cold ins e))) = 0"
  "priority (NowStatusEvent (sta (main_services hw (cold ins e)))) = 0"
  by (simp_all add: main_services_def Key_Reponse_def Key_SemInit_def WarningInit_def RTC_Init_def
        RadioQueue_Init_def cold_def WarningEventInit_def flash_loaded_def)

lemma resume_alarm:
  assumes "base_ok M X s" "VALVE_TIMERS \<subseteq> M" "priority (NowStatusEvent (sta s)) = 0"
  shows "view (Warning_Enable_Num 2 s) = a_warning SlaverWaterAlarmWarning_cb (view s)"
proof -
  let ?f = "block [sta_update (NowStatusEvent_update (block [last_id_update (\<lambda>_. 2), priority_update (\<lambda>_. 8)])),
    sta_update (NowStatusEvent_update (callback_update (\<lambda>_. Some SlaverWaterAlarmWarning_cb)))]"
  have w: "Warning_Enable_Num 2 s = (block [?f, run_callback SlaverWaterAlarmWarning_cb]) s"
    using assms by (simp add: Warning_Enable_Num_def Warning_Enable_def warning_of_def base_ok_def
        initial_events_def WarningEventInit_def)
  have "refines M (block [?f, run_callback SlaverWaterAlarmWarning_cb]) (block [block [id, id], a_warning SlaverWaterAlarmWarning_cb])"
    by (intro refines_block refines_run_callback assms(2) refines_fields(3); simp)
  then show ?thesis using assms(1) unfolding w by (simp add: refines_def)
qed

lemma resume_valve:
  assumes "base_ok MOTO_TIMERS X s" "priority (NowStatusEvent (sta s)) = 0" "ValveStatus (ky s) = 0"
    "Now_Status (sta s) = Close"
  defines "r \<equiv> moto_resume s"
  shows "Flash_Get_SlaveAlarmFlag (dev s) \<noteq> 0 \<Longrightarrow> ValveStatus (ky r) = 0 \<and> Now_Status (sta r) = SlaverWaterAlarmActive"
    "Flash_Get_SlaveAlarmFlag (dev s) = 0 \<Longrightarrow> LastFlag (table_of s) = OtherOff \<Longrightarrow>
       ValveStatus (ky r) = 0 \<and> Now_Status (sta r) = Close"
    "Flash_Get_SlaveAlarmFlag (dev s) = 0 \<Longrightarrow> LastFlag (table_of s) \<noteq> OtherOff \<Longrightarrow>
       ValveStatus (ky r) = 1 \<and> Now_Status (sta r) = Open"
proof -
  have w: "view (Warning_Enable_Num 2 s) = a_warning SlaverWaterAlarmWarning_cb (view s)"
    using resume_alarm [OF assms(1) moto_valve_timers assms(2)] .
  show "Flash_Get_SlaveAlarmFlag (dev s) \<noteq> 0 \<Longrightarrow> ValveStatus (ky r) = 0 \<and> Now_Status (sta r) = SlaverWaterAlarmActive"
    using w assms(3) by (simp add: r_def moto_resume_def view_def a_warning_def a_set_def a_close_def split: if_splits)
  show "Flash_Get_SlaveAlarmFlag (dev s) = 0 \<Longrightarrow> LastFlag (table_of s) = OtherOff \<Longrightarrow>
       ValveStatus (ky r) = 0 \<and> Now_Status (sta r) = Close"
    using assms(3,4) by (simp add: r_def moto_resume_def)
  have o: "view (Moto_InitOpen NormalOpen s) = a_open NormalOpen (view s)"
    using refines_Moto_InitOpen [of MOTO_TIMERS NormalOpen] assms(1) by (simp add: refines_def)
  show "Flash_Get_SlaveAlarmFlag (dev s) = 0 \<Longrightarrow> LastFlag (table_of s) \<noteq> OtherOff \<Longrightarrow>
       ValveStatus (ky r) = 1 \<and> Now_Status (sta r) = Open"
    using o by (simp add: r_def moto_resume_def view_def a_open_def a_may_open_def)
qed

lemma boot_resumes:
  assumes "persist_ok e"
  obtains s X where "base_ok MOTO_TIMERS X s" "priority (NowStatusEvent (sta s)) = 0" "ValveStatus (ky s) = 0"
    "Now_Status (sta s) = Close" "dev s = flash_loaded hw e"
    "sta (boot hw e) = sta (moto_resume s)" "ky (boot hw e) = ky (moto_resume s)"
proof
  let ?s = "moto_setup (main_services hw (cold (hw_pins hw) e))"
  show "base_ok MOTO_TIMERS {} ?s"
    using services_start [OF assms, of hw "hw_pins hw"] grows_moto_setup unfolding grows_def starting_def by blast
  show "priority (NowStatusEvent (sta ?s)) = 0" "ValveStatus (ky ?s) = 0" "Now_Status (sta ?s) = Close"
    "dev ?s = flash_loaded hw e"
    using services_sel [of hw "hw_pins hw" e] by (simp_all add: moto_setup_def)
  show "sta (boot hw e) = sta (moto_resume ?s)" "ky (boot hw e) = ky (moto_resume ?s)"
    using tail_keeps [of "moto_resume ?s"] by (simp_all add: boot_def main_tasks_def Moto_Init_def)
qed

lemma tail_quiet:
  fixes s :: sys
  defines "t \<equiv> (block [NTC_Init, button_task_init, WaterScan_Init, DetectFactory, Gateway_Init]) s"
  shows "wk t = (wk s)\<lparr>Water_Alarm_Pause := 0\<rparr>" "dec t = dec s" "dev t = dev s"
    "mode_of (board_of t) Peak_ON = PIN_MODE_INPUT" "mode_of (board_of t) Peak_Loss = PIN_MODE_INPUT"
proof -
  have u: "wk (ControlUpload_GW a i c v s) = wk s" "dec (ControlUpload_GW a i c v s) = dec s"
    "dev (ControlUpload_GW a i c v s) = dev s" "mode_of (board_of (ControlUpload_GW a i c v s)) = mode_of (board_of s)" for a i c v s
    by (simp_all add: ControlUpload_GW_def GatewayControlEnqueue_def mq_post_def cond_def split: option.split)
  have g: "wk (Gateway_Init s) = wk s" "dec (Gateway_Init s) = dec s" "dev (Gateway_Init s) = dev s"
    "mode_of (board_of (Gateway_Init s)) = mode_of (board_of s)" for s
    by (simp_all add: Gateway_Init_def load_Gateway_ID_def report_valve_def u cond_def Heart_Test_Start_def)
  have f: "wk (DetectFactory s) = wk s" "dec (DetectFactory s) = dec s" "dev (DetectFactory s) = dev s"
    "mode_of (board_of (DetectFactory s)) Peak_ON = mode_of (board_of s) Peak_ON" 
    "mode_of (board_of (DetectFactory s)) Peak_Loss = mode_of (board_of s) Peak_Loss" for s
    by (simp_all add: DetectFactory_def Factory_Init_def Start_Factory_Cycle_def cond_def)
  show "wk t = (wk s)\<lparr>Water_Alarm_Pause := 0\<rparr>" "dec t = dec s" "dev t = dev s"
    "mode_of (board_of t) Peak_ON = PIN_MODE_INPUT" "mode_of (board_of t) Peak_Loss = PIN_MODE_INPUT"
    by (simp_all add: t_def g f NTC_Init_def WaterScan_Init_def WaterScan_IO_Init_def button_task_init_def Key_Pin_Init_def
        RF_Switch_Pin_Init_def select_antenna_def)
qed

lemma boot_quiet:
  assumes "Flash_Get_SlaveAlarmFlag (flash_loaded hw e) = 0"
  shows "WarningPastStatus (wk (boot hw e)) = 0" "WarningStatus (wk (boot hw e)) = 0" "Water_Alarm_Pause (wk (boot hw e)) = 0"
    "Learn_Flag (dec (boot hw e)) = 0" "priority (NowStatusEvent (sta (boot hw e))) = 0"
    "mode_of (board_of (boot hw e)) Peak_ON = PIN_MODE_INPUT" "mode_of (board_of (boot hw e)) Peak_Loss = PIN_MODE_INPUT"
    "ID (table_of (boot hw e)) = ID (Global_Device (flash_loaded hw e))"
    "Num (table_of (boot hw e)) = Num (Global_Device (flash_loaded hw e))"
    "LastFlag (Global_Device (flash_loaded hw e)) = OtherOff \<Longrightarrow> dev (boot hw e) = flash_loaded hw e"
proof -
  define s where "s = moto_setup (main_services hw (cold (hw_pins hw) e))"
  have s: "dev s = flash_loaded hw e" "WarningPastStatus (wk s) = 0" "WarningStatus (wk s) = 0" "Learn_Flag (dec s) = 0"
    "priority (NowStatusEvent (sta s)) = 0"
    using services_sel [of hw "hw_pins hw" e]
    by (simp_all add: s_def moto_setup_def main_services_def Key_Reponse_def Key_SemInit_def WarningInit_def RTC_Init_def
        RadioQueue_Init_def cold_def WarningEventInit_def)
  have w: "wk (moto_resume s) = wk s" "dec (moto_resume s) = dec s"
    "NowStatusEvent (sta (moto_resume s)) = NowStatusEvent (sta s)"
    "ID (table_of (moto_resume s)) = ID (table_of s)" "Num (table_of (moto_resume s)) = Num (table_of s)"
    "LastFlag (Global_Device (flash_loaded hw e)) = OtherOff \<Longrightarrow> dev (moto_resume s) = flash_loaded hw e"
    using assms by (simp_all add: s(1) moto_resume_def Moto_InitOpen_def cond_def Flash_Moto_Change_def)
  have b: "boot hw e = (block [NTC_Init, button_task_init, WaterScan_Init, DetectFactory, Gateway_Init]) (moto_resume s)"
    by (simp add: boot_def main_tasks_def s_def Moto_Init_def)
  show "WarningPastStatus (wk (boot hw e)) = 0" "WarningStatus (wk (boot hw e)) = 0" "Water_Alarm_Pause (wk (boot hw e)) = 0"
    "Learn_Flag (dec (boot hw e)) = 0" "priority (NowStatusEvent (sta (boot hw e))) = 0"
    "mode_of (board_of (boot hw e)) Peak_ON = PIN_MODE_INPUT" "mode_of (board_of (boot hw e)) Peak_Loss = PIN_MODE_INPUT"
    "ID (table_of (boot hw e)) = ID (Global_Device (flash_loaded hw e))"
    "Num (table_of (boot hw e)) = Num (Global_Device (flash_loaded hw e))"
    "LastFlag (Global_Device (flash_loaded hw e)) = OtherOff \<Longrightarrow> dev (boot hw e) = flash_loaded hw e"
    unfolding b tail_quiet tail_keeps by (simp_all add: w s)
qed

end
