(* ===== verification/Reachable.thy ===== *)
theory Reachable
  imports StartUp
begin

text \<open>
  Every step of the firmware keeps the system invariant, so it holds in every reachable state: no
  assertion of the kernel fails, the device table is well formed, the queue is within its bound, and
  the valve is safe.
\<close>

section \<open>The remaining activities\<close>

lemma refines_pins: "p \<noteq> Turn1 \<Longrightarrow> p \<noteq> Turn2 \<Longrightarrow> p \<noteq> Senor1 \<Longrightarrow> p \<noteq> Senor2 \<Longrightarrow>
    refines M (on_board (rt_pin_write p v)) id"
  by (rule refinesI; simp add: base_ok_def leds_ok_def queue_ok_def view_def timer_active_def rt_pin_read_def)

lemma keeps_pins: "p \<noteq> Turn1 \<Longrightarrow> p \<noteq> Turn2 \<Longrightarrow> p \<noteq> Senor1 \<Longrightarrow> p \<noteq> Senor2 \<Longrightarrow>
    keeps_inv (sys_inv X) (on_board (rt_pin_write p v))"
  by (intro keeps_neutral refines_pins)

lemma keeps_btn: "(\<And>k. Key_Pause_Flag (f k) = Key_Pause_Flag k) \<Longrightarrow> keeps_inv (sys_inv X) (btn_update f)"
  by (intro keeps_neutral refines_button)

lemma keeps_button_events: "keeps_inv (sys_inv X) (k0_event ev)" "keeps_inv (sys_inv X) (k1_event ev)"
  unfolding k0_event_def k1_event_def K0_Sem_Release_def K1_Sem_Release_def K0_LongSem_Release_def
    K1_LongSem_Release_def K0_LongFree_Release_def K1_LongFree_Release_def
  by (cases ev; simp; intro keeps_inv_block keeps_inv_cond keeps_inv_id keeps_btn refines_sem [THEN keeps_neutral]; simp)+

lemma keeps_fold: "(\<And>x. keeps_inv I (f x)) \<Longrightarrow> keeps_inv I (fold f xs)"
  by (induction xs) (simp_all add: keeps_inv_def)

lemma keeps_buttons: "keeps_inv (sys_inv X) button_task_round"
proof -
  have "keeps_inv (sys_inv X) RF_Switch"
    unfolding RF_Switch_def select_antenna_def
    by (intro keeps_inv_block keeps_inv_cond keeps_inv_id keeps_inv_reading keeps_btn keeps_pins keeps_ui
        led_safe_intros; simp)
  moreover have "keeps_inv (sys_inv X) process_key1" "keeps_inv (sys_inv X) process_key0"
    unfolding process_key1_def process_key0_def
    by (intro keeps_inv_reading; simp split: prod.split; intro allI impI keeps_inv_block keeps_btn keeps_fold
        keeps_button_events; simp)+
  ultimately show ?thesis unfolding button_task_round_def by (intro keeps_inv_block)
qed

lemma sys_inv_lights:
  assumes "sys_inv X s" "led_process_pass (led_complete (Heart_Status (gw s))) (ui s) = Some u"
  shows "sys_inv X (s\<lparr>ui := u\<rparr>)"
proof -
  obtain M where M: "ALL_TIMERS \<subseteq> M" "base_ok M X s" "valve_safe (view s)"
    using assms(1) by (auto simp: sys_inv_def)
  have u: "leds_ok u" "signal_frame (board_of s) (bd u)"
    using led_thread.led_pass_total [of "ui s" "Heart_Status (gw s)"] M(2) assms(2) by (auto simp: base_ok_def)
  have "base_ok M X (s\<lparr>ui := u\<rparr>)"
    using M(2) u signal_frame_kernel [OF u(2)] by (simp add: base_ok_def queue_ok_def)
  moreover have "view (s\<lparr>ui := u\<rparr>) = view s"
    using signal_frame_sel [OF u(2)] by (simp add: view_def timer_active_def rt_pin_read_def)
  ultimately show ?thesis using M(1,3) unfolding sys_inv_def by metis
qed

lemma sys_inv_environment:
  assumes "sys_inv X s"
  shows "sys_inv X (on_board (tick_update f) s)" "sys_inv X (on_board (pin_in_update g) s)"
proof -
  have k: "kernel_ok M X (pin_in_update g b) = kernel_ok M X b" for M b
    by (simp add: kernel_ok_def timer_made_def timer_active_def)
  have "refines M (on_board (tick_update f)) id" for M
    by (rule refinesI; simp add: base_ok_def leds_ok_def queue_ok_def kernel_ok_def timer_made_def view_def
        timer_active_def rt_pin_read_def)
  then show "sys_inv X (on_board (tick_update f) s)" using assms keeps_neutral keeps_invD by metis
  have v: "view (on_board (pin_in_update g) s) = (view s)\<lparr>v_s1 := rt_pin_read Senor1 (pin_in_update g (board_of s)),
      v_s2 := rt_pin_read Senor2 (pin_in_update g (board_of s))\<rparr>"
    by (simp add: view_def timer_active_def)
  have "base_ok M X s \<Longrightarrow> base_ok M X (on_board (pin_in_update g) s)" for M
    by (rule base_ok_board) (simp_all add: base_ok_def k)
  then show "sys_inv X (on_board (pin_in_update g) s)" using assms v unfolding sys_inv_def by auto
qed

section \<open>Timers\<close>

lemma kernel_ok_expire:
  assumes "kernel_ok M {} b" "timer_active t b"
  shows "kernel_ok M (if is_periodic t then {t} else {}) (soft_timer_expire t b)"
    "timer_active u (soft_timer_expire t b) = (timer_active u b \<and> (u = t \<longrightarrow> is_periodic t))"
proof -
  have b: "timers b u = Some q \<Longrightarrow> periodic q = is_periodic u" for u q
    using assms(1) by (simp add: kernel_ok_def)
  obtain r where r: "timers b t = Some r" "activated r" "periodic r = is_periodic t"
    using assms(2) b by (auto simp: timer_active_def split: option.splits)
  show a: "timer_active u (soft_timer_expire t b) = (timer_active u b \<and> (u = t \<longrightarrow> is_periodic t))" for u
    using r by (simp add: timer_active_def soft_timer_expire_def)
  have m: "timer_made u (soft_timer_expire t b) = timer_made u b" for u
    using r by (simp add: timer_made_def soft_timer_expire_def)
  have l: "soft_timer_list (soft_timer_expire t b) = removeAll t (soft_timer_list b)"
    "fault (soft_timer_expire t b) = fault b" "sems (soft_timer_expire t b) = sems b"
    by (simp_all add: soft_timer_expire_def)
  have p: "timers (soft_timer_expire t b) u = Some q \<Longrightarrow> periodic q = is_periodic u" for u q
    using b [of u q] r by (cases "u = t") (auto simp: soft_timer_expire_def split: if_splits)
  have "distinct (removeAll t (soft_timer_list b))" "\<not> fault b" "\<forall>m. sems b m \<noteq> None"
    using assms(1) by (simp_all add: kernel_ok_def distinct_removeAll)
  moreover have "u \<in> set (soft_timer_list b) \<longleftrightarrow> timer_active u b" "timer_made u b \<longleftrightarrow> u \<in> M" for u
    using assms(1) by (auto simp: kernel_ok_def)
  ultimately show "kernel_ok M (if is_periodic t then {t} else {}) (soft_timer_expire t b)"
    unfolding kernel_ok_def a m l using p by auto
qed

lemma kernel_ok_rearm:
  assumes "kernel_ok M (if is_periodic t then {t} else {}) b"
  shows "kernel_ok M {} (soft_timer_rearm t b)" "timer_active u (soft_timer_rearm t b) = timer_active u b"
proof -
  have per: "timers b t = Some q \<Longrightarrow> periodic q = is_periodic t" for q
    using assms by (simp add: kernel_ok_def)
  have e: "soft_timer_rearm t b =
      (if is_periodic t \<and> timer_active t b \<and> t \<notin> set (soft_timer_list b) then rt_timer_start t b else b)"
    using per by (auto simp: soft_timer_rearm_def timer_active_def split: option.split)
  show "timer_active u (soft_timer_rearm t b) = timer_active u b"
    unfolding e by (auto simp: timer_active_start)
  show "kernel_ok M {} (soft_timer_rearm t b)"
  proof (cases "is_periodic t \<and> timer_active t b \<and> t \<notin> set (soft_timer_list b)")
    case True
    then have p: "timer_made t b" by (simp add: timer_active_made)
    have "kernel_ok M {t} (rt_timer_start t b)" using kernel_ok_start [OF _ p] assms True by simp
    then have "kernel_ok M {} (rt_timer_start t b)"
      using soft_timer_list_start(1) [OF p] by (auto simp: kernel_ok_def)
    with True show ?thesis unfolding e by simp
  next
    case False
    then have "kernel_ok M {} b" using assms by (auto simp: kernel_ok_def split: if_splits)
    then show ?thesis unfolding e if_not_P [OF False] .
  qed
qed

text \<open>The state when the callback of \<open>t\<close> starts.\<close>

lemma expired:
  assumes "base_ok M {} s" "timer_active t (board_of s)"
  defines "s1 \<equiv> on_board (soft_timer_expire t) s"
  shows "base_ok M (if is_periodic t then {t} else {}) s1"
    "view s1 = (if is_periodic t then view s else v_timer t False (view s))"
proof -
  have k: "kernel_ok M {} (board_of s)" using assms(1) by (simp add: base_ok_def)
  show "base_ok M (if is_periodic t then {t} else {}) s1"
    using assms(1) kernel_ok_expire(1) [OF k assms(2)]
    by (simp add: s1_def base_ok_def leds_ok_def queue_ok_def del: if_split)
  have p: "pin_out (soft_timer_expire t b) = pin_out b" "rt_pin_read q (soft_timer_expire t b) = rt_pin_read q b" for t b q
    by (simp_all add: soft_timer_expire_def rt_pin_read_def)
  show "view s1 = (if is_periodic t then view s else v_timer t False (view s))"
    using kernel_ok_expire(2) [OF k assms(2)]
    by (cases t) (simp_all add: s1_def view_def p v_timer_def is_periodic_def)
qed

lemma rearmed:
  assumes "sys_inv (if is_periodic t then {t} else {}) s"
  shows "sys_inv {} (on_board (soft_timer_rearm t) s)"
proof -
  obtain M where M: "ALL_TIMERS \<subseteq> M" "base_ok M (if is_periodic t then {t} else {}) s" "valve_safe (view s)"
    using assms unfolding sys_inv_def by blast
  then have k: "kernel_ok M (if is_periodic t then {t} else {}) (board_of s)" by (simp only: base_ok_def)
  have "base_ok M {} (on_board (soft_timer_rearm t) s)"
    using M(2) kernel_ok_rearm(1) [OF k] by (simp add: base_ok_def leds_ok_def queue_ok_def)
  moreover have "pin_out (soft_timer_rearm t b) = pin_out b" "rt_pin_read q (soft_timer_rearm t b) = rt_pin_read q b" for b q
    by (simp_all add: soft_timer_rearm_def split: option.split)
  then have "view (on_board (soft_timer_rearm t) s) = view s"
    using kernel_ok_rearm(2) [OF k] by (simp add: view_def)
  ultimately show ?thesis using M(1,3) unfolding sys_inv_def by metis
qed

text \<open>A self-test timer only runs while the valve is open; when it expires, its callback ends in a safe state.\<close>

lemma a_expire_detect:
  assumes "valve_safe v"
  shows "v_det1 v \<Longrightarrow> valve_safe (v\<lparr>v_det1 := False, v_keys_off := False, v_water_off := False, v_t1 := True\<rparr>)"
    "v_det2 v \<Longrightarrow> valve_safe (v\<lparr>v_det2 := False, v_keys_off := False, v_water_off := False, v_t2 := True\<rparr>)"
  using assms by (auto simp: valve_safe_def self_test_runs_def)

definition detect_end1 :: "sys \<Rightarrow> sys" where
  "detect_end1 = block [Key_IO_Init, WaterScan_IO_Init, on_board (rt_pin_irq_enable Senor1 False),
     on_board (rt_pin_write Turn1 True)]"

definition detect_end2 :: "sys \<Rightarrow> sys" where
  "detect_end2 = block [Key_IO_Init, WaterScan_IO_Init, on_board (rt_pin_irq_enable Senor2 False),
     on_board (rt_pin_write Turn2 True)]"

lemma refines_detect_end:
  "refines M detect_end1 (\<lambda>v. v\<lparr>v_keys_off := False, v_water_off := False, v_t1 := True\<rparr>)"
  "refines M detect_end2 (\<lambda>v. v\<lparr>v_keys_off := False, v_water_off := False, v_t2 := True\<rparr>)"
  unfolding detect_end1_def detect_end2_def
  by (rule refines_eq, (rule refine_rules)+, simp)+

lemma keeps_detect_verdict:
  "keeps_inv (sys_inv X) (cond (\<lambda>s. Turn1_Flag (mo s) < 2)
          (block [cond (\<lambda>s. Moto2_Fail_FLag (mo s) = 0)
             (block [Warning_Enable_Num 6, mo_update (Valve_Alarm_Flag_update (\<lambda>_. 1))]) id,
           mo_update (Moto1_Fail_FLag_update (\<lambda>_. 1))])
          (block [cond (\<lambda>s. Moto2_Fail_FLag (mo s) = 0)
             (block [WarUpload_GW 1 0 2 0, mo_update (Valve_Alarm_Flag_update (\<lambda>_. 0))]) id,
           mo_update (Moto1_Fail_FLag_update (\<lambda>_. 0))]))"
  "keeps_inv (sys_inv X) (cond (\<lambda>s. Turn2_Flag (mo s) < 2)
          (block [Warning_Enable_Num 9,
           mo_update (block [Moto2_Fail_FLag_update (\<lambda>_. 1), Valve_Alarm_Flag_update (\<lambda>_. 1)])])
          (block [WarUpload_GW 1 0 2 1,
           mo_update (block [Moto2_Fail_FLag_update (\<lambda>_. 0), Valve_Alarm_Flag_update (\<lambda>_. 0)])]))"
  by (intro keeps)+

lemma sys_invI: "ALL_TIMERS \<subseteq> M \<Longrightarrow> base_ok M X s \<Longrightarrow> valve_safe (view s) \<Longrightarrow> sys_inv X s"
  by (auto simp: sys_inv_def)

lemma refinesD: "refines M f F \<Longrightarrow> base_ok M X s \<Longrightarrow> base_ok M X (f s)"
  "refines M f F \<Longrightarrow> base_ok M X s \<Longrightarrow> view (f s) = F (view s)"
  by (simp_all add: refines_def)

lemma self_test_callbacks:
  assumes M: "ALL_TIMERS \<subseteq> M" and s: "base_ok M {} s" "valve_safe (view s)" and t: "self_test_timer t"
    and a: "timer_active t (board_of s)"
  shows "sys_inv {} (timer_callback t (on_board (soft_timer_expire t) s))"
proof -
  let ?s = "on_board (soft_timer_expire t) s"
  have np: "\<not> is_periodic t" using t by (auto simp: self_test_timer_def is_periodic_def)
  have b: "base_ok M {} ?s" "view ?s = v_timer t False (view s)"
    using expired [OF s(1) a] np by simp_all
  note act = refinesD [OF refines_Act_Callbacks(1) [OF valve_timers_all [OF M]] b(1)]
    refinesD [OF refines_Act_Callbacks(2) [OF valve_timers_all [OF M]] b(1)]
  note det = refinesD [OF refines_detect_end(1) b(1)] refinesD [OF refines_detect_end(2) b(1)]
  consider "t = Moto1_Timer_Act" | "t = Moto2_Timer_Act" | "t = Moto1_Timer_Detect" | "t = Moto2_Timer_Detect"
    using t by (auto simp: self_test_timer_def)
  then show ?thesis
  proof cases
    case 1
    then show ?thesis
      using act(1,2) b(2) a s(2) a_expire_act_safe(1) [OF s(2)]
      by (intro sys_invI [OF M]) (simp_all add: timer_callback_def v_timer_def view_def)
  next
    case 2
    then show ?thesis
      using act(3,4) b(2) a s(2) a_expire_act_safe(2) [OF s(2)]
      by (intro sys_invI [OF M]) (simp_all add: timer_callback_def v_timer_def view_def)
  next
    case 3
    then have "sys_inv {} (detect_end1 ?s)"
      using det(1,2) b(2) a a_expire_detect(1) [OF s(2)]
      by (intro sys_invI [OF M]) (simp_all add: v_timer_def view_def)
    from keeps_invD [OF keeps_detect_verdict(1) this] 3 show ?thesis
      by (simp add: timer_callback_def Turn1_Timer_Callback_def detect_end1_def)
  next
    case 4
    then have "sys_inv {} (detect_end2 ?s)"
      using det(3,4) b(2) a a_expire_detect(2) [OF s(2)]
      by (intro sys_invI [OF M]) (simp_all add: v_timer_def view_def)
    from keeps_invD [OF keeps_detect_verdict(2) this] 4 show ?thesis
      by (simp add: timer_callback_def Turn2_Timer_Callback_def detect_end2_def)
  qed
qed

lemma keeps_callbacks:
  "\<not> self_test_timer t \<Longrightarrow> keeps_inv (sys_inv X) (timer_callback t)"
  by (cases t) (simp_all add: self_test_timer_def timer_callback_def keeps)

lemma fire_sys_inv:
  assumes "sys_inv {} s" "soft_timer_next (board_of s) = Some t"
  shows "sys_inv {} (fire t s)"
proof -
  obtain M where M: "ALL_TIMERS \<subseteq> M" "base_ok M {} s" "valve_safe (view s)"
    using assms(1) unfolding sys_inv_def by blast
  have a: "timer_active t (board_of s)"
    using assms(2) M(2) by (auto simp: soft_timer_next_def base_ok_def kernel_ok_def split: list.splits if_splits)
  have "sys_inv (if is_periodic t then {t} else {}) (timer_callback t (on_board (soft_timer_expire t) s))"
  proof (cases "self_test_timer t")
    case True
    then have "\<not> is_periodic t" by (auto simp: self_test_timer_def is_periodic_def)
    with self_test_callbacks [OF M True a] show ?thesis by simp
  next
    case False
    have "sys_inv (if is_periodic t then {t} else {}) (on_board (soft_timer_expire t) s)"
      using expired [OF M(2) a] v_timer_other [OF False] M(3) by (intro sys_invI [OF M(1)]) auto
    then show ?thesis by (rule keeps_invD [OF keeps_callbacks [OF False]])
  qed
  from rearmed [OF this] show ?thesis by (simp add: fire_def)
qed

section \<open>Every step\<close>

lemma persist_table:
  assumes "table_wf db" "init_ok (env db)"
  shows "persist_ok (env db)"
proof -
  have "env db\<lparr>init_ok := True\<rparr> = env db" using assms(2) by simp
  with assms(1) show ?thesis
    by (simp add: persist_ok_def table_wf_def store_wf_def getter_defs read_key_def)
qed

lemma restart_sys_inv:
  assumes "sys_inv X s" "init_ok (env (dev s))"
  shows "sys_inv {} (boot hw (env (dev s)))"
  using assms by (intro boot_sys_inv persist_table) (auto simp: sys_inv_def base_ok_def table_ok_def)

lemma keys_sys_inv: "sys_inv X s \<Longrightarrow> key_round s = (r, s') \<Longrightarrow> sys_inv X s'"
  using sys_inv_key_round [of X s] by simp

theorem step_sys_inv: "step s s' \<Longrightarrow> sys_inv {} s \<Longrightarrow> sys_inv {} s'"
proof (induction rule: step.induct)
  case (wipe s s' hw)
  then show ?case using keys_sys_inv restart_sys_inv by blast
next
  case (restart s hw)
  then show ?case using restart_sys_inv by blast
next
  case (keys s s')
  then show ?case using keys_sys_inv by blast
qed (simp_all add: sys_inv_environment fire_sys_inv keeps_invD [OF keeps_fields(5)] keeps_invD [OF keeps_normal(5)]
    keeps_invD [OF keeps_normal(6)] keeps_invD [OF keeps_buttons] keeps_invD [OF keeps_rtc(1)]
    keeps_invD [OF keeps_rtc(3)] keeps_invD [OF keeps_frames(3)] keeps_invD [OF keeps_rf_encode(1)]
    keeps_invD [OF keeps_rf_encode(2)] keeps_invD [OF keeps_transmit(4)] sys_inv_lights)

theorem reachable_sys_inv: "reachable s \<Longrightarrow> sys_inv {} s"
  by (induction rule: reachable.induct) (auto intro: boot_sys_inv step_sys_inv)

section \<open>What the invariant says of the valve\<close>

definition valve_shut :: "sys \<Rightarrow> bool" where
  "valve_shut s \<longleftrightarrow> ValveStatus (ky s) = 0 \<and> \<not> pin_out (board_of s) Turn1 \<and> \<not> pin_out (board_of s) Turn2"

definition no_self_test :: "sys \<Rightarrow> bool" where
  "no_self_test s \<longleftrightarrow> (\<forall>t \<in> set [Moto1_Timer_Act, Moto2_Timer_Act, Moto1_Timer_Detect, Moto2_Timer_Detect].
     \<not> timer_active t (board_of s))"

lemma sys_inv_safe: "sys_inv X s \<Longrightarrow> valve_safe (view s)"
  by (simp add: sys_inv_def)

lemma safe_shut: "sys_inv X s \<Longrightarrow> ValveStatus (ky s) = 0 \<Longrightarrow> valve_shut s \<and> no_self_test s"
  using sys_inv_safe [of X s] by (auto simp: valve_safe_def view_def self_test_runs_def valve_shut_def no_self_test_def)

lemma close_shut: "sys_inv X s \<Longrightarrow> sys_inv X s' \<Longrightarrow> v_valve (view s') = 0 \<Longrightarrow> valve_shut s'"
  using safe_shut [of X s'] by (simp add: view_def)


lemma sys_inv_refines:
  assumes "sys_inv X s" "\<And>M. ALL_TIMERS \<subseteq> M \<Longrightarrow> refines M f F"
  shows "view (f s) = F (view s)"
proof -
  obtain M where "ALL_TIMERS \<subseteq> M" "base_ok M X s" using assms(1) by (auto simp: sys_inv_def)
  with assms(2) show ?thesis by (auto simp: refines_def)
qed

lemma warning_accepted:
  assumes "sys_inv X s" "warning_of k = Some w" "priority (NowStatusEvent (sta s)) \<le> priority (initial_events w)"
    "callback (initial_events w) = Some cb"
  shows "view (Warning_Enable_Num k s) = a_warning cb (view s)"
proof -
  let ?f = "block [sta_update (NowStatusEvent_update (block [last_id_update (\<lambda>_. warning_id (initial_events w)),
      priority_update (\<lambda>_. priority (initial_events w))])),
    sta_update (NowStatusEvent_update (callback_update (\<lambda>_. Some cb)))]"
  have e: "events (sta s) = initial_events" using assms(1) by (auto simp: sys_inv_def base_ok_def)
  have w: "Warning_Enable_Num k s = run_callback cb (?f s)"
    using assms(2-4) by (simp add: Warning_Enable_Num_def Warning_Enable_def e)
  have "sys_inv X (?f s)"
    using assms(1) by (rule keeps_invD [rotated]) (intro keeps_inv_block keeps_event; simp)
  then have "view (run_callback cb (?f s)) = a_warning cb (view (?f s))"
    by (rule sys_inv_refines) (intro refines_run_callback valve_timers_all)
  moreover have "view (?f s) = view s" by (simp add: view_def)
  ultimately show ?thesis unfolding w by simp
qed

lemma initial_callback: "\<exists>cb. callback (initial_events w) = Some cb"
  by (cases w) (simp_all add: initial_events_def WarningEventInit_def)

end
