(* ===== verification/Restart.thy ===== *)
theory Restart
  imports Reachable
begin

text \<open>
  What a loss of power does: the start-up sequence reads the store that the running firmware has
  written, and finds the registry and the valve flag the running firmware had in memory.
\<close>

lemma loaded_again:
  assumes "table_ok db" "ef_usable (env db)" "hw_probe hw" "hw_store hw"
  defines "l \<equiv> Global_Device (flash_loaded hw (env db))"
  shows "Num l = Num (Global_Device db)" "DoorNum l = DoorNum (Global_Device db)"
    "GatewayNum l = GatewayNum (Global_Device db)" "n \<noteq> 0 \<Longrightarrow> arr_get (ID l) n = id_at db n"
    "LastFlag l = ucast (Flash_Get_Moto_Flag db)"
proof -
  let ?db = "\<lparr>Global_Device = Device_Info_zero, env = env db, stuck = False\<rparr>"
  have "env db\<lparr>init_ok := True\<rparr> = env db" using assms(2) by (simp add: ef_usable_def)
  then have e: "flash_loaded hw (env db) = LoadDevice2Memory ?db"
    using assms(3,4) by (simp add: flash_loaded_def flash_Init_def easyflash_init_def)
  have g: "Flash_Get_Learn_Nums ?db = Flash_Get_Learn_Nums db" "Flash_Get_Door_Nums ?db = Flash_Get_Door_Nums db"
    "Flash_Get_Gateway_Nums ?db = Flash_Get_Gateway_Nums db" "Flash_Get_Moto_Flag ?db = Flash_Get_Moto_Flag db"
    "Flash_Get_Key_Value k ?db = Flash_Get_Key_Value k db" for k
    by (simp_all add: getter_defs read_key_def)
  have wf: "table_wf db" "mirrored db" using assms(1,2) by (simp_all add: table_ok_def)
  have st: "store_wf ?db" "\<not> stuck ?db" using wf(1) by (simp_all add: table_wf_def store_wf_def g)
  note L = LoadDevice2Memory_spec [OF st, folded e l_def]
  show n: "Num l = Num (Global_Device db)" "DoorNum l = DoorNum (Global_Device db)"
    "GatewayNum l = GatewayNum (Global_Device db)" "LastFlag l = ucast (Flash_Get_Moto_Flag db)"
    using wf(2) by (simp_all add: L g mirrored_def Let_def)
  show "n \<noteq> 0 \<Longrightarrow> arr_get (ID l) n = id_at db n"
    using wf(2) table_wfD(7) [OF wf(1), of n] by (auto simp: L(5) g mirrored_def Let_def)
qed

text \<open>The start-up sequence changes nothing of the loaded table but the valve flag.\<close>

lemma Moto_Close_table: "\<exists>x. table_of (Moto_Close a s) = (table_of s)\<lparr>LastFlag := x\<rparr>"
proof -
  have "table_of (ControlUpload_GW b i c v s) = table_of s" for b i c v s
    by (simp add: ControlUpload_GW_def GatewayControlEnqueue_def mq_post_def cond_def split: option.split)
  then have "table_of (Moto_Close a s) = (if LastFlag (table_of s) \<noteq> OtherOff then (table_of s)\<lparr>LastFlag := a\<rparr> else table_of s)"
    by (simp add: Moto_Close_def cond_def Delay_Timer_Stop_def Flash_Moto_Change_def Key_IO_Init_def WaterScan_IO_Init_def)
  then show ?thesis by (metis (no_types) Device_Info.surjective Device_Info.update_convs(1))
qed

lemma moto_resume_table:
  assumes "events (sta s) = initial_events"
  shows "\<exists>x. table_of (moto_resume s) = (table_of s)\<lparr>LastFlag := x\<rparr>"
proof (cases "Flash_Get_SlaveAlarmFlag (dev s) = 0")
  case True
  then have "table_of (moto_resume s) = (table_of s)\<lparr>LastFlag := LastFlag (table_of (moto_resume s))\<rparr>"
    by (simp add: moto_resume_def Moto_InitOpen_def cond_def Flash_Moto_Change_def)
  then show ?thesis by blast
next
  case False
  have "\<exists>s1. table_of s1 = table_of s \<and> (table_of (Warning_Enable_Num 2 s) = table_of s \<or>
      table_of (Warning_Enable_Num 2 s) = table_of (Moto_Close OtherOff s1))"
    using assms by (auto simp: Warning_Enable_Num_def Warning_Enable_def warning_of_def initial_events_def
        WarningEventInit_def run_callback_def SlaverWaterAlarmWarning_def cond_def intro: exI [of _ "sta_update f s" for f])
  then obtain s1 where "table_of s1 = table_of s" "table_of (Warning_Enable_Num 2 s) = table_of s \<or>
      table_of (Warning_Enable_Num 2 s) = table_of (Moto_Close OtherOff s1)" by blast
  then have "\<exists>x. table_of (Warning_Enable_Num 2 s) = (table_of s)\<lparr>LastFlag := x\<rparr>"
    using Moto_Close_table [of OtherOff s1] by (metis (no_types) Device_Info.surjective Device_Info.update_convs(1))
  with False show ?thesis by (simp add: moto_resume_def)
qed

lemma boot_table:
  assumes "persist_ok e"
  shows "\<exists>x. table_of (boot hw e) = (Global_Device (flash_loaded hw e))\<lparr>LastFlag := x\<rparr>"
proof -
  let ?s = "moto_setup (main_services hw (cold (hw_pins hw) e))"
  have "base_ok MOTO_TIMERS {} ?s"
    using services_start [OF assms, of hw "hw_pins hw"] grows_moto_setup unfolding grows_def starting_def by blast
  then have "\<exists>x. table_of (moto_resume ?s) = (table_of ?s)\<lparr>LastFlag := x\<rparr>"
    by (intro moto_resume_table) (simp add: base_ok_def)
  moreover have "dev ?s = flash_loaded hw e" using services_sel(1) by (simp add: moto_setup_def)
  moreover have "dev (boot hw e) = dev (moto_resume ?s)"
    unfolding boot_def main_tasks_def Moto_Init_def using tail_quiet(3) by simp
  ultimately show ?thesis by simp
qed

lemma restart_loads:
  assumes "reachable s" "ef_usable (env (dev s))" "hw_probe hw" "hw_store hw"
  defines "s' \<equiv> boot hw (env (dev s))"
  shows "reachable s'" "Num (table_of s') = Num (table_of s)" "DoorNum (table_of s') = DoorNum (table_of s)"
    "GatewayNum (table_of s') = GatewayNum (table_of s)" "n \<noteq> 0 \<Longrightarrow> id_at (dev s') n = id_at (dev s) n"
    "LastFlag (Global_Device (flash_loaded hw (env (dev s)))) = LastFlag (table_of s)"
    "persist_ok (env (dev s))"
proof -
  have i: "sys_inv {} s" using assms(1) by (rule reachable_sys_inv)
  then have ok: "table_ok (dev s)" by (auto simp: sys_inv_def base_ok_def)
  have init: "init_ok (env (dev s))" using assms(2) by (simp add: ef_usable_def)
  show p: "persist_ok (env (dev s))" using ok init by (intro persist_table) (simp_all add: table_ok_def)
  show "reachable s'" unfolding s'_def by (rule reachable.step [OF assms(1)]) (rule step.restart [OF init])
  note l = loaded_again [OF ok assms(2-4)]
  obtain x where "table_of s' = (Global_Device (flash_loaded hw (env (dev s))))\<lparr>LastFlag := x\<rparr>"
    using boot_table [OF p] unfolding s'_def by blast
  with l show "Num (table_of s') = Num (table_of s)" "DoorNum (table_of s') = DoorNum (table_of s)"
    "GatewayNum (table_of s') = GatewayNum (table_of s)" "n \<noteq> 0 \<Longrightarrow> id_at (dev s') n = id_at (dev s) n"
    by simp_all
  have "saved_flag (dev s) = Some (LastFlag (table_of s))"
    using sys_inv_safe [OF i] assms(2) by (auto simp: valve_safe_def view_def saved_flag_def)
  then show "LastFlag (Global_Device (flash_loaded hw (env (dev s)))) = LastFlag (table_of s)"
    using assms(2) by (simp add: l saved_flag_def)
qed

text \<open>A valve that was locked when the power went is shut and locked after the restart.\<close>

lemma restart_locked:
  assumes "reachable s" "ef_usable (env (dev s))" "hw_probe hw" "hw_store hw" "LastFlag (table_of s) = OtherOff"
  defines "s' \<equiv> boot hw (env (dev s))"
  shows "valve_shut s'"
proof -
  note l = restart_loads [OF assms(1-4)]
  obtain b X where b: "base_ok MOTO_TIMERS X b" "priority (NowStatusEvent (sta b)) = 0" "ValveStatus (ky b) = 0"
    "Now_Status (sta b) = Close" "dev b = flash_loaded hw (env (dev s))"
    "sta s' = sta (moto_resume b)" "ky s' = ky (moto_resume b)"
    unfolding s'_def using boot_resumes [OF l(7), of hw] by metis
  have "LastFlag (table_of b) = OtherOff" using l(6) assms(5) b(5) by simp
  then have "ValveStatus (ky s') = 0"
    using resume_valve(1,2) [OF b(1-4)] b(7) by (cases "Flash_Get_SlaveAlarmFlag (dev b) = 0") simp_all
  then show ?thesis using safe_shut [OF reachable_sys_inv [OF l(1)]] by (simp add: s'_def)
qed

end
