(* ===== verification/Frames.thy ===== *)
theory Frames
  imports RadioDecoder RadioLink
begin

text \<open>
  The two sides of the radio protocol fit together: the text that the send thread builds
  (\<open>SendPrepare\<close>) is read by the receiver (\<open>rt_sscanf\<close> in \<open>NormalSolve\<close>) as the same
  numbers, and it has the length and the end marks the receiver asks for.
\<close>

section \<open>Scanning what was printed\<close>

lemma scan_literal: "\<not> isspace c \<Longrightarrow> c \<noteq> CHR ''%'' \<Longrightarrow> rt_sscanf (c # rp) (c # fp) = rt_sscanf rp fp"
  by simp

lemma scan_end: "rt_sscanf r [] = []"
  by (cases r) simp_all

lemma scan_number:
  assumes "LONG_MIN \<le> i" "i \<le> LONG_MAX" "ends_number r"
  shows "rt_sscanf (show_pad w i @ r) (CHR ''%'' # CHR ''d'' # fp) = word_of_int i # rt_sscanf r fp"
proof -
  have "show_pad w i @ r \<noteq> []" by (simp add: show_pad_def Let_def)
  then obtain c cs where c: "show_pad w i @ r = c # cs" by (cases "show_pad w i @ r") auto
  have "\<not> isspace CHR ''%''" by (simp add: isspace_def)
  then show ?thesis using strtol_show_pad [OF assms(3,1,2), of w] unfolding c by simp
qed

lemma uint8_in_long: "LONG_MIN \<le> uint (w :: uint8)" "uint (w :: uint8) \<le> LONG_MAX"
proof -
  have "0 \<le> uint w" "uint w < 256" using uint_bounded [of w] by simp_all
  then show "LONG_MIN \<le> uint w" "uint w \<le> LONG_MAX" unfolding LONG_MIN_def LONG_MAX_def by linarith+
qed

lemma word_of_uint8: "word_of_int (uint (w :: uint8)) = (ucast w :: uint32)"
  by (simp add: unsigned_ucast_eq)

lemma node_text_parsed:
  "rt_sscanf (node_text t i c k d @ r) ''{%d,%d,%d,%d,%d}'' = [t, i, ucast c, ucast k, ucast d]"
proof -
  have sp: "\<not> isspace CHR '',''" "\<not> isspace CHR ''{''" "\<not> isspace CHR ''}''" by (simp_all add: isspace_def)
  have e: "digit_in 10 CHR '','' = None" "digit_in 10 CHR ''}'' = None" by (simp_all add: digit_in_def)
  show ?thesis
    unfolding node_text_def show_int_pad [symmetric]
    by (simp add: show_int_pad sp e scan_literal scan_number scan_end sint_in_long uint8_in_long word_of_uint8
        del: rt_sscanf.simps)
qed

section \<open>The layout of a frame\<close>

lemma length_node_text:
  assumes "0 \<le> sint t" "sint t < 100000000" "0 \<le> sint i" "sint i < 100000000" "k < 100" "d < 10"
  shows "length (node_text t i c k d) = 28"
proof -
  have c: "uint c < 10 ^ Suc 2" "uint k < 10 ^ Suc 1" "uint d < 10 ^ Suc 0"
    using uint_bounded [of c] assms(5,6) by (simp_all add: word_less_def)
  have u: "length (show_pad (Suc 2) (uint c)) = Suc 2" "length (show_pad (Suc 1) (uint k)) = Suc 1"
    by (rule length_show_pad; use c in simp)+
  have t: "length (show_pad (Suc 7) (sint t)) = Suc 7" "length (show_pad (Suc 7) (sint i)) = Suc 7"
    by (rule length_show_pad; use assms in simp)+
  have d: "length (show_int (uint d)) = 1"
  proof -
    have "nat (uint d) < 10" using c(3) by (simp del: nat_uint_eq)
    then show ?thesis by (simp add: show_int_def show_nat_small)
  qed
  show ?thesis using u t d by (simp add: node_text_def numeral_eq_Suc)
qed

lemma uint8_lt: "unat (w :: uint8) < 256"
proof -
  have "unat w < 2 ^ LENGTH(8)" by (rule unsigned_less)
  then show ?thesis by simp
qed

lemma hex_digit_not_nul: "v < 16 \<Longrightarrow> hex_digit v \<noteq> CHR 0x00"
proof
  assume "v < 16" "hex_digit v = CHR 0x00"
  then have "(of_char (hex_digit v) :: nat) = 0" by simp
  moreover have "of_char (hex_digit v) = unat (if v < 10 then v + 48 else v - 10 + 65)"
  proof -
    have "unat w mod 256 = unat w" for w :: uint8 using uint8_lt by simp
    then show ?thesis unfolding hex_digit_def by (simp only: of_char_of)
  qed
  moreover have "unat (if v < 10 then v + 48 else v - 10 + 65) \<noteq> 0"
    using \<open>v < 16\<close> by (auto simp: word_less_nat_alt unat_word_ariths unat_sub_if_size)
  ultimately show False by simp
qed

lemma node_buffer_frame:
  assumes "length t = 28"
  shows "\<exists>h1 h2. node_buffer t = t @ [h1, h2, CHR 0x0D, CHR 0x0A] @ replicate 223 (CHR 0x00) \<and>
    h1 = hex_digit (byte_sum t div 16) \<and> h2 = hex_digit (byte_sum t mod 16)"
proof -
  have r: "replicate 227 c = [c, c, c, c] @ replicate 223 c" for c :: char by (simp add: numeral_eq_Suc)
  show ?thesis
    using assms by (simp add: node_buffer_def text_buffer_def Let_def r list_update_append)
qed


lemma show_pad_chars: 
  assumes "c \<in> set (show_pad w i)"
  shows "c = CHR ''-'' \<or> (\<exists>d < 10. c = digit_char d)"
proof -
  have p: "c \<in> set (replicate k CHR ''0'' @ show_nat n) \<Longrightarrow> \<exists>d < 10. c = digit_char d" for k n
    by (rule all_digits_padded)
  show ?thesis
    using assms p unfolding show_pad_def Let_def by (cases "i < 0") (simp_all only: if_True if_False set_simps insert_iff, blast+)
qed

lemma node_text_not_nul: "c \<in> set (node_text t i n k d) \<Longrightarrow> c \<noteq> CHR 0x00"
proof -
  have z: "digit_in 10 CHR 0x00 = None" by (simp add: digit_in_def)
  have p: "CHR 0x00 \<notin> set (show_pad w v)" for w v
  proof
    assume "CHR 0x00 \<in> set (show_pad w v)"
    from show_pad_chars [OF this] obtain e where "e < 10" "CHR 0x00 = digit_char e" by auto
    with z show False by (metis digit_in_digit_char option.distinct(1))
  qed
  show "c \<in> set (node_text t i n k d) \<Longrightarrow> c \<noteq> CHR 0x00"
    unfolding node_text_def show_int_pad using p by (auto simp del: One_nat_def)
qed

lemma node_frame:
  assumes "length t = 28" "\<And>c. c \<in> set t \<Longrightarrow> c \<noteq> CHR 0x00"
  shows "takeWhile (\<lambda>c. c \<noteq> CHR 0x00) (node_buffer t) =
    t @ [hex_digit (byte_sum t div 16), hex_digit (byte_sum t mod 16), CHR 0x0D, CHR 0x0A]"
proof -
  have "byte_sum t div 16 < 16" "byte_sum t mod 16 < 16"
    using uint8_lt [of "byte_sum t"] by (simp_all add: word_less_nat_alt unat_div unat_mod)
  then have h: "hex_digit (byte_sum t div 16) \<noteq> CHR 0x00" "hex_digit (byte_sum t mod 16) \<noteq> CHR 0x00"
    by (simp_all add: hex_digit_not_nul)
  obtain h1 h2 where b: "node_buffer t = t @ [h1, h2, CHR 0x0D, CHR 0x0A] @ replicate 223 (CHR 0x00)"
    "h1 = hex_digit (byte_sum t div 16)" "h2 = hex_digit (byte_sum t mod 16)"
    using node_buffer_frame [OF assms(1)] by blast
  show ?thesis using assms(2) h unfolding b by (simp add: takeWhile_append2)
qed

lemma rf_transmit_node:
  "Type m = 0 \<Longrightarrow> sent (enc (rf_transmit m s)) = sent (enc s) @ [takeWhile (\<lambda>c. c \<noteq> CHR 0x00)
     (node_buffer (node_text (Taget_ID m) (RadioID (enc s)) (Counter m + 1) (Command m) (Data m)))]"
  by (simp add: rf_transmit_def SendPrepare_def put_buf_def)

end
