(* ===== verification/Reactions.thy ===== *)
theory Reactions
  imports Restart Frames
begin

text \<open>
  What the reactions of the firmware do in a state that satisfies the system invariant: the warnings
  that shut the valve, the commands of the gateway, the supervision of silent devices, and the
  factory reset.
\<close>

section \<open>Warnings that shut the valve\<close>

lemma closing_warning:
  assumes "sys_inv X s" "warning_of k = Some w" "priority (NowStatusEvent (sta s)) \<le> priority (initial_events w)"
    "callback (initial_events w) = Some cb" "\<And>v. a_warning cb v = a_set st (a_close a v)"
  shows "valve_shut (Warning_Enable_Num k s)" "Now_Status (sta (Warning_Enable_Num k s)) = st"
proof -
  have v: "view (Warning_Enable_Num k s) = a_set st (a_close a (view s))"
    using warning_accepted [OF assms(1-4)] assms(5) by simp
  show "Now_Status (sta (Warning_Enable_Num k s)) = st"
    using arg_cong [OF v, of v_status] by (simp add: view_def a_set_def)
  have "v_valve (view (Warning_Enable_Num k s)) = 0"
    unfolding v using a_close_closed [OF sys_inv_safe [OF assms(1)]] by (simp add: a_set_def)
  then show "valve_shut (Warning_Enable_Num k s)"
    using close_shut [OF assms(1)] keeps_invD [OF keeps_Warning_Enable_Num assms(1)] by blast
qed

text \<open>The record of the active warning: what is entered when a warning is accepted stays while its reaction runs.\<close>

lemma run_callback_event: "NowStatusEvent (sta (run_callback cb s)) = NowStatusEvent (sta s)"
proof -
  have u: "sta (ControlUpload_GW b i c v s) = sta s" "sta (WarUpload_GW b i c v s) = sta s" for b i c v s
    by (simp_all add: ControlUpload_GW_def GatewayControlEnqueue_def WarUpload_GW_def GatewayWarningEnqueue_def mq_post_def
        cond_def split: option.split)
  have m: "NowStatusEvent (sta (Moto_Close a s)) = NowStatusEvent (sta s)" for a s
    by (simp add: Moto_Close_def cond_def Delay_Timer_Stop_def Key_IO_Init_def WaterScan_IO_Init_def u)
  show ?thesis
    by (cases cb) (simp_all add: run_callback_def SlaverLowBatteryWarning_def SlaverUltraLowBatteryWarning_def
        SlaverWaterAlarmWarning_def MasterLostPeakWarning_def MasterWaterAlarmWarning_def OfflineWarning_def
        NTCWarningEvent_Callback_def Moto1FailCallback_def Moto2FailCallback_def cond_def u m)
qed

lemma warning_recorded:
  assumes "sys_inv X s" "warning_of k = Some w" "priority (NowStatusEvent (sta s)) \<le> priority (initial_events w)"
    "callback (initial_events w) = Some cb"
  shows "NowStatusEvent (sta (Warning_Enable_Num k s)) = (NowStatusEvent (sta s))
    \<lparr>last_id := warning_id (initial_events w), priority := priority (initial_events w), callback := Some cb\<rparr>"
proof -
  have e: "events (sta s) = initial_events" using assms(1) by (auto simp: sys_inv_def base_ok_def)
  show ?thesis
    using assms(2-4) by (simp add: Warning_Enable_Num_def Warning_Enable_def e run_callback_event)
qed

lemma water_warning:
  assumes "sys_inv X s" "priority (NowStatusEvent (sta s)) \<le> 7"
  shows "valve_shut (Warning_Enable_Num 4 s)" "Now_Status (sta (Warning_Enable_Num 4 s)) = MasterWaterAlarmActive"
  by (rule closing_warning [OF assms(1), where w = MasterWaterAlarmActiveEvent and cb = MasterWaterAlarmWarning_cb
        and a = NormalOff];
      use assms(2) in \<open>simp add: warning_of_def initial_events_def WarningEventInit_def a_warning_def\<close>)+

lemma slave_warning:
  assumes "sys_inv X s"
  shows "valve_shut (Warning_Enable_Num 2 s)" "Now_Status (sta (Warning_Enable_Num 2 s)) = SlaverWaterAlarmActive"
proof -
  have p: "priority (NowStatusEvent (sta s)) \<le> 8" using assms by (auto simp: sys_inv_def base_ok_def)
  show "valve_shut (Warning_Enable_Num 2 s)" "Now_Status (sta (Warning_Enable_Num 2 s)) = SlaverWaterAlarmActive"
    by (rule closing_warning [OF assms, where w = SlaverWaterAlarmActiveEvent and cb = SlaverWaterAlarmWarning_cb
          and a = OtherOff];
        use p in \<open>simp add: warning_of_def initial_events_def WarningEventInit_def a_warning_def\<close>)+
qed

lemma frost_warning:
  assumes "sys_inv X s" "priority (NowStatusEvent (sta s)) \<le> 2"
  shows "valve_shut (Warning_Enable_Num 8 s)" "Now_Status (sta (Warning_Enable_Num 8 s)) = NTCWarning"
    "adc (Warning_Enable_Num 8 s) = adc s"
proof -
  show "valve_shut (Warning_Enable_Num 8 s)" "Now_Status (sta (Warning_Enable_Num 8 s)) = NTCWarning"
    by (rule closing_warning [OF assms(1), where w = NTCWarningEvent and cb = NTCWarningEvent_cb and a = NormalOff];
        use assms(2) in \<open>simp add: warning_of_def initial_events_def WarningEventInit_def a_warning_def\<close>)+
  have "adc (ControlUpload_GW b i c v s) = adc s" "adc (WarUpload_GW b i c v s) = adc s" for b i c v s
    by (simp_all add: ControlUpload_GW_def GatewayControlEnqueue_def WarUpload_GW_def GatewayWarningEnqueue_def mq_post_def
        cond_def split: option.split)
  then have "adc (NTCWarningEvent_Callback s) = adc s" for s
    by (simp add: NTCWarningEvent_Callback_def Moto_Close_def cond_def Delay_Timer_Stop_def Key_IO_Init_def WaterScan_IO_Init_def)
  moreover have "events (sta s) = initial_events" using assms(1) by (auto simp: sys_inv_def base_ok_def)
  ultimately show "adc (Warning_Enable_Num 8 s) = adc s"
    by (simp add: Warning_Enable_Num_def Warning_Enable_def warning_of_def initial_events_def WarningEventInit_def
        run_callback_def cond_def)
qed

lemma offline_warning:
  assumes "sys_inv X s" "priority (NowStatusEvent (sta s)) \<le> 5"
  shows "valve_shut (Warning_Enable_Num 5 s)" "Now_Status (sta (Warning_Enable_Num 5 s)) = Offline"
proof -
  have v: "view (Warning_Enable_Num 5 s) = a_warning OfflineWarning_cb (view s)"
    using assms by (intro warning_accepted [where w = OfflineEvent])
      (simp_all add: warning_of_def initial_events_def WarningEventInit_def)
  show st: "Now_Status (sta (Warning_Enable_Num 5 s)) = Offline"
    using arg_cong [OF v, of v_status] by (auto simp: view_def a_warning_def a_set_def cond_def split: if_splits)
  have "sys_inv X (Warning_Enable_Num 5 s)" by (rule keeps_invD [OF keeps_Warning_Enable_Num assms(1)])
  moreover from this have "ValveStatus (ky (Warning_Enable_Num 5 s)) = 0"
    using st sys_inv_safe [of X "Warning_Enable_Num 5 s"] by (auto simp: valve_safe_def view_def shut_status_def)
  ultimately show "valve_shut (Warning_Enable_Num 5 s)" using safe_shut by blast
qed

section \<open>Silent devices\<close>

lemma report_offline_table:
  "ID_Time (table_of (report_offline i s)) = ID_Time (table_of s)" "ID (table_of (report_offline i s)) = ID (table_of s)"
  "DoorNum (table_of (report_offline i s)) = DoorNum (table_of s)"
  "GatewayNum (table_of (report_offline i s)) = GatewayNum (table_of s)"
  "arr_get (GetMesssage (table_of s)) n = 0 \<Longrightarrow> arr_get (GetMesssage (table_of (report_offline i s))) n = 0"
  "sta (report_offline i s) = sta s"
proof -
  have w: "table_of (WarUpload_GW b i c v s) = table_of s" "sta (WarUpload_GW b i c v s) = sta s" for b c v s
    by (simp_all add: WarUpload_GW_def GatewayWarningEnqueue_def mq_post_def cond_def split: option.split)
  show "ID_Time (table_of (report_offline i s)) = ID_Time (table_of s)" "ID (table_of (report_offline i s)) = ID (table_of s)"
    "DoorNum (table_of (report_offline i s)) = DoorNum (table_of s)"
    "GatewayNum (table_of (report_offline i s)) = GatewayNum (table_of s)" "sta (report_offline i s) = sta s"
    by (simp_all add: report_offline_def do_dev_def Device_AliveChange_def Let_def w Flash_AliveChange_def)
  show "arr_get (GetMesssage (table_of (report_offline i s))) n = 0" if "arr_get (GetMesssage (table_of s)) n = 0"
    using that by (auto simp: report_offline_def do_dev_def Device_AliveChange_def Let_def w Flash_AliveChange_def arr_get_def
        arr_set_def nth_list_update)
qed


definition silent :: "Device_Info \<Rightarrow> nat \<Rightarrow> bool" where
  "silent d n \<longleftrightarrow> arr_get (ID_Time d) n = 25 \<and> arr_get (GetMesssage d) n = 0 \<and> arr_get (ID d) n \<noteq> 0"

lemma detect_slot_keeps:
  assumes "silent (table_of s) n" "of_nat n \<noteq> DoorNum (table_of s)" "of_nat n \<noteq> GatewayNum (table_of s)"
    "detect_slot k (w, s) = (w', s')"
  shows "silent (table_of s') n" "of_nat n \<noteq> DoorNum (table_of s')" "of_nat n \<noteq> GatewayNum (table_of s')"
    "sta s' = sta s" "w \<or> k = n \<Longrightarrow> w'"
  using assms by (auto simp: detect_slot_def silent_def report_offline_table Let_def split: if_splits)

lemma detect_slots_warn:
  assumes "silent (table_of s) n" "of_nat n \<noteq> DoorNum (table_of s)" "of_nat n \<noteq> GatewayNum (table_of s)"
    "fold detect_slot ks (w, s) = (w', s')" "w \<or> n \<in> set ks"
  shows "w' \<and> sta s' = sta s"
  using assms
proof (induction ks arbitrary: w s)
  case (Cons k ks)
  obtain w1 s1 where 1: "detect_slot k (w, s) = (w1, s1)" by fastforce
  note d = detect_slot_keeps [OF Cons.prems(1-3) 1]
  have "w1 \<or> n \<in> set ks" using Cons.prems(5) d(5) by auto
  with Cons.IH [OF d(1-3)] Cons.prems(4) 1 d(4) show ?case by auto
qed simp

section \<open>Pairing\<close>

text \<open>The table after a pairing frame, and after a gateway's command to delete a device.\<close>

lemma queue_dev:
  "dev (RadioEnqueue i c k d s) = dev s" "dev (Replace_Door i s) = dev s"
  by (simp_all add: RadioEnqueue_def Replace_Door_def GatewayWarningEnqueue_def mq_post_def cond_def split: option.split)

lemma Device_Learn_table:
  assumes "msg_Command m = 3" "msg_Data m = 1"
  shows "dev (Device_Learn m s) = (if Flash_Get_Key_Valid (From_ID m) (dev s) = RT_EOK then dev s
    else snd (learn_table (From_ID m) (dev s)))"
proof -
  have a: "dev (after_add m r s) = dev s" for r s by (simp add: after_add_def learn_ack_def queue_dev)
  show ?thesis
    using assms a
    by (simp add: Device_Learn_def cond_def Check_Valid_def learn_ack_def queue_dev learn_table_def use_dev_def do_dev_def
        Add_DoorDevice_def)
qed

lemma gateway_delete_table:
  assumes "msg_Command m = 6"
  shows "dev (gateway_command m s) = snd (Delete_Device (Device_ID m) (dev s))"
  using assms by (simp add: gateway_command_def do_dev_def)

section \<open>Commands of the gateway\<close>

lemma view_sel: "v_valve (view s) = ValveStatus (ky s)" "v_last (view s) = LastFlag (table_of s)"
  "v_status (view s) = Now_Status (sta s)"
  by (simp_all add: view_def)

definition a_idle :: "vview \<Rightarrow> bool" where
  "a_idle v \<longleftrightarrow> v_status v = Close \<or> v_status v = Open"

lemma idle_view: "idle_status s = a_idle (view s)"
  by (simp add: idle_status_def a_idle_def view_def)

definition a_remote :: "bool \<Rightarrow> vview \<Rightarrow> vview" where
  "a_remote on v = (if a_idle v then if on then a_open OtherOpen v else a_close OtherOff v else v)"

lemma refines_gateway_valve:
  assumes M: "ALL_TIMERS \<subseteq> M"
  shows "refines M (gateway_valve m) (a_remote (msg_Data m \<noteq> 0))"
proof -
  note V = valve_timers_all [OF M]
  have r: "refines M (reading (\<lambda>s. RadioID (enc s)) (\<lambda>i. report_valve 1 i 2)) id"
    "refines M (reading (\<lambda>s. RadioID (enc s)) (\<lambda>i. ControlUpload_GW 0 i 2 3)) id"
    unfolding report_valve_def by (intro refines_reading refines_uplink)+
  have c: "refines M Remote_Open (cond a_idle (a_open OtherOpen) id)" "refines M Remote_Close (a_close OtherOff)"
    unfolding Remote_Open_def Remote_Close_def
    by (rule refines_cond, rule idle_view, rule refines_Moto_Open [OF V], rule refines_id,
        rule refines_Moto_Close [OF V])
  show ?thesis
    unfolding gateway_valve_def
    by (rule refines_eq, rule refines_block, rule refines_ui, (rule led_safe_intros)+, rule refines_block, rule refines_cond,
        rule idle_view, rule refines_block, rule refines_if, rule c, rule c, rule refines_block, rule r, rule refines_block,
        rule r, rule refines_block)
      (simp add: a_remote_def cond_def)
qed

section \<open>The factory reset\<close>

lemma take_keys_dev: "dev (take_keys s) = dev s"
  by (simp add: take_keys_def take_into_def Let_def split: prod.split)

lemma wipe_env: "key_round s = (True, s') \<Longrightarrow> env (dev s') = ef_env_set_default (env (dev s))"
proof -
  have d: "dev (Gateway_RemoteDelete s) = dev s" for s
    by (simp add: Gateway_RemoteDelete_def GatewaySyncEnqueue_def mq_post_def cond_def split: option.split)
  assume "key_round s = (True, s')"
  then have "s' = (block [DeleteAllDevice, ui_update (beep_start 0 8)]) (take_keys s)"
    by (auto simp: key_round_def Let_def split: if_splits)
  then show ?thesis by (simp add: DeleteAllDevice_def d take_keys_dev erase_table_def)
qed

lemma default_loaded:
  assumes "hw_probe hw" "hw_store hw" "init_ok e"
  defines "l \<equiv> flash_loaded hw (ef_env_set_default e)"
  shows "persist_ok (ef_env_set_default e)" "Num (Global_Device l) = 0" "LastFlag (Global_Device l) = 0"
    "Flash_Get_SlaveAlarmFlag l = 0"
proof -
  let ?db = "\<lparr>Global_Device = Device_Info_zero, env = ef_env_set_default e, stuck = False\<rparr>"
  have i: "ef_env_set_default e\<lparr>init_ok := True\<rparr> = ef_env_set_default e" using assms(3) by (simp add: ef_env_set_default_def)
  have z: "Flash_Get_Learn_Nums ?db = 0" "Flash_Get_Door_Nums ?db = 0" "Flash_Get_Gateway_Nums ?db = 0" "Flash_Get_Moto_Flag ?db = 0"
    by (simp_all add: getter_defs read_key_def ef_get_env_blob_def ef_env_set_default_def default_env_set_def)
  then have st: "store_wf ?db" "\<not> stuck ?db" by (simp_all add: store_wf_def)
  have l: "l = LoadDevice2Memory ?db"
    using assms(1,2) i by (simp add: l_def flash_loaded_def flash_Init_def easyflash_init_def)
  show "persist_ok (ef_env_set_default e)" using st(1) i by (simp add: persist_ok_def)
  show n: "Num (Global_Device l) = 0" "LastFlag (Global_Device l) = 0"
    unfolding l LoadDevice2Memory_spec(1,4) [OF st] by (simp_all add: z)
  show "Flash_Get_SlaveAlarmFlag l = 0" by (simp add: Flash_Get_SlaveAlarmFlag_def num16_def n)
qed

end
