(* ===== verification/Samples.thy ===== *)
theory Samples
  imports Reactions
begin

text \<open>
  Concrete starts of the firmware, on which the properties are instantiated: a device without
  partners whose stored valve flag is given, and a device with one enrolled sensor.
\<close>

section \<open>A device without partners\<close>

text \<open>A device that was closed by a remote party (\<open>Moto\<close> is \<open>OtherOff\<close>) and has no partners.\<close>

definition sample_led :: agile_led where
  "sample_led = \<lparr>active = False, pin = 0, active_logic = False, now_logic = False, save_logic = False,
     light_arr = None, arr_num = 0, arr_index = 0, loop_init = 0, loop_cnt = 0, tick_timeout = 0,
     compelete = None, pin_backup = 0\<rparr>"

definition sample_hw :: hardware where
  "sample_hw = \<lparr>hw_pins = (\<lambda>_. True), hw_mem = (\<lambda>_. sample_led), hw_probe = True, hw_store = True,
     hw_id = 12345678\<rparr>"

definition sample_env :: "string \<Rightarrow> env_store" where
  "sample_env flag = \<lparr>init_ok = True, ef_space = True, kv = [''Moto'' \<mapsto> flag]\<rparr>"

lemma sample_persist: "persist_ok (sample_env flag)"
  by (simp add: persist_ok_def sample_env_def store_wf_def getter_defs read_key_def ef_get_env_blob_def)

lemma sample_reachable: "reachable (boot sample_hw (sample_env flag))"
  by (rule reachable.boot) (rule sample_persist)

lemma sample_loaded:
  "Flash_Get_SlaveAlarmFlag (flash_loaded sample_hw (sample_env flag)) = 0"
  "LastFlag (Global_Device (flash_loaded sample_hw (sample_env flag))) =
     ucast (read_key ''Moto'' \<lparr>Global_Device = Device_Info_zero, env = sample_env flag, stuck = False\<rparr>)"
proof -
  let ?db = "\<lparr>Global_Device = Device_Info_zero, env = sample_env flag, stuck = False\<rparr>"
  have e: "flash_loaded sample_hw (sample_env flag) = LoadDevice2Memory ?db"
    by (simp add: flash_loaded_def flash_Init_def sample_hw_def easyflash_init_def sample_env_def)
  have w: "store_wf ?db" "\<not> stuck ?db"
    by (simp_all add: sample_env_def store_wf_def getter_defs read_key_def ef_get_env_blob_def)
  have n: "Num (Global_Device (LoadDevice2Memory ?db)) = 0"
    unfolding LoadDevice2Memory_spec(1) [OF w]
    by (simp add: sample_env_def getter_defs read_key_def ef_get_env_blob_def)
  then show "Flash_Get_SlaveAlarmFlag (flash_loaded sample_hw (sample_env flag)) = 0"
    by (simp add: e Flash_Get_SlaveAlarmFlag_def num16_def)
  show "LastFlag (Global_Device (flash_loaded sample_hw (sample_env flag))) =
     ucast (read_key ''Moto'' ?db)"
    unfolding e LoadDevice2Memory_spec(4) [OF w] by (simp add: Flash_Get_Moto_Flag_def)
qed

lemma sample_flag: "LastFlag (Global_Device (flash_loaded sample_hw (sample_env ''2''))) = OtherOff"
  "LastFlag (Global_Device (flash_loaded sample_hw (sample_env ''1''))) = NormalOff"
  unfolding sample_loaded(2) by code_simp+

lemma sample_start:
  "ValveStatus (ky (boot sample_hw (sample_env ''2''))) = 0" "Now_Status (sta (boot sample_hw (sample_env ''2''))) = Close"
  "ValveStatus (ky (boot sample_hw (sample_env ''1''))) = 1" "Now_Status (sta (boot sample_hw (sample_env ''1''))) = Open"
proof -
  obtain s X where s: "base_ok MOTO_TIMERS X s" "priority (NowStatusEvent (sta s)) = 0" "ValveStatus (ky s) = 0"
    "Now_Status (sta s) = Close" "dev s = flash_loaded sample_hw (sample_env ''2'')"
    "sta (boot sample_hw (sample_env ''2'')) = sta (moto_resume s)" "ky (boot sample_hw (sample_env ''2'')) = ky (moto_resume s)"
    using boot_resumes [OF sample_persist, of sample_hw] by metis
  show "ValveStatus (ky (boot sample_hw (sample_env ''2''))) = 0" "Now_Status (sta (boot sample_hw (sample_env ''2''))) = Close"
    using resume_valve(2) [OF s(1-4)] by (simp_all add: s sample_loaded(1) sample_flag)
  obtain s X where s: "base_ok MOTO_TIMERS X s" "priority (NowStatusEvent (sta s)) = 0" "ValveStatus (ky s) = 0"
    "Now_Status (sta s) = Close" "dev s = flash_loaded sample_hw (sample_env ''1'')"
    "sta (boot sample_hw (sample_env ''1'')) = sta (moto_resume s)" "ky (boot sample_hw (sample_env ''1'')) = ky (moto_resume s)"
    using boot_resumes [OF sample_persist, of sample_hw] by metis
  show "ValveStatus (ky (boot sample_hw (sample_env ''1''))) = 1" "Now_Status (sta (boot sample_hw (sample_env ''1''))) = Open"
    using resume_valve(3) [OF s(1-4)] by (simp_all add: s sample_loaded(1) sample_flag)
qed

lemma sample_table:
  "table_wf (dev (boot sample_hw (sample_env flag)))" "Num (table_of (boot sample_hw (sample_env flag))) = 0"
  "dev (boot sample_hw (sample_env ''2'')) = flash_loaded sample_hw (sample_env ''2'')"
proof -
  show "table_wf (dev (boot sample_hw (sample_env flag)))"
    using reachable_sys_inv [OF sample_reachable] by (auto simp: sys_inv_def base_ok_def table_ok_def)
  let ?db = "\<lparr>Global_Device = Device_Info_zero, env = sample_env flag, stuck = False\<rparr>"
  have e: "flash_loaded sample_hw (sample_env flag) = LoadDevice2Memory ?db"
    by (simp add: flash_loaded_def flash_Init_def sample_hw_def easyflash_init_def sample_env_def)
  have w: "store_wf ?db" "\<not> stuck ?db"
    by (simp_all add: sample_env_def store_wf_def getter_defs read_key_def ef_get_env_blob_def)
  show "Num (table_of (boot sample_hw (sample_env flag))) = 0"
    unfolding boot_quiet(9) [OF sample_loaded(1)] e LoadDevice2Memory_spec(1) [OF w]
    by (simp add: sample_env_def getter_defs read_key_def ef_get_env_blob_def)
  show "dev (boot sample_hw (sample_env ''2'')) = flash_loaded sample_hw (sample_env ''2'')"
    by (rule boot_quiet(10) [OF sample_loaded(1) sample_flag(1)])
qed

lemma sample_nobody:
  "Flash_Get_Key_Valid i (dev (boot sample_hw (sample_env flag))) = RT_ERROR"
  "GetDoorID (dev (boot sample_hw (sample_env flag))) = 0"
proof -
  let ?db = "dev (boot sample_hw (sample_env flag))"
  have "slot_of i ?db = 0" using slot_of_le [OF sample_table(1) [of flag], of i] sample_table(2) [of flag] by simp
  then show "Flash_Get_Key_Valid i ?db = RT_ERROR" by (simp add: Flash_Get_Key_Valid_def)
  have "DoorNum (Global_Device ?db) \<le> 0"
    using sample_table(1,2) [of flag] by (simp add: table_wf_def roles_ok_def)
  then show "GetDoorID ?db = 0" by (simp add: GetDoorID_def)
qed

section \<open>A device with one sensor\<close>

definition paired_env :: env_store where
  "paired_env = \<lparr>init_ok = True, ef_space = True, kv = [''Learn_Nums'' \<mapsto> ''1'', ''1'' \<mapsto> ''20000001'']\<rparr>"

lemma arr_set_zero: "arr_set (replicate n 0) i 0 = replicate n 0"
  by (metis arr_get_replicate arr_set_get_same)

lemma paired_literals:
  "atol ''1'' = 1"
  "atol ''20000001'' = 20000001"
  "show_ld 1 = ''1''"
  by (simp_all add: atol_def strtol_def isspace_def digit_in_def digits_val_def clamp_long_def LONG_MAX_def LONG_MIN_def
      show_ld_def show_int_def show_nat_small digit_char_literals(2) [unfolded One_nat_def])

lemma paired_reads:
  defines "db d \<equiv> \<lparr>Global_Device = d, env = paired_env, stuck = False\<rparr>"
  shows "Flash_Get_Learn_Nums (db d) = 1" "Flash_Get_Key_Value 1 (db d) = 20000001"
    "Flash_Get_Key_Value 88888888 (db d) = 0" "Flash_Get_Key_Value 88887777 (db d) = 0" "Flash_Get_Moto_Flag (db d) = 0"
    "CHR '':'' \<in> set name \<Longrightarrow> read_key (attr_key name i) (db d) = 0"
proof -
  show "Flash_Get_Learn_Nums (db d) = 1" "Flash_Get_Key_Value 1 (db d) = 20000001"
    "Flash_Get_Key_Value 88888888 (db d) = 0" "Flash_Get_Key_Value 88887777 (db d) = 0" "Flash_Get_Moto_Flag (db d) = 0"
    by (simp_all add: db_def getter_defs role_keys [symmetric] read_key_def ef_get_env_blob_def paired_env_def paired_literals Let_def)
  show "read_key (attr_key name i) (db d) = 0" if "CHR '':'' \<in> set name"
  proof -
    have "attr_key name i \<noteq> ''1''" by (rule attr_key_other [OF that]) simp
    then show ?thesis using attr_key_names(1) [OF that, of i]
      by (simp add: db_def read_key_def ef_get_env_blob_def paired_env_def)
  qed
qed

lemma paired_loaded:
  "flash_loaded sample_hw paired_env = \<lparr>Global_Device = 
     Device_Info_zero\<lparr>Num := 1, ID := arr_set (replicate 20 0) 1 20000001\<rparr>, env = paired_env, stuck = False\<rparr>"
proof -
  have e: "paired_env\<lparr>init_ok := False, init_ok := True\<rparr> = paired_env" by (simp add: paired_env_def)
  show ?thesis
    by (simp add: flash_loaded_def flash_Init_def sample_hw_def easyflash_init_def LoadDevice2Memory_def for_slots_def
       slots_def load_slot_def paired_reads Let_def Device_BatGet_def Device_RssiGet_def Flash_AliveGet_def Flash_Get_SlaveAlarm_def
       set_ID_def e arr_set_zero Device_Info_zero_def)
qed

lemma boot_sync:
  assumes "Flash_Get_SlaveAlarmFlag (flash_loaded hw e) = 0"
  shows "Gateway_Sync_Num (gw (boot hw e)) = 1"
proof -
  have u: "gw (ControlUpload_GW a i c v s) = gw s" for a i c v s
    by (simp add: ControlUpload_GW_def GatewayControlEnqueue_def mq_post_def cond_def split: option.split)
  have g: "Gateway_Sync_Num (gw (Gateway_Init s)) = Gateway_Sync_Num (gw s)" for s
    by (simp add: Gateway_Init_def load_Gateway_ID_def report_valve_def u cond_def Heart_Test_Start_def)
  have f: "gw (DetectFactory s) = gw s" for s
    by (simp add: DetectFactory_def Factory_Init_def Start_Factory_Cycle_def cond_def)
  define s where "s = moto_setup (main_services hw (cold (hw_pins hw) e))"
  have s: "dev s = flash_loaded hw e" "Gateway_Sync_Num (gw s) = 1"
    using services_sel(1) [of hw "hw_pins hw" e]
    by (simp_all add: s_def moto_setup_def main_services_def Key_Reponse_def Key_SemInit_def WarningInit_def RTC_Init_def
        RadioQueue_Init_def cold_def)
  have m: "gw (moto_resume s) = gw s"
    using assms by (simp add: s(1) moto_resume_def Moto_InitOpen_def cond_def)
  have "Gateway_Sync_Num (gw (boot hw e)) = Gateway_Sync_Num (gw (moto_resume s))"
    by (simp add: boot_def main_tasks_def s_def [symmetric] Moto_Init_def g f NTC_Init_def WaterScan_Init_def
        WaterScan_IO_Init_def button_task_init_def Key_Pin_Init_def RF_Switch_Pin_Init_def select_antenna_def)
  then show ?thesis by (simp add: m s(2))
qed

lemma paired_persist: "persist_ok paired_env"
proof -
  have "paired_env\<lparr>init_ok := True\<rparr> = paired_env" by (simp add: paired_env_def)
  then show ?thesis
    using paired_reads(1,3,4) [of Device_Info_zero]
    by (simp add: persist_ok_def store_wf_def Flash_Get_Door_Nums_def Flash_Get_Gateway_Nums_def Flash_Get_Key_Value_def role_keys)
qed

lemma paired_reachable: "reachable (boot sample_hw paired_env)"
  by (rule reachable.boot [OF paired_persist])

lemma paired_table:
  "Num (table_of (boot sample_hw paired_env)) = 1" "DoorNum (table_of (boot sample_hw paired_env)) = 0"
  "GatewayNum (table_of (boot sample_hw paired_env)) = 0" "arr_get (GetMesssage (table_of (boot sample_hw paired_env))) n = 0"
  "arr_get (ID (table_of (boot sample_hw paired_env))) 1 = 20000001"
proof -
  obtain x where "table_of (boot sample_hw paired_env) = (Global_Device (flash_loaded sample_hw paired_env))\<lparr>LastFlag := x\<rparr>"
    using boot_table [OF paired_persist] by blast
  then show "Num (table_of (boot sample_hw paired_env)) = 1" "DoorNum (table_of (boot sample_hw paired_env)) = 0"
    "GatewayNum (table_of (boot sample_hw paired_env)) = 0" "arr_get (GetMesssage (table_of (boot sample_hw paired_env))) n = 0"
    "arr_get (ID (table_of (boot sample_hw paired_env))) 1 = 20000001"
    by (simp_all add: paired_loaded Device_Info_zero_def)
qed

lemma paired_no_alarm: "Flash_Get_SlaveAlarmFlag (flash_loaded sample_hw paired_env) = 0"
  by (simp add: paired_loaded Flash_Get_SlaveAlarmFlag_def num16_def scan_down_0 Device_Info_zero_def)

lemma paired_quiet: "priority (NowStatusEvent (sta (boot sample_hw paired_env))) = 0"
  by (rule boot_quiet(5) [OF paired_no_alarm])

text \<open>The same device after 25 hours without a message of its sensor.\<close>

definition silent_state :: sys where
  "silent_state = on_table (ID_Time_update (\<lambda>_. replicate 20 25)) (boot sample_hw paired_env)"

lemma silent_inv: "sys_inv {} silent_state"
proof -
  let ?b = "boot sample_hw paired_env"
  obtain M where M: "ALL_TIMERS \<subseteq> M" "base_ok M {} ?b" "valve_safe (view ?b)"
    using reachable_sys_inv [OF paired_reachable] by (auto simp: sys_inv_def)
  have a: "arrays_ok (table_of ?b)" using M(2) by (simp add: base_ok_def table_ok_def table_wf_def)
  have "table_wf (gdev_upd (ID_Time_update (\<lambda>_. replicate 20 25)) (dev ?b)) = table_wf (dev ?b)"
    by (rule table_wf_gdev [where d = "table_of ?b"]) (use a in \<open>simp_all add: arrays_ok_def\<close>)
  then have "base_ok M {} silent_state"
    using M(2) by (simp add: silent_state_def base_ok_def queue_ok_def table_ok_def mirrored_gdev)
  moreover have "view silent_state = view ?b" by (simp add: silent_state_def view_def saved_flag_def)
  ultimately show ?thesis using M(1,3) by (intro sys_invI) simp_all
qed

lemma silent_slot: "silent (table_of silent_state) 1" "Num (table_of silent_state) = 1"
  "DoorNum (table_of silent_state) = 0" "GatewayNum (table_of silent_state) = 0"
  "priority (NowStatusEvent (sta silent_state)) = 0"
  using paired_table paired_quiet by (simp_all add: silent_state_def silent_def arr_get_def)

lemma sample_usable: "ef_usable (env (dev (boot sample_hw (sample_env ''2''))))"
proof -
  let ?db = "\<lparr>Global_Device = Device_Info_zero, env = sample_env ''2'', stuck = False\<rparr>"
  have e: "flash_loaded sample_hw (sample_env ''2'') = LoadDevice2Memory ?db"
    by (simp add: flash_loaded_def flash_Init_def sample_hw_def easyflash_init_def sample_env_def)
  have w: "store_wf ?db" "\<not> stuck ?db"
    by (simp_all add: sample_env_def store_wf_def getter_defs read_key_def ef_get_env_blob_def)
  show ?thesis unfolding sample_table(3) e LoadDevice2Memory_spec(7) [OF w] by (simp add: ef_usable_def sample_env_def)
qed

text \<open>A state in which the two-key gesture has just been recognised.\<close>

definition gesture_state :: sys where
  "gesture_state = (block [on_board (rt_sem_create K0_K1_Long_Sem 1), dev_update (env_update (easyflash_init True))])
     (cold (\<lambda>_. True) paired_env)"

lemma gesture_round: "fst (key_round gesture_state)"
  by (simp add: gesture_state_def key_round_def take_keys_def take_into_def rt_sem_take_def cold_def cold_board_def
      rt_sem_create_def assert_fail_def Let_def)

lemma sample_ready: "hw_probe sample_hw" "hw_store sample_hw"
  by (simp_all add: sample_hw_def)

lemma paired_sync: "Gateway_Sync_Num (gw (boot sample_hw paired_env)) = 1"
  using boot_sync [OF paired_no_alarm] .

section \<open>A message\<close>

definition sample_message :: Message where
  "sample_message = \<lparr>Target_ID = 12345678, From_ID = 20000001, Device_ID = 0, msg_Counter = 1, msg_Command = 4,
     msg_Data = 1, msg_Rssi = 0\<rparr>"

end
