(* ===== verification/Syswatch.thy ===== *)
theory Syswatch
  imports Prelude
begin

text \<open>
  The thread supervisor \<open>src/packages/syswatch-latest/src/syswatch.c\<close> in mode 0: once a second
  \<open>syswatch_fsm\<close> counts; a switch to the idle thread clears the count. If the idle thread is not
  reached for 60 s, the lowest running thread is determined for another 15 s and the system is reset.
  Threads are named by a type variable; their current priorities (a smaller number is more urgent), which
  the code reads through the thread pointers, and whether the outgoing thread only yields are arguments of
  the scheduler hook.
\<close>

section \<open>The supervisor\<close>

record 't sw_data =
  sec_cnt :: uint16
  op_step :: uint16
  lowest_thread :: "'t option"

definition SYSWATCH_EXCEPT_TIMEOUT :: uint16 where "SYSWATCH_EXCEPT_TIMEOUT = 60"
definition SYSWATCH_EXCEPT_CONFIRM_TMO :: uint16 where "SYSWATCH_EXCEPT_CONFIRM_TMO = 15"
definition RT_THREAD_PRIORITY_MAX :: uint8 where "RT_THREAD_PRIORITY_MAX = 32"

definition syswatch_thread_switch_hook ::
  "('t \<Rightarrow> uint8) \<Rightarrow> 't \<Rightarrow> bool \<Rightarrow> 't \<Rightarrow> 't sw_data \<Rightarrow> 't sw_data" where
  "syswatch_thread_switch_hook prio from_t from_running to_t d =
     (if prio from_t > prio to_t then d
      else if prio to_t = RT_THREAD_PRIORITY_MAX - 1 then d\<lparr>sec_cnt := 0, op_step := 0\<rparr>
      else if op_step d \<noteq> 1 then d
      else case lowest_thread d of
        None \<Rightarrow> d\<lparr>lowest_thread := Some to_t\<rparr>
      | Some low \<Rightarrow>
          if prio to_t > prio low then d\<lparr>lowest_thread := Some to_t\<rparr>
          else if prio to_t < prio low then d
          else if prio to_t = prio from_t \<and> from_running then d\<lparr>lowest_thread := Some from_t\<rparr>
          else d)"

definition syswatch_check_timeout :: "uint16 \<Rightarrow> 't sw_data \<Rightarrow> bool \<times> 't sw_data" where
  "syswatch_check_timeout tmo d =
     (let d1 = d\<lparr>sec_cnt := sec_cnt d + 1\<rparr> in
      if sec_cnt d1 < tmo then (False, d1) else (True, d1\<lparr>sec_cnt := 0\<rparr>))"

text \<open>
  \<open>syswatch_thread_except_resolve\<close>: true when it resets the system, which it does not do for no
  thread or for the supervisor itself.
\<close>

definition syswatch_thread_except_resolve :: "'t \<Rightarrow> 't option \<Rightarrow> bool" where
  "syswatch_thread_except_resolve self t = (case t of None \<Rightarrow> False | Some x \<Rightarrow> x \<noteq> self)"

text \<open>One second of \<open>syswatch_fsm\<close>; the first result is true when the system is reset.\<close>

definition syswatch_fsm :: "'t \<Rightarrow> 't sw_data \<Rightarrow> bool \<times> 't sw_data" where
  "syswatch_fsm self d =
     (if op_step d = 0 then
        let (tmo, d1) = syswatch_check_timeout SYSWATCH_EXCEPT_TIMEOUT d
        in (False, if tmo then d1\<lparr>op_step := 1, lowest_thread := None\<rparr> else d1)
      else if op_step d = 1 then
        let (tmo, d1) = syswatch_check_timeout SYSWATCH_EXCEPT_CONFIRM_TMO d
        in if tmo then (syswatch_thread_except_resolve self (lowest_thread d1), d1\<lparr>lowest_thread := None\<rparr>)
           else (False, d1)
      else (False, d\<lparr>op_step := 0, sec_cnt := 0\<rparr>))"

section \<open>No reset while the idle thread runs\<close>

text \<open>What can happen to the supervisor: a second passes, or the scheduler switches threads.\<close>

datatype 't watch_event = Second | Switch "'t \<Rightarrow> uint8" 't bool 't

fun watch_step :: "'t \<Rightarrow> 't watch_event \<Rightarrow> bool \<times> 't sw_data \<Rightarrow> bool \<times> 't sw_data" where
  "watch_step self Second (r, d) = (let (r', d') = syswatch_fsm self d in (r \<or> r', d'))"
| "watch_step self (Switch prio f run t) (r, d) = (r, syswatch_thread_switch_hook prio f run t d)"

definition watch_run :: "'t \<Rightarrow> 't watch_event list \<Rightarrow> bool \<times> 't sw_data \<Rightarrow> bool \<times> 't sw_data" where
  "watch_run self evs = fold (watch_step self) evs"

fun to_idle :: "'t watch_event \<Rightarrow> bool" where
  "to_idle Second = False"
| "to_idle (Switch prio f run t) = (prio f \<le> prio t \<and> prio t = RT_THREAD_PRIORITY_MAX - 1)"

text \<open>The largest number of seconds without the idle thread at any point of the run.\<close>

fun never_busy :: "nat \<Rightarrow> nat \<Rightarrow> 't watch_event list \<Rightarrow> bool" where
  "never_busy bound n [] = (n < bound)"
| "never_busy bound n (Second # es) = (n < bound \<and> never_busy bound (Suc n) es)"
| "never_busy bound n (e # es) = (n < bound \<and> never_busy bound (if to_idle e then 0 else n) es)"

definition watch_ok :: "nat \<Rightarrow> 't sw_data \<Rightarrow> bool" where
  "watch_ok n d \<longleftrightarrow> (op_step d = 0 \<and> unat (sec_cnt d) = n \<and> n < 60) \<or>
     (op_step d = 1 \<and> unat (sec_cnt d) + 60 = n \<and> n < 75)"

lemma unat16_Suc: "unat (w :: uint16) < 65535 \<Longrightarrow> unat (w + 1) = Suc (unat w)"
  by (simp add: unat_word_ariths)

lemma watch_ok_second:
  assumes "watch_ok n d" "Suc n < 75"
  shows "fst (syswatch_fsm self d) = False" "watch_ok (Suc n) (snd (syswatch_fsm self d))"
proof -
  have s: "unat (sec_cnt d + 1) = Suc (unat (sec_cnt d))"
    using assms(1) by (intro unat16_Suc) (auto simp: watch_ok_def)
  show "fst (syswatch_fsm self d) = False" "watch_ok (Suc n) (snd (syswatch_fsm self d))"
    using assms s
    by (auto simp: watch_ok_def syswatch_fsm_def syswatch_check_timeout_def SYSWATCH_EXCEPT_TIMEOUT_def
        SYSWATCH_EXCEPT_CONFIRM_TMO_def Let_def word_less_nat_alt)
qed

lemma watch_ok_switch:
  assumes "watch_ok n d"
  shows "watch_ok (if to_idle (Switch prio f r t) then 0 else n) (syswatch_thread_switch_hook prio f r t d)"
  using assms by (auto simp: watch_ok_def syswatch_thread_switch_hook_def split: option.split)

lemma watch_run_no_reset:
  "watch_ok n d \<Longrightarrow> never_busy 75 n evs \<Longrightarrow> fst (watch_run self evs (False, d)) = False"
proof (induction evs arbitrary: n d)
  case (Cons e evs)
  show ?case
  proof (cases e)
    case Second
    then have n: "Suc n < 75" using Cons.prems(2) by (cases evs) (auto split: watch_event.splits elim: never_busy.elims)
    obtain d' where d': "syswatch_fsm self d = (False, d')" "watch_ok (Suc n) d'"
      using watch_ok_second [OF Cons.prems(1) n, of self] by (metis prod.collapse)
    then show ?thesis using Cons.IH [OF d'(2)] Cons.prems(2) Second by (simp add: watch_run_def)
  next
    case (Switch prio f r t)
    then show ?thesis
      using Cons.IH [OF watch_ok_switch [OF Cons.prems(1)]] Cons.prems(2) by (simp add: watch_run_def)
  qed
qed (simp add: watch_run_def)

text \<open>
  C35: The supervisor does not reset a system whose idle thread runs at least once in every 75 seconds.
\<close>

theorem idle_no_reset:
  assumes "op_step d = 0" "sec_cnt d = 0" "never_busy 75 0 evs"
  shows "\<not> fst (watch_run self evs (False, d))"
  using watch_run_no_reset [of 0 d evs self] assms by (simp add: watch_ok_def)

definition sample_watch :: "uint8 sw_data" where
  "sample_watch = \<lparr>sec_cnt = 0, op_step = 0, lowest_thread = None\<rparr>"

text \<open>Two threads beside the idle thread 31 and the supervisor 0; a number is its own priority.\<close>

definition number_prio :: "uint8 \<Rightarrow> uint8" where [simp]: "number_prio t = t"

theorem idle_no_reset_witness:
  "\<not> fst (watch_run 0 [Second, Switch number_prio 10 True 31, Second] (False, sample_watch))"
  using idle_no_reset [of sample_watch "[Second, Switch number_prio 10 True 31, Second]" 0]
  by (simp add: sample_watch_def RT_THREAD_PRIORITY_MAX_def)

section \<open>A reset when the idle thread is starved\<close>

text \<open>
  One second of a system whose idle thread does not run: the tick wakes the supervisor, which preempts some
  thread, runs \<open>syswatch_fsm\<close> and sleeps again, so that some thread goes on; then the others switch among
  themselves. The supervisor has the priority 0 and is alone with it (\<open>SYSWATCH_THREAD_PRIO\<close>, \<open>rtconfig.h\<close>);
  the priorities of the other threads may change at any time.
\<close>

fun among :: "'t \<Rightarrow> 't watch_event \<Rightarrow> bool" where
  "among self Second = False"
| "among self (Switch prio f run t) = (f \<noteq> self \<and> t \<noteq> self \<and> prio t \<noteq> RT_THREAD_PRIORITY_MAX - 1)"

fun busy_second :: "'t \<Rightarrow> 't watch_event list \<Rightarrow> bool" where
  "busy_second self (Switch p f r s # Second # Switch q s' r' t # es) =
     (s = self \<and> s' = self \<and> f \<noteq> self \<and> t \<noteq> self \<and> p self = 0 \<and> 0 < p f \<and> q self = 0 \<and> 0 < q t \<and>
      q t \<noteq> RT_THREAD_PRIORITY_MAX - 1 \<and> list_all (among self) es)"
| "busy_second self _ = False"

lemma watch_run_simps: "watch_run self [] x = x" "watch_run self (e # es) x = watch_run self es (watch_step self e x)"
  by (simp_all add: watch_run_def)

lemma watch_run_append: "watch_run self (es @ es') x = watch_run self es' (watch_run self es x)"
  by (simp add: watch_run_def)

text \<open>What the switches of one second do while the supervisor counts, and while it looks for the thread.\<close>

definition culprit :: "'t \<Rightarrow> 't sw_data \<Rightarrow> bool" where
  "culprit self d \<longleftrightarrow> (case lowest_thread d of None \<Rightarrow> False | Some x \<Rightarrow> x \<noteq> self)"

lemma among_step:
  assumes "among self e"
  shows "\<exists>d'. watch_step self e (r, d) = (r, d') \<and> op_step d' = op_step d \<and> sec_cnt d' = sec_cnt d \<and>
    (op_step d = 0 \<longrightarrow> d' = d) \<and> (culprit self d \<longrightarrow> culprit self d')"
  using assms
  by (cases e) (auto simp: syswatch_thread_switch_hook_def culprit_def split: option.splits)

lemma among_run:
  assumes "list_all (among self) es"
  shows "\<exists>d'. watch_run self es (r, d) = (r, d') \<and> op_step d' = op_step d \<and> sec_cnt d' = sec_cnt d \<and>
    (op_step d = 0 \<longrightarrow> d' = d) \<and> (culprit self d \<longrightarrow> culprit self d')"
  using assms
proof (induction es arbitrary: d)
  case (Cons e es)
  then obtain d1 where d1: "watch_step self e (r, d) = (r, d1)" "op_step d1 = op_step d" "sec_cnt d1 = sec_cnt d"
    "op_step d = 0 \<longrightarrow> d1 = d" "culprit self d \<longrightarrow> culprit self d1"
    using among_step [of self e r d] by auto
  from Cons.IH [of d1] Cons.prems d1 show ?case by (auto simp: watch_run_simps)
qed (simp add: watch_run_simps)

lemma busy_second_run:
  assumes "busy_second self es" "syswatch_fsm self d = (x, d1)"
  shows "\<exists>d'. watch_run self es (r, d) = (r \<or> x, d') \<and> op_step d' = op_step d1 \<and> sec_cnt d' = sec_cnt d1 \<and>
    (op_step d1 = 1 \<longrightarrow> lowest_thread d1 = None \<or> culprit self d1 \<longrightarrow> culprit self d')"
  using assms(1)
proof (cases rule: busy_second.cases [of "(self, es)"])
  case (1 self' p f run s q s' run' t es')
  with assms(1) have b: "p self = 0" "0 < p f" "q self = 0" "0 < q t" "q t \<noteq> RT_THREAD_PRIORITY_MAX - 1"
    "t \<noteq> self" "list_all (among self) es'" "es = Switch p f run self # Second # Switch q self run' t # es'"
    by auto
  have in_t: "syswatch_thread_switch_hook p f run self d = d" using b by (simp add: syswatch_thread_switch_hook_def)
  define d2 where "d2 = syswatch_thread_switch_hook q self run' t d1"
  have d2: "op_step d2 = op_step d1" "sec_cnt d2 = sec_cnt d1"
    "op_step d1 = 1 \<Longrightarrow> lowest_thread d1 = None \<or> culprit self d1 \<Longrightarrow> culprit self d2"
    using b by (auto simp: d2_def syswatch_thread_switch_hook_def culprit_def split: option.splits)
  obtain d' where "watch_run self es' (r \<or> x, d2) = (r \<or> x, d')" "op_step d' = op_step d2" "sec_cnt d' = sec_cnt d2"
    "culprit self d2 \<longrightarrow> culprit self d'"
    using among_run [OF b(7), of "r \<or> x" d2] by blast
  with d2 show ?thesis
    unfolding b(8) by (auto simp: watch_run_simps in_t assms(2) d2_def)
qed simp_all

lemma counting:
  assumes "op_step d = 0" "list_all (busy_second self) ess" "unat (sec_cnt d) + length ess < 60"
  shows "\<exists>d'. watch_run self (concat ess) (False, d) = (False, d') \<and> op_step d' = 0 \<and>
    unat (sec_cnt d') = unat (sec_cnt d) + length ess"
  using assms
proof (induction ess arbitrary: d)
  case (Cons es ess)
  let ?d = "d\<lparr>sec_cnt := sec_cnt d + 1\<rparr>"
  have u: "unat (sec_cnt d + 1) = Suc (unat (sec_cnt d))" using Cons.prems(3) by (intro unat16_Suc) simp
  have "syswatch_fsm self d = (False, ?d)"
    using Cons.prems(1,3) u
    by (simp add: syswatch_fsm_def syswatch_check_timeout_def SYSWATCH_EXCEPT_TIMEOUT_def Let_def word_less_nat_alt)
  then obtain d' where d': "watch_run self es (False, d) = (False, d')" "op_step d' = 0" "sec_cnt d' = sec_cnt d + 1"
    using busy_second_run [of self es d False ?d False] Cons.prems by auto
  then show ?case using Cons.IH [of d'] Cons.prems u by (auto simp: watch_run_append)
qed (simp add: watch_run_simps)

lemma confirming:
  assumes "op_step d = 1" "list_all (busy_second self) ess" "unat (sec_cnt d) + length ess < 15" "culprit self d"
  shows "\<exists>d'. watch_run self (concat ess) (False, d) = (False, d') \<and> op_step d' = 1 \<and> culprit self d' \<and>
    unat (sec_cnt d') = unat (sec_cnt d) + length ess"
  using assms
proof (induction ess arbitrary: d)
  case (Cons es ess)
  let ?d = "d\<lparr>sec_cnt := sec_cnt d + 1\<rparr>"
  have u: "unat (sec_cnt d + 1) = Suc (unat (sec_cnt d))" using Cons.prems(3) by (intro unat16_Suc) simp
  have "syswatch_fsm self d = (False, ?d)"
    using Cons.prems(1,3) u
    by (simp add: syswatch_fsm_def syswatch_check_timeout_def SYSWATCH_EXCEPT_CONFIRM_TMO_def Let_def word_less_nat_alt)
  moreover have "culprit self ?d" using Cons.prems(4) by (simp add: culprit_def)
  ultimately obtain d' where d': "watch_run self es (False, d) = (False, d')" "op_step d' = 1"
    "sec_cnt d' = sec_cnt d + 1" "culprit self d'"
    using busy_second_run [of self es d False ?d False] Cons.prems by auto
  then show ?case using Cons.IH [of d'] Cons.prems u by (auto simp: watch_run_append)
qed (simp add: watch_run_simps)

text \<open>
  C36: When the idle thread is not reached for 75 seconds, counted from its last run, the system is reset in the
  75th of them, and not before. In each second the supervisor, which has the priority 0 alone, preempts some thread,
  runs, and goes to sleep, so that some thread goes on; then the other threads switch in any way, with any priorities.
\<close>

theorem hang_resets:
  fixes d :: "'t sw_data"
  assumes "op_step d = 0" "sec_cnt d = 0" "length ess = 74" "list_all (busy_second self) (ess @ [es])"
  shows "\<not> fst (watch_run self (concat ess) (False, d)) \<and> fst (watch_run self (concat (ess @ [es])) (False, d))"
proof -
  define e1 m e2 where "e1 = take 59 ess" and "m = ess ! 59" and "e2 = drop 60 ess"
  have split: "ess = e1 @ m # e2" using id_take_nth_drop [of 59 ess] assms(3) by (simp add: e1_def m_def e2_def)
  have len: "length e1 = 59" "length e2 = 14" using assms(3) by (simp_all add: e1_def e2_def)
  have busy: "list_all (busy_second self) e1" "busy_second self m" "list_all (busy_second self) e2" "busy_second self es"
    using assms(4) unfolding split by simp_all
  obtain d1 where d1: "watch_run self (concat e1) (False, d) = (False, d1)" "op_step d1 = 0" "unat (sec_cnt d1) = 59"
    using counting [OF assms(1) busy(1)] len(1) assms(2) by auto
  define d2 where "d2 = d1\<lparr>sec_cnt := 0, op_step := 1, lowest_thread := None\<rparr>"
  have u: "unat (sec_cnt d1 + 1) = 60" using d1(3) unat16_Suc [of "sec_cnt d1"] by simp
  have "syswatch_fsm self d1 = (False, d2)"
    using d1(2) u by (simp add: d2_def syswatch_fsm_def syswatch_check_timeout_def SYSWATCH_EXCEPT_TIMEOUT_def Let_def
        word_less_nat_alt)
  then obtain d3 where d3: "watch_run self m (False, d1) = (False, d3)" "op_step d3 = 1" "sec_cnt d3 = 0" "culprit self d3"
    using busy_second_run [OF busy(2), of d1 False d2 False] by (auto simp: d2_def)
  obtain d4 where d4: "watch_run self (concat e2) (False, d3) = (False, d4)" "op_step d4 = 1" "unat (sec_cnt d4) = 14"
    "culprit self d4"
    using confirming [OF d3(2) busy(3) _ d3(4)] len(2) d3(3) by auto
  have u: "unat (sec_cnt d4 + 1) = 15" using d4(3) unat16_Suc [of "sec_cnt d4"] by simp
  have f: "fst (syswatch_fsm self d4)"
    using d4(2,4) u by (auto simp: syswatch_fsm_def syswatch_check_timeout_def SYSWATCH_EXCEPT_CONFIRM_TMO_def Let_def
        word_less_nat_alt culprit_def syswatch_thread_except_resolve_def)
  have "fst (watch_run self es (False, d4))"
    using busy_second_run [OF busy(4), of d4 True "snd (syswatch_fsm self d4)" False] f by (cases "syswatch_fsm self d4") auto
  moreover have "watch_run self (concat ess) (False, d) = (False, d4)"
    unfolding split by (simp add: watch_run_append d1(1) d3(1) d4(1))
  ultimately show ?thesis by (simp add: watch_run_append)
qed

theorem hang_resets_witness:
  "fst (watch_run 0 (concat (replicate 74 [Switch number_prio 10 True 0, Second, Switch number_prio 0 False 10] @
     [[Switch number_prio 10 True 0, Second, Switch number_prio 0 False 10]])) (False, sample_watch))"
  using hang_resets [of sample_watch "replicate 74 [Switch number_prio 10 True 0, Second, Switch number_prio 0 False 10]" 0
      "[Switch number_prio 10 True 0, Second, Switch number_prio 0 False 10]"]
  by (simp add: sample_watch_def list_all_iff RT_THREAD_PRIORITY_MAX_def)

end
