(* ===== verification/QueueInterleaving.thy ===== *)
theory QueueInterleaving
  imports MessageQueue "HOL-Library.Multiset"
begin

text \<open>
  Concurrent calls on one message queue: the sections of sends and receives, between which interrupts are
  enabled, in any order. No message is lost or duplicated, and no node of the pool leaks.
\<close>

section \<open>Interleaved calls\<close>

text \<open>
  The queue with the calls under way: sends that hold a node (with their message and whether it is urgent)
  and receives that hold one. A receive has its message from the moment it unlinks the node; the code copies it out
  a little later, with interrupts enabled again (\<open>ipc.c\<close>, line 3183), while it holds the node, which no other
  section writes. The last two fields are ghosts: the messages linked and delivered so far.
\<close>

record 'a mq_run =
  mq :: "'a rt_messagequeue"
  sending :: "(nat \<times> 'a \<times> bool) list"
  receiving :: "(nat \<times> 'a) list"
  entered :: "'a list"
  delivered :: "'a list"

inductive mq_step :: "'a mq_run \<Rightarrow> 'a mq_run \<Rightarrow> bool" where
  take: "mq_take_free (mq s) = (Some x, q) \<Longrightarrow> mq_step s (s\<lparr>mq := q, sending := (x, m, u) # sending s\<rparr>)"
| link: "sending s = ss @ (x, m, u) # ss' \<Longrightarrow> (if u then mq_link_head x m (mq s) else mq_link_tail x m (mq s)) = (r, q) \<Longrightarrow>
    mq_step s (s\<lparr>mq := q, sending := ss @ ss', entered := m # entered s\<rparr>)"
| unlink: "mq_unlink (mq s) = Some (x, q) \<Longrightarrow> content q x = Some m \<Longrightarrow>
    mq_step s (s\<lparr>mq := q, receiving := (x, m) # receiving s\<rparr>)"
| release: "receiving s = rs @ (x, m) # rs' \<Longrightarrow>
    mq_step s (s\<lparr>mq := mq_release x (mq s), receiving := rs @ rs', delivered := m # delivered s\<rparr>)"

inductive_cases mq_stepE: "mq_step s s'"

definition mq_start :: "nat \<Rightarrow> nat \<Rightarrow> 'a mq_run" where
  "mq_start sz n = \<lparr>mq = rt_mq_create sz n, sending = [], receiving = [], entered = [], delivered = []\<rparr>"

definition conserved :: "nat \<Rightarrow> 'a mq_run \<Rightarrow> bool" where
  "conserved n s \<longleftrightarrow> max_msgs (mq s) = n \<and>
     (\<exists>qs fs ms. pool (mq s) qs fs (map fst (sending s) @ map fst (receiving s)) ms \<and>
        mset (entered s) = mset ms + mset (map snd (receiving s)) + mset (delivered s))"

lemma pool_mset: "pool q qs fs hs ms \<Longrightarrow> mset hs = mset hs' \<Longrightarrow> pool q qs fs hs' ms"
  unfolding pool_def using mset_eq_setD [of hs hs'] mset_eq_imp_distinct_iff [of hs hs'] by auto

lemma conserved_step:
  assumes "mq_step s s'" "conserved n s" "n \<le> 65535"
  shows "conserved n s'"
proof -
  obtain qs fs ms where p: "pool (mq s) qs fs (map fst (sending s) @ map fst (receiving s)) ms"
    and c: "mset (entered s) = mset ms + mset (map snd (receiving s)) + mset (delivered s)" and n: "max_msgs (mq s) = n"
    using assms(2) by (auto simp: conserved_def)
  from assms(1) show ?thesis
  proof cases
    case (take x q m u)
    then obtain fs' where "fs = x # fs'" using p by (cases fs) (auto simp: pool_def mq_take_free_def split: option.splits)
    from pool_take(2) [OF p this] take c n show ?thesis unfolding conserved_def by fastforce
  next
    case (link ss x m u ss' r q)
    have p': "pool (mq s) qs fs (map fst ss @ x # (map fst ss' @ map fst (receiving s))) ms" using p link(2) by simp
    show ?thesis
    proof (cases u)
      case True
      then obtain q' where "mq_link_head x m (mq s) = (0, q')" "pool q' (x # qs) fs (map fst ss @ map fst ss' @ map fst (receiving s)) (m # ms)"
        "max_msgs q' = n" using pool_link_head [OF p', of m] n assms(3) by auto
      then show ?thesis unfolding conserved_def using link True c by fastforce
    next
      case False
      then obtain q' where "mq_link_tail x m (mq s) = (0, q')" "pool q' (qs @ [x]) fs (map fst ss @ map fst ss' @ map fst (receiving s)) (ms @ [m])"
        "max_msgs q' = n" using pool_link_tail [OF p', of m] n assms(3) by auto
      then show ?thesis unfolding conserved_def using link False c by fastforce
    qed
  next
    case (unlink x q m)
    then obtain qs' where qs: "qs = x # qs'" using p by (cases qs) (auto simp: pool_def mq_unlink_def Let_def split: if_splits)
    obtain ms' where "ms = m # ms'" "pool q qs' fs (x # map fst (sending s) @ map fst (receiving s)) ms'" "max_msgs q = n"
      using pool_unlink(2) [OF p qs] unlink n by auto
    moreover from this(2) have "pool q qs' fs (map fst (sending s) @ x # map fst (receiving s)) ms'" by (rule pool_mset) simp
    ultimately show ?thesis unfolding conserved_def using unlink c by fastforce
  next
    case (release rs x m rs')
    have "pool (mq s) qs fs ((map fst (sending s) @ map fst rs) @ x # map fst rs') ms" using p release(2) by simp
    from pool_release [OF this] show ?thesis unfolding conserved_def using release c n by fastforce
  qed
qed

lemma conserved_run:
  assumes "mq_step\<^sup>*\<^sup>* (mq_start sz n) s" "n \<le> 65535"
  shows "conserved n s"
  using assms(1)
proof (induction rule: rtranclp_induct)
  case base
  then show ?case using pool_create [of sz n] by (fastforce simp: conserved_def mq_start_def)
qed (rule conserved_step [OF _ _ assms(2)])

section \<open>Property\<close>

text \<open>
  C40: However sends and receives interleave between their sections, no message is lost or duplicated: those that were
  linked are those delivered, those being received and those queued; the nodes of the pool are at every moment
  divided between the two lists and the calls under way, and \<open>entry\<close> counts the queued ones.
\<close>

theorem no_message_lost:
  fixes s :: "'a mq_run"
  assumes "mq_step\<^sup>*\<^sup>* (mq_start sz n) s" "n \<le> 65535"
  shows "\<exists>qs fs ms. linked (next_of (mq s)) (msg_queue_head (mq s)) qs \<and> linked (next_of (mq s)) (msg_queue_free (mq s)) fs \<and>
    distinct (qs @ fs @ map fst (sending s) @ map fst (receiving s)) \<and>
    set (qs @ fs @ map fst (sending s) @ map fst (receiving s)) = {0 ..< n} \<and> unat (entry (mq s)) = length qs \<and>
    map (content (mq s)) qs = map Some ms \<and>
    mset (entered s) = mset ms + mset (map snd (receiving s)) + mset (delivered s)"
  using conserved_run [OF assms] unfolding conserved_def pool_def by blast

definition sample_run :: "nat mq_run" where
  "sample_run = (mq_start 4 1)\<lparr>mq := snd (mq_link_tail 0 5 (snd (mq_take_free (mq (mq_start 4 1))))), entered := [5]\<rparr>"

lemma sample_run_reached: "mq_step\<^sup>*\<^sup>* (mq_start 4 1) sample_run"
proof -
  let ?s0 = "mq_start 4 1 :: nat mq_run"
  let ?s1 = "?s0\<lparr>mq := snd (mq_take_free (mq ?s0)), sending := [(0, 5, False)]\<rparr>"
  have "mq_take_free (mq ?s0) = (Some 0, snd (mq_take_free (mq ?s0)))" "sending ?s0 = []"
    by (simp_all add: mq_start_def rt_mq_create_def mq_release_def mq_take_free_def)
  then have "mq_step ?s0 ?s1" using mq_step.take [of ?s0 0 _ 5 False] by simp
  moreover have "mq_step ?s1 sample_run"
    using mq_step.link [of ?s1 "[]" 0 5 False "[]" "fst (mq_link_tail 0 5 (mq ?s1))" "snd (mq_link_tail 0 5 (mq ?s1))"]
    by (simp add: sample_run_def mq_start_def)
  ultimately show ?thesis by (meson converse_rtranclp_into_rtranclp rtranclp.rtrancl_refl)
qed

theorem no_message_lost_witness:
  "\<exists>qs ms. linked (next_of (mq sample_run)) (msg_queue_head (mq sample_run)) qs \<and> unat (entry (mq sample_run)) = length qs \<and>
     mset [5] = mset ms \<and> map (content (mq sample_run)) qs = map Some ms"
  using no_message_lost [OF sample_run_reached] by (fastforce simp: sample_run_def mq_start_def)

end
