(* ===== verification/Ax5043.thy ===== *)
theory Ax5043
  imports Prelude "HOL-Library.Monad_Syntax"
begin

text \<open>
  The driver of the radio chip: the register access of \<open>src/radio/Radio_Drv.c\<close>, the operations of
  \<open>src/radio/Radio_Common.c\<close> and the interrupt task of \<open>src/radio/Radio_433.c\<close>.

  The chip is not part of the program. It is a parameter \<open>w :: world\<close>: a function from the history of
  the SPI bus to the bytes it answers with, so that it may answer differently at every read; the system
  clock, which the driver polls, is a function of the same history. Everything the driver does to the
  chip is in the history \<open>spi_log\<close>, latest transfer first.

  A loop that waits for the chip may never end. Such a function has an \<open>option\<close> type, where
  \<open>None\<close> means that it does not return; the lemmas at the end say under which behaviour of the
  chip and of the clock it does return.
\<close>

section \<open>The bus and the chip\<close>

text \<open>
  A transfer sends some bytes, or sends an address and receives some bytes. Reading the clock and
  giving up the processor are events of the history too, since time passes there.
\<close>

datatype spi = Tx "uint8 list" | Rx "uint8 list" nat | Clock | Delay nat

record world =
  chip_answer :: "spi list \<Rightarrow> nat \<Rightarrow> uint8"
  clock_at :: "spi list \<Rightarrow> uint32"

datatype driver_call = Rf433_rx_callback int32 "uint8 list" uint8 | Rf_txdone_callback

record ax5043 =
  ubRssi :: int32
  ubRFState :: uint8
  TXBuff :: "uint8 list"
  TxLen :: uint8
  RXBuff :: "uint8 list"
  RxLen :: uint8
  axradio_phy_chanpllrng :: uint8
  axradio_phy_chanvcoi :: uint8
  axradio_txbuffer_cnt :: uint32
  spi_log :: "spi list"
  send_timer :: bool
  IRQ1_Sem :: nat
  driver_calls :: "driver_call list"

abbreviation (input) REG_AX5043_SCRATCH :: uint8 where "REG_AX5043_SCRATCH \<equiv> 0x01"
abbreviation (input) REG_AX5043_PWRMODE :: uint8 where "REG_AX5043_PWRMODE \<equiv> 0x02"
abbreviation (input) REG_AX5043_POWSTAT :: uint8 where "REG_AX5043_POWSTAT \<equiv> 0x03"
abbreviation (input) REG_AX5043_IRQMASK1 :: uint8 where "REG_AX5043_IRQMASK1 \<equiv> 0x06"
abbreviation (input) REG_AX5043_IRQMASK0 :: uint8 where "REG_AX5043_IRQMASK0 \<equiv> 0x07"
abbreviation (input) REG_AX5043_RADIOEVENTMASK0 :: uint8 where "REG_AX5043_RADIOEVENTMASK0 \<equiv> 0x09"
abbreviation (input) REG_AX5043_IRQREQUEST0 :: uint8 where "REG_AX5043_IRQREQUEST0 \<equiv> 0x0D"
abbreviation (input) REG_AX5043_RADIOEVENTREQ0 :: uint8 where "REG_AX5043_RADIOEVENTREQ0 \<equiv> 0x0F"
abbreviation (input) REG_AX5043_MODULATION :: uint8 where "REG_AX5043_MODULATION \<equiv> 0x10"
abbreviation (input) REG_AX5043_FRAMING :: uint8 where "REG_AX5043_FRAMING \<equiv> 0x12"
abbreviation (input) REG_AX5043_RADIOSTATE :: uint8 where "REG_AX5043_RADIOSTATE \<equiv> 0x1C"
abbreviation (input) REG_AX5043_FIFOSTAT :: uint8 where "REG_AX5043_FIFOSTAT \<equiv> 0x28"
abbreviation (input) REG_AX5043_FIFODATA :: uint8 where "REG_AX5043_FIFODATA \<equiv> 0x29"
abbreviation (input) REG_AX5043_FIFOFREE1 :: uint8 where "REG_AX5043_FIFOFREE1 \<equiv> 0x2C"
abbreviation (input) REG_AX5043_FIFOFREE0 :: uint8 where "REG_AX5043_FIFOFREE0 \<equiv> 0x2D"
abbreviation (input) REG_AX5043_PLLLOOP :: uint8 where "REG_AX5043_PLLLOOP \<equiv> 0x30"
abbreviation (input) REG_AX5043_PLLCPI :: uint8 where "REG_AX5043_PLLCPI \<equiv> 0x31"
abbreviation (input) REG_AX5043_PLLRANGINGA :: uint8 where "REG_AX5043_PLLRANGINGA \<equiv> 0x33"
abbreviation (input) REG_AX5043_FREQA0 :: uint8 where "REG_AX5043_FREQA0 \<equiv> 0x37"
abbreviation (input) REG_AX5043_FREQA1 :: uint8 where "REG_AX5043_FREQA1 \<equiv> 0x36"
abbreviation (input) REG_AX5043_FREQA2 :: uint8 where "REG_AX5043_FREQA2 \<equiv> 0x35"
abbreviation (input) REG_AX5043_FREQA3 :: uint8 where "REG_AX5043_FREQA3 \<equiv> 0x34"
abbreviation (input) REG_AX5043_PINFUNCIRQ :: uint8 where "REG_AX5043_PINFUNCIRQ \<equiv> 0x24"
abbreviation (input) REG_AX5043_FSKDEV2 :: uint16 where "REG_AX5043_FSKDEV2 \<equiv> 0x161"
abbreviation (input) REG_AX5043_FSKDEV1 :: uint16 where "REG_AX5043_FSKDEV1 \<equiv> 0x162"
abbreviation (input) REG_AX5043_FSKDEV0 :: uint16 where "REG_AX5043_FSKDEV0 \<equiv> 0x163"
abbreviation (input) REG_AX5043_PKTADDRCFG :: uint16 where "REG_AX5043_PKTADDRCFG \<equiv> 0x200"
abbreviation (input) REG_AX5043_PKTLENOFFSET :: uint16 where "REG_AX5043_PKTLENOFFSET \<equiv> 0x202"
abbreviation (input) REG_AX5043_TMGRXAGC :: uint16 where "REG_AX5043_TMGRXAGC \<equiv> 0x227"
abbreviation (input) REG_AX5043_TMGRXPREAMBLE1 :: uint16 where "REG_AX5043_TMGRXPREAMBLE1 \<equiv> 0x229"
abbreviation (input) REG_AX5043_RSSIREFERENCE :: uint16 where "REG_AX5043_RSSIREFERENCE \<equiv> 0x22C"
abbreviation (input) REG_AX5043_PKTMISCFLAGS :: uint16 where "REG_AX5043_PKTMISCFLAGS \<equiv> 0x231"
abbreviation (input) REG_AX5043_PKTSTOREFLAGS :: uint16 where "REG_AX5043_PKTSTOREFLAGS \<equiv> 0x232"
abbreviation (input) REG_AX5043_LPOSCCONFIG :: uint16 where "REG_AX5043_LPOSCCONFIG \<equiv> 0x310"
abbreviation (input) REG_AX5043_PLLVCOI :: uint16 where "REG_AX5043_PLLVCOI \<equiv> 0x180"
abbreviation (input) REG_AX5043_TXPWRCOEFFB1 :: uint16 where "REG_AX5043_TXPWRCOEFFB1 \<equiv> 0x16A"
abbreviation (input) REG_AX5043_TXPWRCOEFFB0 :: uint16 where "REG_AX5043_TXPWRCOEFFB0 \<equiv> 0x16B"

abbreviation (input) trxstate_off :: uint8 where "trxstate_off \<equiv> 0x00"
abbreviation (input) trxstate_rx :: uint8 where "trxstate_rx \<equiv> 0x01"
abbreviation (input) trxstate_wait_xtal :: uint8 where "trxstate_wait_xtal \<equiv> 0x03"
abbreviation (input) trxstate_xtal_ready :: uint8 where "trxstate_xtal_ready \<equiv> 0x04"
abbreviation (input) trxstate_pll_ranging :: uint8 where "trxstate_pll_ranging \<equiv> 0x05"
abbreviation (input) trxstate_pll_ranging_done :: uint8 where "trxstate_pll_ranging_done \<equiv> 0x06"
abbreviation (input) trxstate_pll_settling :: uint8 where "trxstate_pll_settling \<equiv> 0x07"
abbreviation (input) trxstate_pll_settled :: uint8 where "trxstate_pll_settled \<equiv> 0x08"
abbreviation (input) trxstate_tx_xtalwait :: uint8 where "trxstate_tx_xtalwait \<equiv> 0x09"
abbreviation (input) trxstate_tx_longpreamble :: uint8 where "trxstate_tx_longpreamble \<equiv> 0x0A"
abbreviation (input) trxstate_tx_shortpreamble :: uint8 where "trxstate_tx_shortpreamble \<equiv> 0x0B"
abbreviation (input) trxstate_tx_packet :: uint8 where "trxstate_tx_packet \<equiv> 0x0C"
abbreviation (input) trxstate_tx_waitdone :: uint8 where "trxstate_tx_waitdone \<equiv> 0x0D"

abbreviation (input) AX5043_PWRSTATE_POWERDOWN :: uint8 where "AX5043_PWRSTATE_POWERDOWN \<equiv> 0x0"
abbreviation (input) AX5043_PWRSTATE_XTAL_ON :: uint8 where "AX5043_PWRSTATE_XTAL_ON \<equiv> 0x5"
abbreviation (input) AX5043_PWRSTATE_FIFO_ON :: uint8 where "AX5043_PWRSTATE_FIFO_ON \<equiv> 0x7"
abbreviation (input) AX5043_PWRSTATE_FULL_RX :: uint8 where "AX5043_PWRSTATE_FULL_RX \<equiv> 0x9"
abbreviation (input) AX5043_PWRSTATE_FULL_TX :: uint8 where "AX5043_PWRSTATE_FULL_TX \<equiv> 0xD"

abbreviation (input) AX5043_FIFOCMD_DATA :: uint8 where "AX5043_FIFOCMD_DATA \<equiv> 0x01"
abbreviation (input) AX5043_FIFOCMD_REPEATDATA :: uint8 where "AX5043_FIFOCMD_REPEATDATA \<equiv> 0x02"
abbreviation (input) AX5043_FIFOCMD_TIMER :: uint8 where "AX5043_FIFOCMD_TIMER \<equiv> 0x10"
abbreviation (input) AX5043_FIFOCMD_RSSI :: uint8 where "AX5043_FIFOCMD_RSSI \<equiv> 0x11"
abbreviation (input) AX5043_FIFOCMD_RFFREQOFFS :: uint8 where "AX5043_FIFOCMD_RFFREQOFFS \<equiv> 0x13"
abbreviation (input) AX5043_FIFOCMD_ANTRSSI :: uint8 where "AX5043_FIFOCMD_ANTRSSI \<equiv> 0x15"

section \<open>Register access\<close>

definition spi_send :: "uint8 list \<Rightarrow> ax5043 \<Rightarrow> ax5043" where
  "spi_send bytes = spi_log_update (\<lambda>h. Tx bytes # h)"

definition Ax5043_Spi_Reset :: "ax5043 \<Rightarrow> ax5043" where
  "Ax5043_Spi_Reset = block [spi_send [REG_AX5043_PWRMODE OR 0x80, 0x80], spi_send [REG_AX5043_PWRMODE OR 0x80, 0x00]]"

definition SpiWriteSingleAddressRegister :: "uint8 \<Rightarrow> uint8 \<Rightarrow> ax5043 \<Rightarrow> ax5043" where
  "SpiWriteSingleAddressRegister Addr Data = spi_send [Addr OR 0x80, Data]"

definition SpiWriteLongAddressRegister :: "uint16 \<Rightarrow> uint8 \<Rightarrow> ax5043 \<Rightarrow> ax5043" where
  "SpiWriteLongAddressRegister Addr Data =
     (let ubAddr = Addr OR 0xF000
      in spi_send [ucast (drop_bit 8 (ubAddr AND 0xFF00)), ucast (ubAddr AND 0x00FF), Data])"

definition SpiWriteData :: "uint8 list \<Rightarrow> ax5043 \<Rightarrow> ax5043" where
  "SpiWriteData pBuf = spi_send ((REG_AX5043_FIFODATA OR 0x80) # pBuf)"

definition spi_recv :: "world \<Rightarrow> uint8 list \<Rightarrow> nat \<Rightarrow> ax5043 \<Rightarrow> uint8 list \<times> ax5043" where
  "spi_recv w addr n d =
     (let h = Rx addr n # spi_log d in (map (chip_answer w h) [0..<n], d\<lparr>spi_log := h\<rparr>))"

definition SpiReadSingleAddressRegister :: "world \<Rightarrow> uint8 \<Rightarrow> ax5043 \<Rightarrow> uint8 \<times> ax5043" where
  "SpiReadSingleAddressRegister w Addr d = (let (r, d1) = spi_recv w [Addr AND 0x7F] 1 d in (hd r, d1))"

definition SpiReadLongAddressRegister :: "world \<Rightarrow> uint16 \<Rightarrow> ax5043 \<Rightarrow> uint8 \<times> ax5043" where
  "SpiReadLongAddressRegister w Addr d =
     (let ubAddr = Addr OR 0x7000;
          (r, d1) = spi_recv w [ucast (drop_bit 8 (ubAddr AND 0xFF00)), ucast (ubAddr AND 0x00FF)] 1 d
      in (hd r, d1))"

definition SpiReadData :: "world \<Rightarrow> nat \<Rightarrow> ax5043 \<Rightarrow> uint8 list \<times> ax5043" where
  "SpiReadData w Length = spi_recv w [REG_AX5043_FIFODATA AND 0x7F] Length"

definition read_clock :: "world \<Rightarrow> ax5043 \<Rightarrow> uint32 \<times> ax5043" where
  "read_clock w d = (let h = Clock # spi_log d in (clock_at w h, d\<lparr>spi_log := h\<rparr>))"

definition wait_ms :: "nat \<Rightarrow> ax5043 \<Rightarrow> ax5043" where
  "wait_ms ms = spi_log_update (\<lambda>h. Delay ms # h)"

text \<open>\<open>dev->ubRFState = st\<close>\<close>

definition set_RFState :: "uint8 \<Rightarrow> ax5043 \<Rightarrow> ax5043" where
  "set_RFState st = ubRFState_update (\<lambda>_. st)"

section \<open>Configuration\<close>

record ax5043_config =
  axradio_phy_vcocalib :: uint8
  axradio_phy_preamble_len :: uint8
  axradio_framing_synclen :: uint8
  axradio_phy_preamble_flags :: uint8
  axradio_phy_preamble_byte :: uint8
  axradio_phy_preamble_appendbits :: uint8
  axradio_phy_preamble_appendpattern :: uint8
  axradio_phy_chanfreq :: uint32
  axradio_phy_chanvcoiinit :: uint8
  axradio_phy_chanpllrnginit :: uint8
  axradio_phy_maxfreqoffset :: int
  axradio_phy_rssioffset :: uint8
  axradio_phy_rssireference :: uint8
  axradio_framing_syncflags :: uint8
  axradio_framing_syncword :: "uint8 list"

definition rf_433_config_init :: ax5043_config where
  "rf_433_config_init =
     \<lparr>axradio_phy_vcocalib = 0, axradio_phy_preamble_len = 32, axradio_framing_synclen = 32,
      axradio_phy_preamble_flags = 0x38, axradio_phy_preamble_byte = 0x55,
      axradio_phy_preamble_appendbits = 0, axradio_phy_preamble_appendpattern = 0x00,
      axradio_phy_chanfreq = 0x10b81f83, axradio_phy_chanvcoiinit = 0x99,
      axradio_phy_chanpllrnginit = 0x0a, axradio_phy_maxfreqoffset = 1683,
      axradio_phy_rssioffset = 64, axradio_phy_rssireference = 0x3A, axradio_framing_syncflags = 0x38,
      axradio_framing_syncword = [0xcc, 0xaa, 0xcc, 0xaa]\<rparr>"

abbreviation (input) config :: ax5043_config where "config \<equiv> rf_433_config_init"

definition set_registers_433 :: "(uint16 \<times> uint16) list" where
  "set_registers_433 =
    [(0x010, 0x08), (0x011, 0x00), (0x012, 0x26), (0x021, 0x01), (0x022, 0x01), (0x023, 0x01),
     (0x025, 0x04), (0x026, 0x00), (0x06E, 0x01), (0x100, 0x01), (0x101, 0xE4), (0x102, 0x16),
     (0x103, 0x00), (0x104, 0x3D), (0x105, 0x8D), (0x106, 0x00), (0x107, 0x00), (0x108, 0x00),
     (0x109, 0x80), (0x10A, 0x02), (0x10B, 0x31), (0x10C, 0x00), (0x10D, 0xA6), (0x10E, 0xFF),
     (0x10F, 0x5A), (0x115, 0x00), (0x117, 0xF4), (0x120, 0xC5), (0x121, 0x84), (0x124, 0xF8),
     (0x125, 0xF2), (0x126, 0xC3), (0x127, 0x0F), (0x128, 0x1F), (0x129, 0x08), (0x12A, 0x08),
     (0x12B, 0x06), (0x12C, 0x00), (0x12D, 0x00), (0x12F, 0x00), (0x130, 0xC5), (0x131, 0x84),
     (0x132, 0x00), (0x133, 0x00), (0x134, 0xF6), (0x135, 0xF1), (0x136, 0xC3), (0x137, 0x0F),
     (0x138, 0x1F), (0x139, 0x08), (0x13A, 0x08), (0x13B, 0x06), (0x13C, 0x00), (0x13D, 0x3E),
     (0x13E, 0x16), (0x13F, 0x00), (0x150, 0xFF), (0x151, 0x84), (0x152, 0x00), (0x153, 0x00),
     (0x154, 0xF5), (0x155, 0xF0), (0x156, 0xC3), (0x157, 0x0F), (0x158, 0x1F), (0x159, 0x0C),
     (0x15A, 0x0C), (0x15B, 0x06), (0x15C, 0x00), (0x15D, 0x3E), (0x15E, 0x16), (0x15F, 0x00),
     (0x160, 0x00), (0x161, 0x00), (0x162, 0x04), (0x163, 0x2F), (0x164, 0x05), (0x165, 0x00),
     (0x166, 0x0C), (0x167, 0x19), (0x16A, 0x07), (0x16B, 0x00), (0x180, 0x99), (0x183, 0x04),
     (0x188, 0x0F), (0x189, 0x77), (0x200, 0x00), (0x201, 0x80), (0x202, 0x00), (0x203, 0xC8),
     (0x210, 0xAA), (0x211, 0xCC), (0x212, 0xAA), (0x213, 0xCC), (0x214, 0x9F), (0x216, 0x1F),
     (0x218, 0x55), (0x219, 0x55), (0x21C, 0x8A), (0x21E, 0x0A), (0x220, 0x3E), (0x221, 0x31),
     (0x223, 0x3E), (0x224, 0x31), (0x225, 0x00), (0x226, 0x7F), (0x228, 0x03), (0x22A, 0x35),
     (0x22D, 0xE0), (0x22F, 0x00), (0x230, 0x0D), (0x233, 0x20), (0x330, 0x00), (0x331, 0x00),
     (0x332, 0x00), (0xF0D, 0x03), (0xF10, 0x04), (0xF11, 0x00), (0xF1C, 0x07), (0xF21, 0x68),
     (0xF22, 0xFF), (0xF23, 0x84), (0xF26, 0x98), (0xF34, 0x28), (0xF35, 0x11), (0xF44, 0x25),
     (0x030, 0x0B), (0x031, 0x10), (0x032, 0x24), (0x184, 0x00), (0xF00, 0x0F)]"


section \<open>Reset and operating modes\<close>

definition write_all :: "(uint8 \<times> uint8) list \<Rightarrow> ax5043 \<Rightarrow> ax5043" where
  "write_all ws = block (map (\<lambda>(r, v). SpiWriteSingleAddressRegister r v) ws)"

definition InitAx5043REG :: "world \<Rightarrow> ax5043 \<Rightarrow> ax5043" where
  "InitAx5043REG w d =
     (let d1 = fold (\<lambda>(r, v). SpiWriteLongAddressRegister r (ucast v)) set_registers_433 d;
          (x, d2) = SpiReadLongAddressRegister w REG_AX5043_PKTLENOFFSET d1
      in (block [SpiWriteLongAddressRegister REG_AX5043_PKTLENOFFSET x,
            SpiWriteSingleAddressRegister REG_AX5043_PINFUNCIRQ 0x03,
            SpiWriteLongAddressRegister REG_AX5043_PKTSTOREFLAGS 0x15]) d2)"

text \<open>The loop of \<open>Ax5043_Reset\<close>, which reads a scratch register until the chip answers.\<close>

partial_function (option) scratch_loop :: "world \<Rightarrow> ax5043 \<Rightarrow> ax5043 option" where
  "scratch_loop w d =
     (let (ubAddres, d1) = SpiReadSingleAddressRegister w REG_AX5043_SCRATCH d
      in if ubAddres \<noteq> 0x55 then scratch_loop w d1 else Some d1)"

definition Ax5043_Reset :: "world \<Rightarrow> ax5043 \<Rightarrow> ax5043 option" where
  "Ax5043_Reset w d =
     do { d1 \<leftarrow> scratch_loop w ((block [Ax5043_Spi_Reset,
                 write_all [(REG_AX5043_PWRMODE, 0x00), (REG_AX5043_SCRATCH, 0x55)]]) d);
          Some (write_all [(REG_AX5043_PINFUNCIRQ, 0x01), (REG_AX5043_PINFUNCIRQ, 0x00),
                 (REG_AX5043_PINFUNCIRQ, 0x03)] d1) }"

definition Ax5043_OFF :: "ax5043 \<Rightarrow> ax5043" where
  "Ax5043_OFF =
     block [write_all [(REG_AX5043_IRQMASK0, 0x00), (REG_AX5043_IRQMASK1, 0x00),
              (REG_AX5043_PWRMODE, AX5043_PWRSTATE_XTAL_ON)],
       SpiWriteLongAddressRegister REG_AX5043_LPOSCCONFIG 0x00,
       set_RFState trxstate_off,
       SpiWriteSingleAddressRegister REG_AX5043_PWRMODE AX5043_PWRSTATE_POWERDOWN]"

text \<open>The four bytes of the channel frequency.\<close>

definition write_frequency :: "ax5043 \<Rightarrow> ax5043" where
  "write_frequency =
     (let f = axradio_phy_chanfreq config
      in write_all [(REG_AX5043_FREQA0, ucast f), (REG_AX5043_FREQA1, ucast (drop_bit 8 f)),
           (REG_AX5043_FREQA2, ucast (drop_bit 16 f)), (REG_AX5043_FREQA3, ucast (drop_bit 24 f))])"

definition rf_433_irq_clean :: "ax5043 \<Rightarrow> ax5043" where
  "rf_433_irq_clean = IRQ1_Sem_update (\<lambda>_. 0)"

definition rf_restart :: "world \<Rightarrow> ax5043 \<Rightarrow> ax5043" where
  "rf_restart w =
     block [Ax5043_OFF, Ax5043_Spi_Reset,
       write_all [(REG_AX5043_PWRMODE, 0x00), (REG_AX5043_PINFUNCIRQ, 0x01), (REG_AX5043_PINFUNCIRQ, 0x00),
         (REG_AX5043_PINFUNCIRQ, 0x03)],
       InitAx5043REG w,
       reading (\<lambda>d. axradio_phy_chanpllrng d AND 0x0F) (SpiWriteSingleAddressRegister REG_AX5043_PLLRANGINGA),
       write_frequency,
       rf_433_irq_clean]"

text \<open>Bit 3 of the power status, the member \<open>svmodem\<close> of the union \<open>PwrStatus\<close>.\<close>

definition svmodem :: "uint8 \<Rightarrow> bool" where
  "svmodem raw \<longleftrightarrow> bit raw 3"

text \<open>The two waits of \<open>AX5043SetOperationMode_RX\<close> and \<open>_TX\<close>, with their timeout of 50 ticks.\<close>

partial_function (option) modem_off_loop :: "world \<Rightarrow> uint32 \<Rightarrow> ax5043 \<Rightarrow> (uint8 \<times> ax5043) option" where
  "modem_off_loop w start_time d =
     (let d1 = SpiWriteSingleAddressRegister REG_AX5043_PWRMODE AX5043_PWRSTATE_XTAL_ON d;
          (status, d2) = SpiReadSingleAddressRegister w REG_AX5043_POWSTAT d1
      in if \<not> svmodem status then Some (status, d2)
         else let (t, d3) = read_clock w d2
              in if t - start_time < 50 then modem_off_loop w start_time d3 else Some (status, d3))"

partial_function (option) modem_on_loop ::
  "world \<Rightarrow> uint32 \<Rightarrow> uint8 \<Rightarrow> ax5043 \<Rightarrow> (uint8 \<times> ax5043) option" where
  "modem_on_loop w start_time status d =
     (if svmodem status then Some (status, d)
      else let (t, d1) = read_clock w d
           in if t - start_time < 50
              then let (status', d2) = SpiReadSingleAddressRegister w REG_AX5043_POWSTAT d1
                   in modem_on_loop w start_time status' d2
              else Some (status, d1))"

text \<open>
  The body shared by the two functions: \<open>retry\<close> is the value before it is decremented, so that a chip
  that does not answer is restarted twice before the function gives up.
\<close>

fun SetOperationMode :: "world \<Rightarrow> uint8 \<Rightarrow> nat \<Rightarrow> ax5043 \<Rightarrow> ax5043 option" where
  "SetOperationMode w mode 0 d = Some d"
| "SetOperationMode w mode (Suc retry) d =
     (if retry = 0 then Some d
      else
        let (_, d1) = SpiReadSingleAddressRegister w REG_AX5043_POWSTAT d;
            (start_time, d2) = read_clock w d1
        in do {
          (status, d3) \<leftarrow> modem_off_loop w start_time d2;
          if svmodem status then SetOperationMode w mode retry (rf_restart w d3)
          else do {
            let d4 = write_all [(REG_AX5043_PWRMODE, AX5043_PWRSTATE_FIFO_ON), (REG_AX5043_PWRMODE, mode)] d3;
            let (start_time', d5) = read_clock w d4;
            (status', d6) \<leftarrow> modem_on_loop w start_time' status d5;
            if \<not> svmodem status' then SetOperationMode w mode retry (rf_restart w d6) else Some d6 } })"

definition AX5043SetOperationMode_RX :: "world \<Rightarrow> ax5043 \<Rightarrow> ax5043 option" where
  "AX5043SetOperationMode_RX w = SetOperationMode w AX5043_PWRSTATE_FULL_RX 3"

definition AX5043SetOperationMode_TX :: "world \<Rightarrow> ax5043 \<Rightarrow> ax5043 option" where
  "AX5043SetOperationMode_TX w = SetOperationMode w AX5043_PWRSTATE_FULL_TX 3"

definition AX5043ReceiverON :: "ax5043 \<Rightarrow> ax5043" where
  "AX5043ReceiverON =
     block [SpiWriteLongAddressRegister REG_AX5043_RSSIREFERENCE (axradio_phy_rssireference config),
       SpiWriteLongAddressRegister REG_AX5043_TMGRXPREAMBLE1 0x00,
       SpiWriteLongAddressRegister REG_AX5043_PKTSTOREFLAGS 0x50,
       write_all [(REG_AX5043_FIFOSTAT, 0x03), (REG_AX5043_PWRMODE, AX5043_PWRSTATE_FULL_RX)],
       set_RFState trxstate_rx,
       write_all [(REG_AX5043_IRQMASK0, 0x01), (REG_AX5043_IRQMASK1, 0x00)]]"

definition AX5043Receiver_Continuous :: "world \<Rightarrow> ax5043 \<Rightarrow> ax5043 option" where
  "AX5043Receiver_Continuous w d =
     (let d1 = (block [SpiWriteLongAddressRegister REG_AX5043_RSSIREFERENCE (axradio_phy_rssireference config),
                  SpiWriteLongAddressRegister REG_AX5043_TMGRXAGC 0,
                  SpiWriteLongAddressRegister REG_AX5043_TMGRXPREAMBLE1 0,
                  SpiWriteLongAddressRegister REG_AX5043_PKTMISCFLAGS 0]) d;
          (flags, d2) = SpiReadLongAddressRegister w REG_AX5043_PKTSTOREFLAGS d1;
          d3 = (block [SpiWriteLongAddressRegister REG_AX5043_PKTSTOREFLAGS (flags AND NOT 0x40),
                  write_all [(REG_AX5043_IRQMASK0, 0x00), (REG_AX5043_IRQMASK1, 0x00),
                    (REG_AX5043_FIFOSTAT, 0x03)]]) d2
      in do {
        d4 \<leftarrow> AX5043SetOperationMode_RX w d3;
        Some ((block [set_RFState trxstate_rx,
           write_all [(REG_AX5043_IRQMASK0, 0x01), (REG_AX5043_IRQMASK1, 0x00)]]) d4) })"

section \<open>Receiving\<close>

text \<open>Reading \<open>n\<close> bytes of the FIFO one by one and dropping them.\<close>

fun drop_bytes :: "world \<Rightarrow> nat \<Rightarrow> ax5043 \<Rightarrow> ax5043" where
  "drop_bytes w 0 d = d"
| "drop_bytes w (Suc n) d = drop_bytes w n (snd (SpiReadSingleAddressRegister w REG_AX5043_FIFODATA d))"

text \<open>One chunk of the FIFO: the body of the loop of \<open>ReceiveData\<close>.\<close>

definition receive_chunk :: "world \<Rightarrow> ax5043 \<Rightarrow> ax5043" where
  "receive_chunk w d =
     (let (ubTemCom, d1) = SpiReadSingleAddressRegister w REG_AX5043_FIFODATA d;
          len = drop_bit 5 (ubTemCom AND 0xE0);
          (ubDataLen, d2) = (if len = 0x07 then SpiReadSingleAddressRegister w REG_AX5043_FIFODATA d1
                             else (len, d1));
          cmd = ubTemCom AND 0x1F
      in if cmd = AX5043_FIFOCMD_DATA then
           if ubDataLen = 0 then d2
           else
             let (_, d3) = SpiReadSingleAddressRegister w REG_AX5043_FIFODATA d2;
                 (bytes, d4) = SpiReadData w (unat (ubDataLen - 1)) d3;
                 d5 = d4\<lparr>RXBuff := bytes @ drop (length bytes) (RXBuff d4), RxLen := ubDataLen - 1\<rparr>;
                 (ubTepm, d6) = SpiReadSingleAddressRegister w REG_AX5043_IRQMASK0 d5
             in SpiWriteSingleAddressRegister REG_AX5043_IRQMASK0 (ubTepm AND NOT 0x01) d6
         else if cmd = AX5043_FIFOCMD_RFFREQOFFS \<and> ubDataLen = 3 then drop_bytes w 3 d2
         else if cmd = AX5043_FIFOCMD_RSSI \<and> ubDataLen = 1 then
           let (r, d3) = SpiReadSingleAddressRegister w REG_AX5043_FIFODATA d2
           in d3\<lparr>ubRssi := scast r - scast (axradio_phy_rssioffset config)\<rparr>
         else if cmd = AX5043_FIFOCMD_TIMER \<and> ubDataLen = 3 then drop_bytes w 3 d2
         else if cmd = AX5043_FIFOCMD_ANTRSSI \<and> ubDataLen \<noteq> 0 then
           drop_bytes w (unat (ubDataLen - 1)) (snd (SpiReadSingleAddressRegister w REG_AX5043_FIFODATA d2))
         else drop_bytes w (unat ubDataLen) d2)"

partial_function (option) receive_loop :: "world \<Rightarrow> ax5043 \<Rightarrow> ax5043 option" where
  "receive_loop w d =
     (let (irq, d1) = SpiReadSingleAddressRegister w REG_AX5043_IRQREQUEST0 d
      in if irq AND 0x01 \<noteq> 0 then receive_loop w (receive_chunk w d1) else Some d1)"

definition ReceiveData :: "world \<Rightarrow> ax5043 \<Rightarrow> ax5043 option" where
  "ReceiveData w d =
     receive_loop w (snd (SpiReadSingleAddressRegister w REG_AX5043_RADIOEVENTREQ0
       (d\<lparr>ubRssi := 0, RxLen := 0, RXBuff := replicate 255 0\<rparr>)))"

section \<open>Sending\<close>

text \<open>The last byte of a preamble whose length is not a multiple of eight, with its stop bit.\<close>

definition preamble_tail :: "bool \<Rightarrow> uint8 \<Rightarrow> nat \<Rightarrow> uint8" where
  "preamble_tail msb_first byte n =
     (if msb_first then (byte AND push_bit (8 - n) 0xFF) OR drop_bit n 0x80
      else (byte AND drop_bit (8 - n) 0xFF) OR push_bit n 0x01)"

definition write_fifo :: "uint8 list \<Rightarrow> ax5043 \<Rightarrow> ax5043" where
  "write_fifo bytes = write_all (map (Pair REG_AX5043_FIFODATA) bytes)"

text \<open>
  The branch of the short preamble. The result says whether the loop of \<open>TransmitData\<close> goes on
  (\<open>True\<close>) or jumps to the commit of the FIFO (\<open>False\<close>).
\<close>

definition preamble_rest :: "world \<Rightarrow> uint8 \<Rightarrow> ax5043 \<Rightarrow> bool \<times> ax5043" where
  "preamble_rest w ubFreeCnt d =
     (if ubFreeCnt < 4 then (False, d)
      else
        let cnt = (if axradio_txbuffer_cnt d < 255 * 8 then ucast (drop_bit 3 (axradio_txbuffer_cnt d)) else 255)
        in if cnt \<noteq> (0 :: uint8) then
             (True, (block [axradio_txbuffer_cnt_update (\<lambda>n. n - push_bit 3 (ucast cnt)),
                write_fifo [AX5043_FIFOCMD_REPEATDATA OR push_bit 5 3, axradio_phy_preamble_flags config, cnt,
                  axradio_phy_preamble_byte config]]) d)
           else
             let n = unat (axradio_txbuffer_cnt d);
                 d1 = (block [axradio_txbuffer_cnt_update (\<lambda>_. 0),
                         write_fifo [AX5043_FIFOCMD_DATA OR push_bit 5 2, 0x1C]]) d;
                 (cfg, d2) = SpiReadLongAddressRegister w REG_AX5043_PKTADDRCFG d1
             in (True, write_fifo [preamble_tail (cfg AND 0x80 \<noteq> 0) (axradio_phy_preamble_byte config) n] d2))"

definition shortpreamble :: "world \<Rightarrow> uint8 \<Rightarrow> ax5043 \<Rightarrow> bool \<times> ax5043" where
  "shortpreamble w ubFreeCnt d =
     (if axradio_txbuffer_cnt d \<noteq> 0 then preamble_rest w ubFreeCnt d
      else if ubFreeCnt < 15 then (False, d)
      else
        let n = unat (axradio_phy_preamble_appendbits config);
            d1 = (if n \<noteq> 0 then
                    let (cfg, e) = SpiReadLongAddressRegister w REG_AX5043_PKTADDRCFG
                          (write_fifo [AX5043_FIFOCMD_DATA OR push_bit 5 2, 0x1C] d)
                    in write_fifo [preamble_tail (cfg AND 0x80 \<noteq> 0) (axradio_phy_preamble_appendpattern config) n] e
                  else d);
            (framing, d2) = SpiReadSingleAddressRegister w REG_AX5043_FRAMING d1;
            synclen = axradio_framing_synclen config
        in if framing AND 0x0E = 0x06 \<and> synclen \<noteq> 0 then
             let i = (if synclen AND 0x07 \<noteq> 0 then 0x04 else 0);
                 len_byte = drop_bit 3 (synclen + 7)
             in (True, (block [write_fifo ([0x01 OR push_bit 5 (len_byte + 1), axradio_framing_syncflags config OR i]
                            @ take (unat len_byte) (axradio_framing_syncword config)),
                   set_RFState trxstate_tx_packet]) d2)
           else preamble_rest w ubFreeCnt d2)"

partial_function (option) TransmitData :: "world \<Rightarrow> ax5043 \<Rightarrow> ax5043 option" where
  "TransmitData w d =
     (let (free0, d1) = SpiReadSingleAddressRegister w REG_AX5043_FIFOFREE0 d;
          (free1, d2) = SpiReadSingleAddressRegister w REG_AX5043_FIFOFREE1 d1;
          ubFreeCnt = (if free1 \<noteq> 0 then 0xff else free0);
          commit = SpiWriteSingleAddressRegister REG_AX5043_FIFOSTAT 4;
          cnt = axradio_txbuffer_cnt d2
      in if ubRFState d2 = trxstate_tx_longpreamble \<and> cnt \<noteq> 0 then
           if ubFreeCnt < 4 then Some (commit d2)
           else
             let n = (if cnt < 7 then ucast cnt else 7)
             in TransmitData w ((block [axradio_txbuffer_cnt_update (\<lambda>c. c - ucast n),
                  write_fifo [0x02 OR push_bit 5 3, 0x38, push_bit 5 n, 0x55]]) d2)
         else if ubRFState d2 = trxstate_tx_longpreamble \<or> ubRFState d2 = trxstate_tx_shortpreamble then
           let d3 = (if ubRFState d2 = trxstate_tx_longpreamble
                     then d2\<lparr>ubRFState := trxstate_tx_shortpreamble,
                         axradio_txbuffer_cnt := ucast (axradio_phy_preamble_len config)\<rparr>
                     else d2);
               (continue, d4) = shortpreamble w ubFreeCnt d3
           in if continue then TransmitData w d4 else Some (commit d4)
         else Some d2)"

text \<open>A frame is handed over: the chip is put into the transmit mode, and its crystal interrupt enabled.\<close>

definition transmit_packet_task :: "world \<Rightarrow> uint8 list \<Rightarrow> ax5043 \<Rightarrow> ax5043 option" where
  "transmit_packet_task w buffer d =
     do {
       d1 \<leftarrow> AX5043SetOperationMode_TX w (write_all [(REG_AX5043_IRQMASK0, 0x00), (REG_AX5043_IRQMASK1, 0x00),
               (REG_AX5043_FIFOSTAT, 0x03)] d);
       let len = (of_nat (length buffer) + 1 :: uint8);
       Some ((block [TxLen_update (\<lambda>_. len),
          TXBuff_update (\<lambda>xs. len # buffer @ drop (Suc (length buffer)) xs),
          set_RFState trxstate_tx_xtalwait,
          SpiWriteSingleAddressRegister REG_AX5043_IRQMASK1 0x01,
          send_timer_update (\<lambda>_. True)]) d1) }"

definition RF_Send :: "world \<Rightarrow> uint8 list \<Rightarrow> ax5043 \<Rightarrow> ax5043 option" where
  "RF_Send w send_buf d = transmit_packet_task w send_buf (d\<lparr>axradio_txbuffer_cnt := 0\<rparr>)"

definition rf_433_send_timer_callback :: "world \<Rightarrow> ax5043 \<Rightarrow> ax5043 option" where
  "rf_433_send_timer_callback w d =
     (if ubRFState d \<noteq> trxstate_rx then
        AX5043Receiver_Continuous w
          (rf_restart w (SpiWriteSingleAddressRegister REG_AX5043_RADIOEVENTMASK0 0x00 d))
      else Some d)"

section \<open>The interrupt task\<close>

definition call_out :: "driver_call \<Rightarrow> ax5043 \<Rightarrow> ax5043" where
  "call_out c = driver_calls_update (\<lambda>cs. cs @ [c])"

definition irq_receive :: "world \<Rightarrow> ax5043 \<Rightarrow> ax5043 option" where
  "irq_receive w d =
     do {
       d1 \<leftarrow> ReceiveData w d;
       AX5043Receiver_Continuous w
         (if RxLen d1 \<noteq> 0 then call_out (Rf433_rx_callback (ubRssi d1) (RXBuff d1) (RxLen d1 - 1)) d1 else d1) }"

definition irq_xtalwait :: "world \<Rightarrow> ax5043 \<Rightarrow> ax5043 option" where
  "irq_xtalwait w d =
     (let (_, d1) = SpiReadSingleAddressRegister w REG_AX5043_RADIOEVENTREQ0 d;
          d2 = (block [write_all [(REG_AX5043_FIFOSTAT, 0x03), (REG_AX5043_IRQMASK1, 0x00), (REG_AX5043_IRQMASK0, 0x08)],
                  set_RFState trxstate_tx_longpreamble]) d1;
          (m, d3) = SpiReadSingleAddressRegister w REG_AX5043_MODULATION d2
      in TransmitData w (if m AND 0x0F = 9
           then write_fifo [AX5043_FIFOCMD_DATA OR push_bit 5 7, 2, 0x01, 0x11] d3 else d3))"

definition irq_packet :: "ax5043 \<Rightarrow> ax5043" where
  "irq_packet =
     block [cond (\<lambda>d. TxLen d < 11) (SpiWriteSingleAddressRegister REG_AX5043_FIFOSTAT 4) id,
       reading TxLen (\<lambda>n. write_fifo [AX5043_FIFOCMD_DATA OR push_bit 5 7, n + 1, 3]),
       reading (\<lambda>d. take (unat (TxLen d)) (TXBuff d)) SpiWriteData,
       SpiWriteSingleAddressRegister REG_AX5043_FIFOSTAT 4,
       set_RFState trxstate_tx_waitdone,
       write_all [(REG_AX5043_RADIOEVENTMASK0, 0x01), (REG_AX5043_IRQMASK0, 0x40)]]"

definition irq_waitdone :: "world \<Rightarrow> ax5043 \<Rightarrow> ax5043 option" where
  "irq_waitdone w d =
     (let d1 = (block [send_timer_update (\<lambda>_. False), call_out Rf_txdone_callback]) d;
          (_, d2) = SpiReadSingleAddressRegister w REG_AX5043_RADIOEVENTREQ0 d1;
          (state, d3) = SpiReadSingleAddressRegister w REG_AX5043_RADIOSTATE d2
      in if state \<noteq> 0 then Some d3
         else AX5043Receiver_Continuous w (SpiWriteSingleAddressRegister REG_AX5043_RADIOEVENTMASK0 0x00 d3))"

text \<open>One round of \<open>rf_433_task_callback\<close>, after the semaphore was taken.\<close>

definition rf_433_irq :: "world \<Rightarrow> ax5043 \<Rightarrow> ax5043 option" where
  "rf_433_irq w d =
     (if ubRFState d = trxstate_rx then irq_receive w d
      else if ubRFState d = trxstate_wait_xtal then
        Some ((block [SpiWriteSingleAddressRegister REG_AX5043_IRQMASK1 0x00, set_RFState trxstate_xtal_ready]) d)
      else if ubRFState d = trxstate_pll_ranging then
        Some ((block [SpiWriteSingleAddressRegister REG_AX5043_IRQMASK1 0x00, set_RFState trxstate_pll_ranging_done]) d)
      else if ubRFState d = trxstate_pll_settling then
        Some ((block [SpiWriteSingleAddressRegister REG_AX5043_RADIOEVENTMASK0 0x00, set_RFState trxstate_pll_settled]) d)
      else if ubRFState d = trxstate_tx_xtalwait then irq_xtalwait w d
      else if ubRFState d = trxstate_tx_packet then Some (irq_packet d)
      else if ubRFState d = trxstate_tx_waitdone then irq_waitdone w d
      else Some (write_all [(REG_AX5043_IRQMASK1, 0x00), (REG_AX5043_IRQMASK0, 0x00)] d))"

text \<open>The interrupt releases the semaphore, whose value stops at 65535 (\<open>RT_SEM_VALUE_MAX\<close>).\<close>

definition IRQ1_ISR :: "ax5043 \<Rightarrow> ax5043" where
  "IRQ1_ISR = IRQ1_Sem_update (\<lambda>n. if n < 65535 then Suc n else n)"

section \<open>Start-up\<close>

text \<open>
  \<open>rf_startup\<close> waits twice for the interrupt task, in \<open>RadioXtalON\<close> and after the start of the
  ranging; it is split there.
\<close>

definition RadioXtalON :: "world \<Rightarrow> ax5043 \<Rightarrow> ax5043" where
  "RadioXtalON w d =
     (let (ubTemp, d1) = SpiReadSingleAddressRegister w REG_AX5043_IRQMASK1 (set_RFState trxstate_wait_xtal d)
      in write_all [(REG_AX5043_IRQMASK1, ubTemp OR 0x01), (REG_AX5043_PWRMODE, AX5043_PWRSTATE_XTAL_ON)] d1)"

definition startup_reset :: "world \<Rightarrow> ax5043 \<Rightarrow> ax5043 option" where
  "startup_reset w d =
     do {
       d1 \<leftarrow> Ax5043_Reset w (Ax5043_OFF d);
       Some ((block [InitAx5043REG w,
          write_all [(REG_AX5043_PLLLOOP, 0x09), (REG_AX5043_PLLCPI, 0x08),
            (REG_AX5043_PWRMODE, AX5043_PWRSTATE_XTAL_ON), (REG_AX5043_MODULATION, 0x08)],
          SpiWriteLongAddressRegister REG_AX5043_FSKDEV2 0x00,
          SpiWriteLongAddressRegister REG_AX5043_FSKDEV1 0x00,
          SpiWriteLongAddressRegister REG_AX5043_FSKDEV0 0x00,
          RadioXtalON w]) d1) }"

definition startup_ranging :: "ax5043 \<Rightarrow> ax5043" where
  "startup_ranging =
     block [write_frequency, set_RFState trxstate_pll_ranging,
       write_all [(REG_AX5043_IRQMASK1, 0x10),
         (REG_AX5043_PLLRANGINGA,
          if axradio_phy_chanpllrnginit config AND 0xF0 = 0
          then axradio_phy_chanpllrnginit config OR 0x10 else 0x18)]]"

definition startup_finish :: "world \<Rightarrow> ax5043 \<Rightarrow> ax5043" where
  "startup_finish w d =
     (let d1 = (block [set_RFState trxstate_off, SpiWriteSingleAddressRegister REG_AX5043_IRQMASK1 0x00]) d;
          (r, d2) = SpiReadSingleAddressRegister w REG_AX5043_PLLRANGINGA d1
      in (block [axradio_phy_chanpllrng_update (\<lambda>_. r),
            SpiWriteSingleAddressRegister REG_AX5043_PWRMODE AX5043_PWRSTATE_POWERDOWN,
            InitAx5043REG w,
            reading (\<lambda>d. axradio_phy_chanpllrng d AND 0x0F) (SpiWriteSingleAddressRegister REG_AX5043_PLLRANGINGA),
            write_frequency,
            set_RFState trxstate_off]) d2)"

text \<open>The object \<open>rf_433\<close>, zero-initialised like every object of static storage.\<close>

definition rf_433 :: ax5043 where
  "rf_433 = \<lparr>ubRssi = 0, ubRFState = 0, TXBuff = replicate 255 0, TxLen = 0, RXBuff = replicate 255 0, RxLen = 0,
     axradio_phy_chanpllrng = 0, axradio_phy_chanvcoi = 0, axradio_txbuffer_cnt = 0, spi_log = [],
     send_timer = False, IRQ1_Sem = 0, driver_calls = []\<rparr>"

section \<open>The driver as a state machine\<close>

text \<open>Where the thread that runs \<open>RF_Init\<close> is: at one of its two waits, or through.\<close>

datatype phase = Xtal_wait | Ranging_wait | Running

text \<open>
  The events of the driver. The interrupt task runs at any time; frames are sent and the send timer
  expires (and thereby stops, being a one-shot timer) once the start-up is through.
\<close>

inductive radio_step :: "world \<Rightarrow> phase \<times> ax5043 \<Rightarrow> phase \<times> ax5043 \<Rightarrow> bool" for w where
  isr: "radio_step w (p, d) (p, IRQ1_ISR d)"
| irq: "rf_433_irq w (d\<lparr>IRQ1_Sem := n\<rparr>) = Some d' \<Longrightarrow> IRQ1_Sem d = Suc n \<Longrightarrow> radio_step w (p, d) (p, d')"
| wait: "radio_step w (p, d) (p, wait_ms 10 d)"
| xtal: "ubRFState d \<noteq> trxstate_wait_xtal \<Longrightarrow> radio_step w (Xtal_wait, d) (Ranging_wait, startup_ranging d)"
| ranging: "ubRFState d \<noteq> trxstate_pll_ranging \<Longrightarrow>
    radio_step w (Ranging_wait, d) (Running, AX5043ReceiverON (startup_finish w d))"
| send: "RF_Send w f d = Some d' \<Longrightarrow> length f \<le> 254 \<Longrightarrow> radio_step w (Running, d) (Running, d')"
| timeout: "rf_433_send_timer_callback w (d\<lparr>send_timer := False\<rparr>) = Some d' \<Longrightarrow> send_timer d \<Longrightarrow>
    radio_step w (Running, d) (Running, d')"

inductive radio_reachable :: "world \<Rightarrow> phase \<times> ax5043 \<Rightarrow> bool" for w where
  start: "startup_reset w rf_433 = Some d \<Longrightarrow> radio_reachable w (Xtal_wait, d)"
| step: "radio_reachable w x \<Longrightarrow> radio_step w x y \<Longrightarrow> radio_reachable w y"

end
