(* ===== verification/Ax5043Ops.thy ===== *)
theory Ax5043Ops
  imports Ax5043
begin

text \<open>
  Lemmas on the operations of Ax5043: which parts of the state they leave alone, and which bytes they
  put into the transmit FIFO (\<open>fifo_silent\<close>, \<open>steady\<close>, \<open>received\<close>, \<open>transmitting\<close>), and that the
  waits for the chip end when the clock runs, whatever the chip answers.
\<close>

section \<open>What the operations leave alone\<close>

text \<open>The bytes that a part of the history writes into the transmit FIFO, oldest first.\<close>

definition fifo_write :: "spi \<Rightarrow> uint8 list" where
  "fifo_write e = (case e of Tx (b # bs) \<Rightarrow> if b = 0xA9 then bs else [] | _ \<Rightarrow> [])"

definition fifo_bytes :: "spi list \<Rightarrow> uint8 list" where
  "fifo_bytes h = concat (map fifo_write (rev h))"

lemma fifo_bytes_simps [simp]:
  "fifo_bytes [] = []" "fifo_bytes (e # h) = fifo_bytes h @ fifo_write e"
  "fifo_bytes (h @ h') = fifo_bytes h' @ fifo_bytes h"
  by (simp_all add: fifo_bytes_def)

lemma fifo_write_simps [simp]:
  "fifo_write (Rx a n) = []" "fifo_write Clock = []" "fifo_write (Delay n) = []"
  "fifo_write (Tx (b # bs)) = (if b = 0xA9 then bs else [])"
  by (simp_all add: fifo_write_def)

text \<open>\<open>fifo_silent d d'\<close>: only transfers were added, none of them into the FIFO.\<close>

definition fifo_silent :: "ax5043 \<Rightarrow> ax5043 \<Rightarrow> bool" where
  "fifo_silent d d' \<longleftrightarrow> (\<exists>h. fifo_bytes h = [] \<and> d' = d\<lparr>spi_log := h @ spi_log d\<rparr>)"

text \<open>\<open>steady d d'\<close>: beside such transfers only the state and the semaphore may have changed.\<close>

definition steady :: "ax5043 \<Rightarrow> ax5043 \<Rightarrow> bool" where
  "steady d d' \<longleftrightarrow> (\<exists>h st n. fifo_bytes h = [] \<and> d' = d\<lparr>spi_log := h @ spi_log d, ubRFState := st, IRQ1_Sem := n\<rparr>)"

lemma silent_refl [intro, simp]: "fifo_silent d d"
  unfolding fifo_silent_def by (rule exI [of _ "[]"]) simp

lemma silent_trans: "fifo_silent d d' \<Longrightarrow> fifo_silent d' d'' \<Longrightarrow> fifo_silent d d''"
proof -
  assume "fifo_silent d d'" "fifo_silent d' d''"
  then obtain h h' where "fifo_bytes h = []" "d' = d\<lparr>spi_log := h @ spi_log d\<rparr>"
    "fifo_bytes h' = []" "d'' = d'\<lparr>spi_log := h' @ spi_log d'\<rparr>" unfolding fifo_silent_def by blast
  then show ?thesis unfolding fifo_silent_def by (intro exI [of _ "h' @ h"]) simp
qed

lemma steady_trans: "steady d d' \<Longrightarrow> steady d' d'' \<Longrightarrow> steady d d''"
proof -
  assume "steady d d'" "steady d' d''"
  then obtain h h' st st' n n' where "fifo_bytes h = []" "d' = d\<lparr>spi_log := h @ spi_log d, ubRFState := st, IRQ1_Sem := n\<rparr>"
    "fifo_bytes h' = []" "d'' = d'\<lparr>spi_log := h' @ spi_log d', ubRFState := st', IRQ1_Sem := n'\<rparr>"
    unfolding steady_def by blast
  then show ?thesis unfolding steady_def by (intro exI [of _ "h' @ h"] exI [of _ st'] exI [of _ n']) simp
qed

lemma silent_steady: "fifo_silent d d' \<Longrightarrow> steady d d'"
  unfolding fifo_silent_def steady_def
  by (metis ax5043.surjective ax5043.update_convs(2,10,12))

lemma steady_refl [intro, simp]: "steady d d"
  by (rule silent_steady) simp

lemma steady_sel:
  assumes "steady d d'"
  shows "ubRssi d' = ubRssi d" "TXBuff d' = TXBuff d" "TxLen d' = TxLen d" "RXBuff d' = RXBuff d"
    "RxLen d' = RxLen d" "axradio_phy_chanpllrng d' = axradio_phy_chanpllrng d"
    "axradio_txbuffer_cnt d' = axradio_txbuffer_cnt d" "send_timer d' = send_timer d"
    "driver_calls d' = driver_calls d" "fifo_bytes (spi_log d') = fifo_bytes (spi_log d)"
  using assms by (auto simp: steady_def)

lemma silent_sel: "fifo_silent d d' \<Longrightarrow> ubRFState d' = ubRFState d" "fifo_silent d d' \<Longrightarrow> IRQ1_Sem d' = IRQ1_Sem d"
  by (auto simp: fifo_silent_def)

lemma silent_send: "b \<noteq> 0xA9 \<Longrightarrow> fifo_silent d (spi_send (b # bs) d)"
  unfolding fifo_silent_def spi_send_def by (intro exI [of _ "[Tx (b # bs)]"]) simp

lemma silent_recv [simp]: "fifo_silent d (snd (spi_recv w a n d))"
  unfolding fifo_silent_def spi_recv_def Let_def by (intro exI [of _ "[Rx a n]"]) simp

lemma silent_reads [simp]:
  "fifo_silent d (snd (SpiReadSingleAddressRegister w r d))" "fifo_silent d (snd (SpiReadLongAddressRegister w q d))"
  "fifo_silent d (snd (SpiReadData w n d))"
  using silent_recv [of d w]
  by (simp_all add: SpiReadSingleAddressRegister_def SpiReadLongAddressRegister_def SpiReadData_def Let_def
      case_prod_beta)

lemma silent_time [simp]: "fifo_silent d (snd (read_clock w d))" "fifo_silent d (wait_ms m d)"
  unfolding fifo_silent_def read_clock_def wait_ms_def Let_def
  by (intro exI [of _ "[Clock]"], simp) (intro exI [of _ "[Delay m]"], simp)

lemma silent_write: "r OR 0x80 \<noteq> 0xA9 \<Longrightarrow> fifo_silent d (SpiWriteSingleAddressRegister r v d)"
  unfolding SpiWriteSingleAddressRegister_def by (rule silent_send)

lemma long_prefix: "(ucast (drop_bit 8 ((a OR 0xF000) AND 0xFF00)) :: uint8) \<noteq> 0xA9" for a :: uint16
proof -
  have "bit (ucast (drop_bit 8 ((a OR 0xF000) AND 0xFF00)) :: uint8) 6"
    by (simp add: bit_simps)
  moreover have "\<not> bit (0xA9 :: uint8) 6" by simp
  ultimately show ?thesis by metis
qed

lemma silent_long_write [simp]: "fifo_silent d (SpiWriteLongAddressRegister q v d)"
  unfolding SpiWriteLongAddressRegister_def Let_def by (rule silent_send) (rule long_prefix)

lemma silent_write_all: "(\<forall>(r, v) \<in> set ws. r OR 0x80 \<noteq> 0xA9) \<Longrightarrow> fifo_silent d (write_all ws d)"
proof (induction ws arbitrary: d)
  case (Cons p ws)
  obtain r v where p: "p = (r, v)" by fastforce
  have "fifo_silent d (SpiWriteSingleAddressRegister r v d)" by (rule silent_write) (use Cons.prems p in simp)
  also have "fifo_silent \<dots> (write_all ws \<dots>)" by (rule Cons.IH) (use Cons.prems in simp)
  finally (silent_trans) show ?case by (simp add: write_all_def p)
qed (simp add: write_all_def)

lemma silent_fold: "(\<And>x d. fifo_silent d (f x d)) \<Longrightarrow> fifo_silent d (fold f xs d)"
  by (induction xs arbitrary: d) (auto intro: silent_trans)

lemma steady_block: "(\<And>d. steady d (f d)) \<Longrightarrow> (\<And>d. steady d (block fs d)) \<Longrightarrow> steady d (block (f # fs) d)"
  by (simp, rule steady_trans)

lemma silent_block: "(\<And>d. fifo_silent d (f d)) \<Longrightarrow> (\<And>d. fifo_silent d (block fs d)) \<Longrightarrow> fifo_silent d (block (f # fs) d)"
  by (simp, rule silent_trans)

lemma silent_InitAx5043REG [simp]: "fifo_silent d (InitAx5043REG w d)"
proof -
  define d1 where "d1 = fold (\<lambda>(r, v). SpiWriteLongAddressRegister r (ucast v)) set_registers_433 d"
  have "fifo_silent d d1" unfolding d1_def by (rule silent_fold) (simp split: prod.split)
  also have "fifo_silent d1 (snd (SpiReadLongAddressRegister w REG_AX5043_PKTLENOFFSET d1))" by simp
  also (silent_trans) have "fifo_silent \<dots> (InitAx5043REG w d)"
    unfolding InitAx5043REG_def Let_def case_prod_beta d1_def [symmetric]
    by (intro silent_block) (simp_all add: silent_write)
  finally (silent_trans) show ?thesis .
qed

lemma steady_set_RFState [simp]: "steady d (set_RFState st d)"
  unfolding steady_def set_RFState_def by (rule exI [of _ "[]"], rule exI [of _ st], rule exI [of _ "IRQ1_Sem d"]) simp

lemma steady_irq_clean [simp]: "steady d (rf_433_irq_clean d)"
  unfolding steady_def rf_433_irq_clean_def by (rule exI [of _ "[]"], rule exI [of _ "ubRFState d"], rule exI [of _ 0]) simp

lemma steady_Spi_Reset [simp]: "steady d (Ax5043_Spi_Reset d)"
  unfolding Ax5043_Spi_Reset_def
  by (intro silent_steady silent_block) (simp_all add: silent_send)

lemma steady_OFF [simp]: "steady d (Ax5043_OFF d)"
  unfolding Ax5043_OFF_def
  by (intro steady_block) (simp_all add: silent_steady silent_write_all silent_write)

lemma silent_write_frequency [simp]: "fifo_silent d (write_frequency d)"
  unfolding write_frequency_def Let_def by (rule silent_write_all) simp

lemma steady_rf_restart [simp]: "steady d (rf_restart w d)"
  unfolding rf_restart_def reading_def
  by (intro steady_block) (simp_all add: silent_steady silent_write_all silent_write)

section \<open>The waits end\<close>

text \<open>
  The clock runs: after \<open>c\<close> further bus transfers or readings of the clock, 50 ticks (the timeout of
  the driver's waits, 50 ms) have passed.
\<close>

definition time_passes :: "nat \<Rightarrow> world \<Rightarrow> bool" where
  "time_passes c w \<longleftrightarrow>
     (\<forall>h e. c \<le> length e \<and> length e \<le> c + 3 \<longrightarrow> 50 \<le> clock_at w (e @ h) - clock_at w h)"

lemma tick_log: "read_clock w d = (clock_at w (Clock # spi_log d), d\<lparr>spi_log := Clock # spi_log d\<rparr>)"
  by (simp add: read_clock_def Let_def)

lemma single_read:
  "SpiReadSingleAddressRegister w r d =
     (chip_answer w (Rx [r AND 0x7F] 1 # spi_log d) 0, d\<lparr>spi_log := Rx [r AND 0x7F] 1 # spi_log d\<rparr>)"
  by (simp add: SpiReadSingleAddressRegister_def spi_recv_def Let_def)

lemma single_write: "SpiWriteSingleAddressRegister r v d = d\<lparr>spi_log := Tx [r OR 0x80, v] # spi_log d\<rparr>"
  by (simp add: SpiWriteSingleAddressRegister_def spi_send_def)

lemma modem_off_returns:
  assumes "time_passes c w" "spi_log d = e @ h" "length e \<le> c" "start = clock_at w h"
  shows "modem_off_loop w start d \<noteq> None"
  using assms
proof (induction "c - length e" arbitrary: d e rule: less_induct)
  case less
  define d1 where "d1 = SpiWriteSingleAddressRegister REG_AX5043_PWRMODE AX5043_PWRSTATE_XTAL_ON d"
  obtain st d2 where r: "SpiReadSingleAddressRegister w REG_AX5043_POWSTAT d1 = (st, d2)" by fastforce
  obtain t d3 where t: "read_clock w d2 = (t, d3)" by fastforce
  define e3 where "e3 = Clock # Rx [REG_AX5043_POWSTAT AND 0x7F] 1 # Tx [REG_AX5043_PWRMODE OR 0x80, AX5043_PWRSTATE_XTAL_ON] # e"
  have l3: "spi_log d3 = e3 @ h" "t = clock_at w (e3 @ h)" "length e3 = length e + 3"
    using r t less.prems(2) by (auto simp: single_read tick_log d1_def single_write e3_def)
  have "modem_off_loop w start d3 \<noteq> None" if small: "t - start < 50"
  proof -
    have "length e3 < c"
    proof (rule ccontr)
      assume "\<not> length e3 < c"
      then have "50 \<le> clock_at w (e3 @ h) - clock_at w h"
        using less.prems(1,3) l3(3) unfolding time_passes_def by auto
      with small show False using l3(2) less.prems(4) by simp
    qed
    then have "c - length e3 < c - length e" "length e3 \<le> c" using l3(3) by simp_all
    from less.hyps [OF this(1) less.prems(1) l3(1) this(2) less.prems(4)] show ?thesis .
  qed
  then show ?case
    by (subst modem_off_loop.simps) (auto simp: d1_def [symmetric] Let_def r t simp del: not_None_eq)
qed

lemma modem_on_returns:
  assumes "time_passes c w" "spi_log d = e @ h" "length e \<le> c + 1" "start = clock_at w h"
  shows "modem_on_loop w start st d \<noteq> None"
  using assms
proof (induction "c - length e" arbitrary: d e st rule: less_induct)
  case less
  obtain t d1 where t: "read_clock w d = (t, d1)" by fastforce
  obtain st' d2 where r: "SpiReadSingleAddressRegister w REG_AX5043_POWSTAT d1 = (st', d2)" by fastforce
  define e2 where "e2 = Rx [REG_AX5043_POWSTAT AND 0x7F] 1 # Clock # e"
  have l: "t = clock_at w ((Clock # e) @ h)" "spi_log d2 = e2 @ h" "length e2 = length e + 2"
    using r t less.prems(2) by (auto simp: single_read tick_log e2_def)
  have "modem_on_loop w start st' d2 \<noteq> None" if small: "t - start < 50"
  proof -
    have "length (Clock # e) < c"
    proof (rule ccontr)
      assume "\<not> length (Clock # e) < c"
      then have "c \<le> length (Clock # e)" "length (Clock # e) \<le> c + 3" using less.prems(3) by simp_all
      then have "50 \<le> clock_at w ((Clock # e) @ h) - clock_at w h"
        using less.prems(1) unfolding time_passes_def by blast
      with small show False using l(1) less.prems(4) by simp
    qed
    then have "c - length e2 < c - length e" "length e2 \<le> c + 1" using l(3) by simp_all
    from less.hyps [OF this(1) less.prems(1) l(2) this(2) less.prems(4)] show ?thesis .
  qed
  then show ?case by (subst modem_on_loop.simps) (auto simp: Let_def r t simp del: not_None_eq)
qed

lemma SetOperationMode_returns:
  assumes "time_passes c w"
  shows "SetOperationMode w mode n d \<noteq> None"
proof (induction n arbitrary: d)
  case (Suc n)
  have off: "modem_off_loop w (clock_at w h) (e\<lparr>spi_log := h\<rparr>) \<noteq> None" for e h
    by (rule modem_off_returns [OF assms, of _ "[]"]) simp_all
  have on: "modem_on_loop w (clock_at w h) st (e\<lparr>spi_log := h\<rparr>) \<noteq> None" for e h st
    by (rule modem_on_returns [OF assms, of _ "[]"]) simp_all
  show ?case
  proof (cases "n = 0")
    case False
    obtain st d3 where 1: "modem_off_loop w (fst (read_clock w (snd (SpiReadSingleAddressRegister w REG_AX5043_POWSTAT d))))
        (snd (read_clock w (snd (SpiReadSingleAddressRegister w REG_AX5043_POWSTAT d)))) = Some (st, d3)"
      using off by (fastforce simp: tick_log)
    define d4 where "d4 = write_all [(REG_AX5043_PWRMODE, AX5043_PWRSTATE_FIFO_ON), (REG_AX5043_PWRMODE, mode)] d3"
    obtain st' d6 where 2: "modem_on_loop w (fst (read_clock w d4)) st (snd (read_clock w d4)) = Some (st', d6)"
      using on by (fastforce simp: tick_log)
    show ?thesis using False 1 2 Suc.IH by (auto simp: Let_def case_prod_beta d4_def simp del: not_None_eq)
  qed simp
qed simp

section \<open>What an operation that returns has done\<close>

lemma modem_off_silent:
  assumes "modem_off_loop w start d = Some r"
  shows "fifo_silent d (snd r)"
proof (rule modem_off_loop.raw_induct [where P = "\<lambda>w start d r. fifo_silent d (snd r)", OF _ assms], goal_cases)
  case (1 rec w start d r)
  define d1 where "d1 = SpiWriteSingleAddressRegister REG_AX5043_PWRMODE AX5043_PWRSTATE_XTAL_ON d"
  define d2 where "d2 = snd (SpiReadSingleAddressRegister w REG_AX5043_POWSTAT d1)"
  define d3 where "d3 = snd (read_clock w d2)"
  have "fifo_silent d d1" unfolding d1_def by (rule silent_write) simp
  moreover have "fifo_silent d1 d2" "fifo_silent d2 d3" by (simp_all add: d2_def d3_def)
  ultimately have q: "fifo_silent d d2" "fifo_silent d d3" by (meson silent_trans)+
  from 1(2) show ?case
    using q 1(1) silent_trans [OF q(2)]
    by (auto simp: Let_def case_prod_beta d1_def [symmetric] d2_def [symmetric] d3_def [symmetric] split: if_splits)
qed

lemma modem_on_silent:
  assumes "modem_on_loop w start st d = Some r"
  shows "fifo_silent d (snd r)"
proof (rule modem_on_loop.raw_induct [where P = "\<lambda>w start st d r. fifo_silent d (snd r)", OF _ assms], goal_cases)
  case (1 rec w start st d r)
  define d1 where "d1 = snd (read_clock w d)"
  define d2 where "d2 = snd (SpiReadSingleAddressRegister w REG_AX5043_POWSTAT d1)"
  have "fifo_silent d d1" "fifo_silent d1 d2" by (simp_all add: d1_def d2_def)
  then have q: "fifo_silent d d1" "fifo_silent d d2" by (meson silent_trans)+
  from 1(2) show ?case
    using q 1(1) silent_trans [OF q(2)]
    by (auto simp: Let_def case_prod_beta d1_def [symmetric] d2_def [symmetric] split: if_splits)
qed

lemma SetOperationMode_steady: "SetOperationMode w mode n d = Some d' \<Longrightarrow> steady d d'"
proof (induction n arbitrary: d)
  case (Suc n)
  show ?case
  proof (cases "n = 0")
    case False
    define d2 where "d2 = snd (read_clock w (snd (SpiReadSingleAddressRegister w REG_AX5043_POWSTAT d)))"
    define t where "t = fst (read_clock w (snd (SpiReadSingleAddressRegister w REG_AX5043_POWSTAT d)))"
    from Suc.prems False obtain st d3 where off: "modem_off_loop w t d2 = Some (st, d3)"
      by (auto simp: Let_def case_prod_beta t_def d2_def Option.bind_eq_Some_conv)
    define d4 where "d4 = write_all [(REG_AX5043_PWRMODE, AX5043_PWRSTATE_FIFO_ON), (REG_AX5043_PWRMODE, mode)] d3"
    have "fifo_silent d d2" unfolding d2_def by (rule silent_trans [OF silent_reads(1) silent_time(1)])
    then have q3: "fifo_silent d d3" using modem_off_silent [OF off] by (auto intro: silent_trans)
    have "fifo_silent d3 d4" unfolding d4_def by (rule silent_write_all) simp
    then have q4: "fifo_silent d d4" using q3 by (auto intro: silent_trans)
    have again: "steady d d'" if "SetOperationMode w mode n (rf_restart w a) = Some d'" "fifo_silent d a" for a
      using Suc.IH [OF that(1)] steady_rf_restart silent_steady [OF that(2)] by (meson steady_trans)
    show ?thesis
    proof (cases "svmodem st")
      case True
      then show ?thesis
        using Suc.prems False off again [OF _ q3] by (simp add: Let_def case_prod_beta t_def d2_def)
    next
      case on: False
      define d5 where "d5 = snd (read_clock w d4)"
      have "Option.bind (modem_on_loop w (fst (read_clock w d4)) st d5)
          (\<lambda>(st', d6). if \<not> svmodem st' then SetOperationMode w mode n (rf_restart w d6) else Some d6) = Some d'"
        using Suc.prems False off on by (simp add: Let_def case_prod_beta t_def d2_def d4_def d5_def)
      then obtain st' d6 where m: "modem_on_loop w (fst (read_clock w d4)) st d5 = Some (st', d6)"
        "(if \<not> svmodem st' then SetOperationMode w mode n (rf_restart w d6) else Some d6) = Some d'"
        unfolding Option.bind_eq_Some_conv by auto
      have "fifo_silent d4 d5" by (simp add: d5_def)
      then have q6: "fifo_silent d d6" using q4 modem_on_silent [OF m(1)] by (auto intro: silent_trans)
      show ?thesis using m(2) again [OF _ q6] silent_steady [OF q6] by (auto split: if_splits)
    qed
  qed (use Suc.prems in simp)
qed simp

lemma Receiver_Continuous_done:
  assumes "AX5043Receiver_Continuous w d = Some d'"
  shows "steady d d' \<and> ubRFState d' = trxstate_rx"
proof -
  define d1 where "d1 = (block [SpiWriteLongAddressRegister REG_AX5043_RSSIREFERENCE (axradio_phy_rssireference config),
     SpiWriteLongAddressRegister REG_AX5043_TMGRXAGC 0, SpiWriteLongAddressRegister REG_AX5043_TMGRXPREAMBLE1 0,
     SpiWriteLongAddressRegister REG_AX5043_PKTMISCFLAGS 0]) d"
  obtain v d2 where r: "SpiReadLongAddressRegister w REG_AX5043_PKTSTOREFLAGS d1 = (v, d2)" by fastforce
  define d3 where "d3 = (block [SpiWriteLongAddressRegister REG_AX5043_PKTSTOREFLAGS (v AND NOT 0x40),
     write_all [(REG_AX5043_IRQMASK0, 0x00), (REG_AX5043_IRQMASK1, 0x00), (REG_AX5043_FIFOSTAT, 0x03)]]) d2"
  have "fifo_silent d d1" unfolding d1_def by (intro silent_block) simp_all
  moreover have "fifo_silent d1 d2" using silent_reads(2) [of d1 w REG_AX5043_PKTSTOREFLAGS] r by simp
  moreover have "fifo_silent d2 d3" unfolding d3_def by (intro silent_block) (simp_all add: silent_write_all)
  ultimately have q: "steady d d3" by (meson silent_trans silent_steady)
  define ws where "ws = [(REG_AX5043_IRQMASK0, 0x01 :: uint8), (REG_AX5043_IRQMASK1, 0x00)]"
  obtain d4 where m: "SetOperationMode w AX5043_PWRSTATE_FULL_RX 3 d3 = Some d4"
    "d' = write_all ws (set_RFState trxstate_rx d4)"
    using assms r unfolding AX5043Receiver_Continuous_def d1_def [symmetric] Let_def AX5043SetOperationMode_RX_def
    by (auto simp: d3_def ws_def Option.bind_eq_Some_conv)
  have w: "fifo_silent (set_RFState trxstate_rx d4) d'" unfolding m(2) ws_def by (rule silent_write_all) simp
  have "steady d4 d'" using steady_set_RFState silent_steady [OF w] steady_trans by blast
  then have "steady d d'" using q SetOperationMode_steady [OF m(1)] by (meson steady_trans)
  moreover have "ubRFState d' = trxstate_rx" using silent_sel(1) [OF w] by (simp add: set_RFState_def)
  ultimately show ?thesis by blast
qed

lemma Receiver_Continuous_returns:
  "time_passes c w \<Longrightarrow> AX5043Receiver_Continuous w d \<noteq> None"
  using SetOperationMode_returns [of c w AX5043_PWRSTATE_FULL_RX 3]
  by (auto simp: AX5043Receiver_Continuous_def AX5043SetOperationMode_RX_def Let_def case_prod_beta bind_eq_None_conv
      simp del: not_None_eq)

text \<open>Reception changes the receive buffer and the signal strength, and no length of a buffer.\<close>

definition received :: "ax5043 \<Rightarrow> ax5043 \<Rightarrow> bool" where
  "received d d' \<longleftrightarrow> ubRFState d' = ubRFState d \<and> send_timer d' = send_timer d \<and> driver_calls d' = driver_calls d \<and>
     TXBuff d' = TXBuff d \<and> TxLen d' = TxLen d \<and> (length (RXBuff d) = 255 \<longrightarrow> length (RXBuff d') = 255)"

lemma received_trans: "received d d' \<Longrightarrow> received d' d'' \<Longrightarrow> received d d''"
  by (simp add: received_def)

lemma silent_received: "fifo_silent d d' \<Longrightarrow> received d d'"
  using steady_sel [OF silent_steady] silent_sel by (simp add: received_def)

lemma silent_drop [simp]: "fifo_silent d (drop_bytes w n d)"
proof (induction n arbitrary: d)
  case (Suc n)
  have "fifo_silent d (snd (SpiReadSingleAddressRegister w REG_AX5043_FIFODATA d))" by simp
  from silent_trans [OF this Suc] show ?case by simp
qed simp

lemma length_SpiReadData: "length (fst (SpiReadData w n d)) = n"
  by (simp add: SpiReadData_def spi_recv_def Let_def)

lemma unat_uint8_le [simp]: "unat (n :: uint8) \<le> 255"
proof -
  have "unat n < 2 ^ LENGTH(8)" by (rule unsigned_less)
  then show ?thesis by simp
qed

lemma received_intros:
  fixes m :: uint8
  shows
  "received d e \<Longrightarrow> received d (snd (SpiReadSingleAddressRegister w r e))"
  "received d e \<Longrightarrow> received d (snd (SpiReadData w n e))"
  "received d e \<Longrightarrow> received d (drop_bytes w n e)"
  "received d e \<Longrightarrow> received d (SpiWriteSingleAddressRegister REG_AX5043_IRQMASK0 v e)"
  "received d e \<Longrightarrow> received d (e\<lparr>ubRssi := x\<rparr>)"
  "received d e \<Longrightarrow> length bytes = unat m \<Longrightarrow>
    received d (e\<lparr>RXBuff := bytes @ drop (unat m) (RXBuff e), RxLen := y\<rparr>)"
  "received d d"
proof -
  have 1: "received d e \<Longrightarrow> fifo_silent e e' \<Longrightarrow> received d e'" for e' by (meson received_trans silent_received)
  then show "received d e \<Longrightarrow> received d (snd (SpiReadSingleAddressRegister w r e))"
    "received d e \<Longrightarrow> received d (snd (SpiReadData w n e))"
    "received d e \<Longrightarrow> received d (drop_bytes w n e)"
    "received d e \<Longrightarrow> received d (SpiWriteSingleAddressRegister REG_AX5043_IRQMASK0 v e)"
    by (simp_all add: silent_write)
qed (use unat_uint8_le [of m] in \<open>simp_all add: received_def\<close>)

lemma received_chunk: "received d (receive_chunk w d)"
  unfolding receive_chunk_def Let_def case_prod_beta by (auto intro!: received_intros simp: length_SpiReadData)

lemma received_loop:
  assumes "receive_loop w d = Some d'"
  shows "received d d'"
proof (rule receive_loop.raw_induct [where P = "\<lambda>w d d'. received d d'", OF _ assms], goal_cases)
  case (1 rec w d d')
  have q: "received d (receive_chunk w (snd (SpiReadSingleAddressRegister w REG_AX5043_IRQREQUEST0 d)))"
    using received_chunk received_intros(1,7) received_trans by blast
  from 1(2) show ?case
    using 1(1) received_trans [OF q] received_intros(1) [OF received_intros(7)]
    by (auto simp: Let_def case_prod_beta split: if_splits)
qed

lemma ReceiveData_received:
  assumes "ReceiveData w d = Some d'" "length (RXBuff d) = 255"
  shows "received d d'"
proof -
  let ?d = "d\<lparr>ubRssi := 0, RxLen := 0, RXBuff := replicate 255 0\<rparr>"
  have "received ?d (snd (SpiReadSingleAddressRegister w REG_AX5043_RADIOEVENTREQ0 ?d))"
    by (intro received_intros)
  then have "received ?d d'" using received_loop assms(1) received_trans unfolding ReceiveData_def by blast
  then show ?thesis using assms(2) by (simp add: received_def)
qed

section \<open>The state machine\<close>

lemma silent_length: "fifo_silent d d' \<Longrightarrow> RXBuff d' = RXBuff d" "fifo_silent d d' \<Longrightarrow> TXBuff d' = TXBuff d"
  "fifo_silent d d' \<Longrightarrow> send_timer d' = send_timer d"
  using steady_sel [OF silent_steady] by simp_all

text \<open>\<open>transmitting d d'\<close>: the driver stays within the states of a transmission.\<close>

definition transmitting :: "ax5043 \<Rightarrow> ax5043 \<Rightarrow> bool" where
  "transmitting d d' \<longleftrightarrow> ubRFState d' \<in> {trxstate_tx_longpreamble, trxstate_tx_shortpreamble, trxstate_tx_packet} \<and>
     send_timer d' = send_timer d \<and> RXBuff d' = RXBuff d \<and> TXBuff d' = TXBuff d \<and> TxLen d' = TxLen d \<and>
     driver_calls d' = driver_calls d"

lemma write_all_sel [simp]:
  "ubRFState (write_all ws d) = ubRFState d" "send_timer (write_all ws d) = send_timer d"
  "RXBuff (write_all ws d) = RXBuff d" "TXBuff (write_all ws d) = TXBuff d" "TxLen (write_all ws d) = TxLen d"
  "driver_calls (write_all ws d) = driver_calls d" "axradio_txbuffer_cnt (write_all ws d) = axradio_txbuffer_cnt d"
  by (induction ws arbitrary: d) (auto simp: write_all_def single_write)

lemma transmitting_intros:
  "transmitting d e \<Longrightarrow> transmitting d (snd (SpiReadSingleAddressRegister w r e))"
  "transmitting d e \<Longrightarrow> transmitting d (snd (SpiReadLongAddressRegister w q e))"
  "transmitting d e \<Longrightarrow> transmitting d (SpiWriteSingleAddressRegister r v e)"
  "transmitting d e \<Longrightarrow> transmitting d (write_fifo bs e)"
  "transmitting d e \<Longrightarrow> transmitting d (axradio_txbuffer_cnt_update f e)"
  "transmitting d e \<Longrightarrow> transmitting d (set_RFState trxstate_tx_packet e)"
  "transmitting d e \<Longrightarrow> transmitting d (e\<lparr>ubRFState := trxstate_tx_shortpreamble, axradio_txbuffer_cnt := c\<rparr>)"
  by (simp_all add: transmitting_def single_read single_write write_fifo_def set_RFState_def
      SpiReadLongAddressRegister_def spi_recv_def Let_def)

lemma transmitting_rest: "transmitting d e \<Longrightarrow> transmitting d (snd (preamble_rest w f e))"
  unfolding preamble_rest_def Let_def case_prod_beta
  by (auto intro!: transmitting_intros)

lemma transmitting_short: "transmitting d e \<Longrightarrow> transmitting d (snd (shortpreamble w f e))"
  unfolding shortpreamble_def Let_def case_prod_beta
  by (auto intro!: transmitting_intros transmitting_rest)

lemma TransmitData_transmitting:
  assumes "TransmitData w d = Some d'" "transmitting d0 d"
  shows "transmitting d0 d'"
proof -
  have "transmitting d0 d \<longrightarrow> transmitting d0 d'"
  proof (rule TransmitData.raw_induct [where P = "\<lambda>w d d'. transmitting d0 d \<longrightarrow> transmitting d0 d'", OF _ assms(1)], goal_cases)
    case (1 rec w d d')
    show ?case
    proof
      assume t: "transmitting d0 d"
      define d2 where "d2 = snd (SpiReadSingleAddressRegister w REG_AX5043_FIFOFREE1
        (snd (SpiReadSingleAddressRegister w REG_AX5043_FIFOFREE0 d)))"
      have t2: "transmitting d0 d2" unfolding d2_def using t by (intro transmitting_intros)
      have IH: "transmitting d0 d'" if "rec w e = Some d'" "transmitting d0 e" for e
        using 1(1) that by blast
      define f where "f = (if fst (SpiReadSingleAddressRegister w REG_AX5043_FIFOFREE1
          (snd (SpiReadSingleAddressRegister w REG_AX5043_FIFOFREE0 d))) \<noteq> 0 then 0xff
        else fst (SpiReadSingleAddressRegister w REG_AX5043_FIFOFREE0 d))"
      define n :: uint8 where "n = (if axradio_txbuffer_cnt d2 < 7 then ucast (axradio_txbuffer_cnt d2) else 7)"
      define l where "l = (block [axradio_txbuffer_cnt_update (\<lambda>c. c - ucast n),
        write_fifo [0x02 OR push_bit 5 3, 0x38, push_bit 5 n, 0x55]]) d2"
      define d3 where "d3 = (if ubRFState d2 = trxstate_tx_longpreamble
        then d2\<lparr>ubRFState := trxstate_tx_shortpreamble, axradio_txbuffer_cnt := ucast (axradio_phy_preamble_len config)\<rparr>
        else d2)"
      have t3: "transmitting d0 (snd (shortpreamble w f d3))"
        unfolding d3_def using t2 by (auto intro!: transmitting_short transmitting_intros)
      have tl: "transmitting d0 l" unfolding l_def using t2 by (auto intro!: transmitting_intros)
      note e = 1(2) [unfolded Let_def case_prod_beta, folded d2_def f_def, folded n_def, folded l_def d3_def]
      show "transmitting d0 d'"
        using e t2 transmitting_intros(3) [OF t2] transmitting_intros(3) [OF t3] IH [OF _ tl] IH [OF _ t3]
        by (simp split: if_splits) (metis option.inject)+
    qed
  qed
  then show ?thesis using assms(2) by simp
qed

end
