(* ===== verification/RadioDriver.thy ===== *)
theory RadioDriver
  imports Ax5043Ops
begin

text \<open>
  The radio driver as a whole: the invariant of its state machine, the send timeout, the bytes of a
  transmission, and the decoding of a reception.
\<close>

section \<open>The invariant\<close>

text \<open>
  The one state without a way back of its own: the transmission was reported as done, which stops the send timer,
  but the chip, asked for its state right after that, said that it was still busy; nothing but waiting has
  happened on the bus since.
\<close>

fun is_delay :: "spi \<Rightarrow> bool" where
  "is_delay (Delay n) = True"
| "is_delay _ = False"

definition reported_busy :: "world \<Rightarrow> ax5043 \<Rightarrow> bool" where
  "reported_busy w d \<longleftrightarrow> (let h = dropWhile is_delay (spi_log d) in
     take 2 h = [Rx [REG_AX5043_RADIOSTATE] 1, Rx [REG_AX5043_RADIOEVENTREQ0] 1] \<and> chip_answer w h 0 \<noteq> 0 \<and>
     driver_calls d \<noteq> [] \<and> last (driver_calls d) = Rf_txdone_callback)"

text \<open>
  While the start-up waits, the driver is in the state it waits for or in the one that ends the wait.
  Then it receives, or is in one of the states of a transmission with the send timer running, or is in the
  state above.
\<close>

definition radio_ok :: "world \<Rightarrow> phase \<times> ax5043 \<Rightarrow> bool" where
  "radio_ok w x = (case x of (p, d) \<Rightarrow>
     length (RXBuff d) = 255 \<and> length (TXBuff d) = 255 \<and>
     (case p of
        Xtal_wait \<Rightarrow> ubRFState d \<in> {trxstate_wait_xtal, trxstate_xtal_ready}
      | Ranging_wait \<Rightarrow> ubRFState d \<in> {trxstate_pll_ranging, trxstate_pll_ranging_done}
      | Running \<Rightarrow> ubRFState d = trxstate_rx \<or>
          ubRFState d \<in> {trxstate_tx_xtalwait, trxstate_tx_longpreamble, trxstate_tx_shortpreamble, trxstate_tx_packet,
            trxstate_tx_waitdone} \<and> send_timer d \<or>
          ubRFState d = trxstate_tx_waitdone \<and> \<not> send_timer d \<and> reported_busy w d))"

lemma irq_receive_done:
  assumes "irq_receive w d = Some d'" "length (RXBuff d) = 255"
  shows "ubRFState d' = trxstate_rx \<and> length (RXBuff d') = 255 \<and> TXBuff d' = TXBuff d \<and> send_timer d' = send_timer d"
proof -
  obtain d1 where d1: "ReceiveData w d = Some d1"
    and c: "AX5043Receiver_Continuous w (if RxLen d1 \<noteq> 0
      then call_out (Rf433_rx_callback (ubRssi d1) (RXBuff d1) (RxLen d1 - 1)) d1 else d1) = Some d'"
    using assms(1) unfolding irq_receive_def Option.bind_eq_Some_conv by blast
  have "received d d1" by (rule ReceiveData_received [OF d1 assms(2)])
  then show ?thesis
    using Receiver_Continuous_done [OF c] steady_sel(2,4,8) assms(2)
    by (auto simp: received_def call_out_def split: if_splits)
qed

lemma irq_xtalwait_done:
  assumes "irq_xtalwait w d = Some d'"
  shows "ubRFState d' \<in> {trxstate_tx_longpreamble, trxstate_tx_shortpreamble, trxstate_tx_packet} \<and>
    RXBuff d' = RXBuff d \<and> TXBuff d' = TXBuff d \<and> TxLen d' = TxLen d \<and> send_timer d' = send_timer d"
proof -
  let ?e = "d\<lparr>ubRFState := trxstate_tx_longpreamble\<rparr>"
  have "transmitting ?e (block [write_all ws, set_RFState trxstate_tx_longpreamble]
      (snd (SpiReadSingleAddressRegister w r d)))" for ws r
    by (simp add: transmitting_def set_RFState_def single_read)
  then have "transmitting ?e d'"
    using assms unfolding irq_xtalwait_def Let_def case_prod_beta
    by (elim TransmitData_transmitting) (auto intro!: transmitting_intros)
  then show ?thesis by (simp add: transmitting_def)
qed

lemma irq_packet_sel [simp]:
  "ubRFState (irq_packet d) = trxstate_tx_waitdone" "RXBuff (irq_packet d) = RXBuff d"
  "TXBuff (irq_packet d) = TXBuff d" "send_timer (irq_packet d) = send_timer d"
  by (simp_all add: irq_packet_def cond_def reading_def single_write SpiWriteData_def spi_send_def set_RFState_def write_fifo_def)

lemma irq_waitdone_done:
  assumes "irq_waitdone w d = Some d'" "ubRFState d = trxstate_tx_waitdone"
  shows "(ubRFState d' = trxstate_rx \<or> ubRFState d' = trxstate_tx_waitdone \<and> \<not> send_timer d' \<and> reported_busy w d') \<and>
    RXBuff d' = RXBuff d \<and> TXBuff d' = TXBuff d"
proof -
  have "ubRFState d' = trxstate_tx_waitdone \<and> \<not> send_timer d' \<and> reported_busy w d' \<and> RXBuff d' = RXBuff d \<and> TXBuff d' = TXBuff d \<or>
    (\<exists>e. AX5043Receiver_Continuous w e = Some d' \<and> RXBuff e = RXBuff d \<and> TXBuff e = TXBuff d)"
    using assms unfolding irq_waitdone_def Let_def case_prod_beta
    by (auto simp: single_read single_write call_out_def reported_busy_def numeral_2_eq_2 split: if_splits)
  then show ?thesis using Receiver_Continuous_done steady_sel(2,4) by fastforce
qed

lemma RF_Send_done:
  assumes "RF_Send w f d = Some d'" "length f \<le> 254" "length (TXBuff d) = 255"
  shows "ubRFState d' = trxstate_tx_xtalwait \<and> send_timer d' \<and> RXBuff d' = RXBuff d \<and> length (TXBuff d') = 255 \<and>
    take (Suc (length f)) (TXBuff d') = (of_nat (length f) + 1) # f \<and> TxLen d' = of_nat (length f) + 1 \<and>
    axradio_txbuffer_cnt d' = 0 \<and> fifo_bytes (spi_log d') = fifo_bytes (spi_log d)"
proof -
  let ?e = "write_all [(REG_AX5043_IRQMASK0, 0x00), (REG_AX5043_IRQMASK1, 0x00), (REG_AX5043_FIFOSTAT, 0x03)]
    (d\<lparr>axradio_txbuffer_cnt := 0\<rparr>)"
  obtain d1 where d1: "SetOperationMode w AX5043_PWRSTATE_FULL_TX 3 ?e = Some d1"
    and e: "d' = (block [TxLen_update (\<lambda>_. of_nat (length f) + 1),
          TXBuff_update (\<lambda>xs. (of_nat (length f) + 1) # f @ drop (Suc (length f)) xs),
          set_RFState trxstate_tx_xtalwait,
          SpiWriteSingleAddressRegister REG_AX5043_IRQMASK1 0x01,
          send_timer_update (\<lambda>_. True)]) d1"
    using assms(1) unfolding RF_Send_def transmit_packet_task_def AX5043SetOperationMode_TX_def Option.bind_eq_Some_conv Let_def
    by blast
  have "fifo_silent (d\<lparr>axradio_txbuffer_cnt := 0\<rparr>) ?e" by (rule silent_write_all) simp
  then have "steady (d\<lparr>axradio_txbuffer_cnt := 0\<rparr>) d1"
    using SetOperationMode_steady [OF d1] silent_steady steady_trans by blast
  from steady_sel [OF this] show ?thesis
    using assms(2,3) by (simp add: e single_write set_RFState_def)
qed

lemma scratch_loop_silent:
  assumes "scratch_loop w d = Some d'"
  shows "fifo_silent d d'"
proof (rule scratch_loop.raw_induct [where P = "\<lambda>w d d'. fifo_silent d d'", OF _ assms], goal_cases)
  case (1 rec w d d')
  have "fifo_silent d (snd (SpiReadSingleAddressRegister w REG_AX5043_SCRATCH d))" by simp
  from silent_trans [OF this] show ?case
    using 1 by (auto simp: Let_def case_prod_beta split: if_splits)
qed

lemma RadioXtalON_sel:
  "ubRFState (RadioXtalON w d) = trxstate_wait_xtal" "RXBuff (RadioXtalON w d) = RXBuff d" "TXBuff (RadioXtalON w d) = TXBuff d"
  by (simp_all add: RadioXtalON_def Let_def case_prod_beta single_read set_RFState_def)

lemma startup_reset_done:
  assumes "startup_reset w rf_433 = Some d"
  shows "ubRFState d = trxstate_wait_xtal \<and> length (RXBuff d) = 255 \<and> length (TXBuff d) = 255"
proof -
  define fs where "fs = [InitAx5043REG w,
     write_all [(REG_AX5043_PLLLOOP, 0x09), (REG_AX5043_PLLCPI, 0x08),
       (REG_AX5043_PWRMODE, AX5043_PWRSTATE_XTAL_ON), (REG_AX5043_MODULATION, 0x08)],
     SpiWriteLongAddressRegister REG_AX5043_FSKDEV2 0x00,
     SpiWriteLongAddressRegister REG_AX5043_FSKDEV1 0x00, SpiWriteLongAddressRegister REG_AX5043_FSKDEV0 0x00]"
  define d0 where "d0 = (block [Ax5043_Spi_Reset, write_all [(REG_AX5043_PWRMODE, 0x00), (REG_AX5043_SCRATCH, 0x55)]])
    (Ax5043_OFF rf_433)"
  obtain d1 where d1: "scratch_loop w d0 = Some d1"
    and d: "d = RadioXtalON w (block fs (write_all [(REG_AX5043_PINFUNCIRQ, 0x01), (REG_AX5043_PINFUNCIRQ, 0x00),
                 (REG_AX5043_PINFUNCIRQ, 0x03)] d1))"
    using assms by (auto simp: startup_reset_def Ax5043_Reset_def Option.bind_eq_Some_conv fs_def d0_def)
  have "steady rf_433 d0"
    unfolding d0_def by (rule steady_trans [OF steady_OFF]) (intro steady_block; simp add: silent_steady silent_write_all)
  then have 1: "steady rf_433 d1" using silent_steady [OF scratch_loop_silent [OF d1]] by (rule steady_trans)
  have 2: "fifo_silent e (block fs e)" for e
    unfolding fs_def by (intro silent_block) (simp_all add: silent_write_all)
  have "RXBuff d = RXBuff rf_433" "TXBuff d = TXBuff rf_433"
    by (simp_all add: d RadioXtalON_sel silent_length(1,2) [OF 2] steady_sel(2,4) [OF 1])
  then show ?thesis by (simp add: d RadioXtalON_sel rf_433_def)
qed

lemma startup_ranging_sel:
  "ubRFState (startup_ranging d) = trxstate_pll_ranging" "RXBuff (startup_ranging d) = RXBuff d"
  "TXBuff (startup_ranging d) = TXBuff d"
  by (simp_all add: startup_ranging_def write_frequency_def Let_def set_RFState_def)

lemma startup_finish_sel: "RXBuff (startup_finish w d) = RXBuff d" "TXBuff (startup_finish w d) = TXBuff d"
  using silent_length(1,2) [OF silent_InitAx5043REG]
  by (simp_all add: startup_finish_def Let_def case_prod_beta single_read single_write set_RFState_def reading_def write_frequency_def)

lemma long_write_sel [simp]:
  "ubRFState (SpiWriteLongAddressRegister q v d) = ubRFState d" "RXBuff (SpiWriteLongAddressRegister q v d) = RXBuff d"
  "TXBuff (SpiWriteLongAddressRegister q v d) = TXBuff d"
  using silent_sel(1) silent_length(1,2) silent_long_write by blast+

lemma ReceiverON_sel:
  "ubRFState (AX5043ReceiverON d) = trxstate_rx" "RXBuff (AX5043ReceiverON d) = RXBuff d"
  "TXBuff (AX5043ReceiverON d) = TXBuff d"
  by (simp_all add: AX5043ReceiverON_def set_RFState_def)

lemma irq_keeps:
  assumes "radio_ok w (p, d)" "rf_433_irq w (d\<lparr>IRQ1_Sem := n\<rparr>) = Some d'"
  shows "radio_ok w (p, d')"
proof (cases p)
  case Running
  let ?d = "d\<lparr>IRQ1_Sem := n\<rparr>"
  have l: "length (RXBuff ?d) = 255" "length (TXBuff ?d) = 255" using assms(1) by (auto simp: radio_ok_def)
  consider "ubRFState d = trxstate_rx" | "ubRFState d = trxstate_tx_xtalwait" "send_timer d"
    | "ubRFState d \<in> {trxstate_tx_longpreamble, trxstate_tx_shortpreamble}" "send_timer d"
    | "ubRFState d = trxstate_tx_packet" "send_timer d" | "ubRFState d = trxstate_tx_waitdone"
    using assms(1) Running by (auto simp: radio_ok_def)
  then show ?thesis
  proof cases
    case 1
    then show ?thesis using assms(2) irq_receive_done [of w ?d d'] l by (simp add: rf_433_irq_def radio_ok_def Running)
  next
    case 2
    then show ?thesis using assms(2) irq_xtalwait_done [of w ?d d'] l by (auto simp: rf_433_irq_def radio_ok_def Running)
  next
    case 3
    then show ?thesis using assms(2) l by (auto simp: rf_433_irq_def radio_ok_def Running)
  next
    case 4
    then show ?thesis using assms(2) l by (auto simp: rf_433_irq_def radio_ok_def Running)
  next
    case 5
    then show ?thesis using assms(2) irq_waitdone_done [of w ?d d'] l by (auto simp: rf_433_irq_def radio_ok_def Running)
  qed
qed (use assms in \<open>auto simp: radio_ok_def rf_433_irq_def single_write set_RFState_def\<close>)

lemma timeout_done:
  assumes "rf_433_send_timer_callback w d = Some d'"
  shows "ubRFState d' = trxstate_rx \<and> RXBuff d' = RXBuff d \<and> TXBuff d' = TXBuff d"
proof (cases "ubRFState d = trxstate_rx")
  case True
  then show ?thesis using assms by (simp add: rf_433_send_timer_callback_def)
next
  case False
  let ?e = "rf_restart w (SpiWriteSingleAddressRegister REG_AX5043_RADIOEVENTMASK0 0 d)"
  have e: "AX5043Receiver_Continuous w ?e = Some d'" using assms False by (simp add: rf_433_send_timer_callback_def)
  have "steady d ?e"
    by (rule steady_trans [OF _ steady_rf_restart]) (simp add: silent_steady silent_write)
  then have "steady d d'" using Receiver_Continuous_done [OF e] steady_trans by blast
  then show ?thesis using Receiver_Continuous_done [OF e] steady_sel(2,4) by simp
qed

lemma radio_step_ok: "radio_step w x y \<Longrightarrow> radio_ok w x \<Longrightarrow> radio_ok w y"
proof (induction rule: radio_step.induct)
  case (isr p d)
  then show ?case by (cases p) (simp_all add: radio_ok_def IRQ1_ISR_def reported_busy_def)
next
  case (irq d n d' p)
  then show ?case using irq_keeps by blast
next
  case (wait p d)
  then show ?case by (cases p) (simp_all add: radio_ok_def wait_ms_def reported_busy_def)
next
  case (xtal d)
  then show ?case by (simp add: radio_ok_def startup_ranging_sel)
next
  case (ranging d)
  then show ?case by (simp add: radio_ok_def startup_finish_sel ReceiverON_sel)
next
  case (send f d d')
  then show ?case using RF_Send_done [of w f d d'] by (simp add: radio_ok_def)
next
  case (timeout d d')
  then show ?case using timeout_done [of w "d\<lparr>send_timer := False\<rparr>" d'] by (simp add: radio_ok_def)
qed

lemma radio_reachable_ok: "radio_reachable w x \<Longrightarrow> radio_ok w x"
proof (induction rule: radio_reachable.induct)
  case (start d)
  then show ?case using startup_reset_done by (simp add: radio_ok_def)
next
  case (step x y)
  then show ?case using radio_step_ok by blast
qed

section \<open>Sending a frame\<close>

text \<open>
  A chip that keeps its configuration and has room: the frame mode and the modulation read back as they were set,
  and the two bytes of the free count of the transmit FIFO, read in a row, say at least 15.
\<close>

definition chip_ready :: "world \<Rightarrow> bool" where
  "chip_ready w \<longleftrightarrow> (\<forall>h. chip_answer w (Rx [REG_AX5043_FRAMING] 1 # h) 0 AND 0x0E = 0x06 \<and>
     chip_answer w (Rx [REG_AX5043_MODULATION] 1 # h) 0 AND 0x0F \<noteq> 9 \<and>
     (15 \<le> chip_answer w (Rx [REG_AX5043_FIFOFREE0] 1 # h) 0 \<or>
      chip_answer w (Rx [REG_AX5043_FIFOFREE1] 1 # Rx [REG_AX5043_FIFOFREE0] 1 # h) 0 \<noteq> 0))"

lemma fifo_write_fifo [simp]: "fifo_bytes (spi_log (write_fifo bs d)) = fifo_bytes (spi_log d) @ bs"
  by (induction bs arbitrary: d) (simp_all add: write_fifo_def write_all_def single_write)

lemma write_fifo_sel [simp]:
  "ubRFState (write_fifo bs d) = ubRFState d" "axradio_txbuffer_cnt (write_fifo bs d) = axradio_txbuffer_cnt d"
  "TxLen (write_fifo bs d) = TxLen d" "TXBuff (write_fifo bs d) = TXBuff d" "send_timer (write_fifo bs d) = send_timer d"
  by (simp_all add: write_fifo_def)

definition preamble_bytes :: "uint8 list" where
  "preamble_bytes = [0x62, 0x38, 4, 0x55] @ [0xA1, 0x38, 0xCC, 0xAA, 0xCC, 0xAA]"

text \<open>Loading the preamble and the synchronisation word, with the room the chip reports.\<close>

lemma TransmitData_preamble:
  assumes "chip_ready w" "ubRFState d = trxstate_tx_longpreamble" "axradio_txbuffer_cnt d = 0"
  shows "\<exists>d'. TransmitData w d = Some d' \<and> ubRFState d' = trxstate_tx_packet \<and>
    fifo_bytes (spi_log d') = fifo_bytes (spi_log d) @ preamble_bytes"
proof -
  define free where "free e = (if fst (SpiReadSingleAddressRegister w REG_AX5043_FIFOFREE1
      (snd (SpiReadSingleAddressRegister w REG_AX5043_FIFOFREE0 e))) \<noteq> 0 then 0xff
    else fst (SpiReadSingleAddressRegister w REG_AX5043_FIFOFREE0 e))" for e
  define polled where "polled e = snd (SpiReadSingleAddressRegister w REG_AX5043_FIFOFREE1
      (snd (SpiReadSingleAddressRegister w REG_AX5043_FIFOFREE0 e)))" for e
  have p: "ubRFState (polled e) = ubRFState e" "axradio_txbuffer_cnt (polled e) = axradio_txbuffer_cnt e"
    "fifo_bytes (spi_log (polled e)) = fifo_bytes (spi_log e)" for e
    by (simp_all add: polled_def single_read)
  have room: "\<not> free e < 15" "\<not> free e < 4" for e
  proof -
    show "\<not> free e < 15" using assms(1) by (auto simp: free_def single_read chip_ready_def not_less)
    then show "\<not> free e < 4" by (auto simp: not_less intro: order_trans [of 4 15])
  qed
  have "TransmitData w e = Some (polled e)" if "ubRFState e = trxstate_tx_packet" for e
    using that by (subst TransmitData.simps) (simp add: Let_def case_prod_beta polled_def single_read)
  then have 3: "TransmitData w e = Some (polled e)" if "ubRFState e = trxstate_tx_packet" for e using that by blast
  define b where "b e = set_RFState trxstate_tx_packet (write_fifo [0xA1, 0x38, 0xCC, 0xAA, 0xCC, 0xAA]
      (snd (SpiReadSingleAddressRegister w REG_AX5043_FRAMING (polled e))))" for e
  have 2: "TransmitData w e = TransmitData w (b e)"
    if "ubRFState e = trxstate_tx_shortpreamble" "axradio_txbuffer_cnt e = 0" for e
  proof -
    have f: "chip_answer w (Rx [REG_AX5043_FRAMING] 1 # h) 0 AND 0x0E = 0x06" for h using assms(1) by (simp add: chip_ready_def)
    have "shortpreamble w (free e) (polled e) = (True, b e)"
      using that room(1) [of e] f
      by (simp add: shortpreamble_def p single_read rf_433_config_init_def b_def Let_def)
    then show ?thesis
      using that by (subst TransmitData.simps)
        (simp add: Let_def case_prod_beta free_def [symmetric] polled_def [symmetric] p)
  qed
  define a where "a e = write_fifo [0x62, 0x38, 4, 0x55] ((polled e)\<lparr>ubRFState := trxstate_tx_shortpreamble, axradio_txbuffer_cnt := 0\<rparr>)" for e
  have 1: "TransmitData w e = TransmitData w (a e)"
    if "ubRFState e = trxstate_tx_longpreamble" "axradio_txbuffer_cnt e = 0" for e
  proof -
    have "shortpreamble w (free e) ((polled e)\<lparr>ubRFState := trxstate_tx_shortpreamble,
        axradio_txbuffer_cnt := ucast (axradio_phy_preamble_len config)\<rparr>) = (True, a e)"
      using room(2) [of e]
      by (simp add: shortpreamble_def preamble_rest_def rf_433_config_init_def a_def Let_def comp_def)
    then show ?thesis
      using that by (subst TransmitData.simps)
        (simp add: Let_def case_prod_beta free_def [symmetric] polled_def [symmetric] p)
  qed
  have s: "ubRFState (a d) = trxstate_tx_shortpreamble" "axradio_txbuffer_cnt (a d) = 0"
    "ubRFState (b (a d)) = trxstate_tx_packet"
    by (simp_all add: a_def b_def set_RFState_def)
  have "TransmitData w d = Some (polled (b (a d)))" using 1 [OF assms(2,3)] 2 [OF s(1,2)] 3 [OF s(3)] by simp
  moreover have "fifo_bytes (spi_log (polled (b (a d)))) = fifo_bytes (spi_log d) @ preamble_bytes"
    by (simp add: p b_def a_def single_read set_RFState_def preamble_bytes_def)
  ultimately show ?thesis using s(3) p(1) by simp
qed

section \<open>Receiving a frame\<close>

text \<open>The chunks the chip puts into the receive FIFO, with the parameters the driver knows, and their encoding.\<close>

datatype rx_chunk = Data_chunk uint8 "uint8 list" | Rssi_chunk uint8 | Freq_chunk uint8 uint8 uint8
  | Timer_chunk uint8 uint8 uint8

fun chunk_bytes :: "rx_chunk \<Rightarrow> uint8 list" where
  "chunk_bytes (Data_chunk flags p) = [0xE1, of_nat (length p) + 1, flags] @ p"
| "chunk_bytes (Rssi_chunk r) = [0x31, r]"
| "chunk_bytes (Freq_chunk a b c) = [0x73, a, b, c]"
| "chunk_bytes (Timer_chunk a b c) = [0x70, a, b, c]"

fun chunk_ok :: "rx_chunk \<Rightarrow> bool" where
  "chunk_ok (Data_chunk flags p) = (length p \<le> 254)"
| "chunk_ok _ = True"

text \<open>What a chunk means: the payload and its length, and the signal strength in dBm.\<close>

fun chunk_meaning :: "rx_chunk \<Rightarrow> uint8 list \<times> uint8 \<times> int32 \<Rightarrow> uint8 list \<times> uint8 \<times> int32" where
  "chunk_meaning (Data_chunk flags p) (buf, n, r) = (p @ drop (length p) buf, of_nat (length p), r)"
| "chunk_meaning (Rssi_chunk x) (buf, n, r) = (buf, n, scast x - 64)"
| "chunk_meaning _ m = m"

text \<open>How many bytes a part of the history took out of the FIFO, and a FIFO that holds the bytes \<open>bs\<close>.\<close>

fun fifo_taken :: "spi list \<Rightarrow> nat" where
  "fifo_taken [] = 0"
| "fifo_taken (Rx a n # h) = (if a = [REG_AX5043_FIFODATA] then n else 0) + fifo_taken h"
| "fifo_taken (_ # h) = fifo_taken h"

definition fifo_holds :: "world \<Rightarrow> spi list \<Rightarrow> uint8 list \<Rightarrow> bool" where
  "fifo_holds w h bs \<longleftrightarrow> (\<forall>e.
     (chip_answer w (Rx [REG_AX5043_IRQREQUEST0] 1 # e @ h) 0 AND 0x01 \<noteq> 0 \<longleftrightarrow> fifo_taken e < length bs) \<and>
     (\<forall>n i. i < n \<and> fifo_taken e + i < length bs \<longrightarrow>
        chip_answer w (Rx [REG_AX5043_FIFODATA] n # e @ h) i = bs ! (fifo_taken e + i)))"

definition feeds :: "spi list \<Rightarrow> uint8 list \<Rightarrow> ax5043 \<Rightarrow> uint8 list \<Rightarrow> bool" where
  "feeds h bs d r \<longleftrightarrow> (\<exists>e. spi_log d = e @ h \<and> r = drop (fifo_taken e) bs)"

lemma feeds_fields [simp]:
  "feeds h bs (d\<lparr>RXBuff := x, RxLen := y\<rparr>) r = feeds h bs d r" "feeds h bs (d\<lparr>ubRssi := z\<rparr>) r = feeds h bs d r"
  by (simp_all add: feeds_def)

lemma feeds_other:
  assumes "feeds h bs d r"
  shows "q AND 0x7F \<noteq> REG_AX5043_FIFODATA \<Longrightarrow> feeds h bs (snd (SpiReadSingleAddressRegister w q d)) r"
    "feeds h bs (SpiWriteSingleAddressRegister q v d) r"
proof -
  obtain e where e: "spi_log d = e @ h" "r = drop (fifo_taken e) bs" using assms unfolding feeds_def by blast
  show "q AND 0x7F \<noteq> REG_AX5043_FIFODATA \<Longrightarrow> feeds h bs (snd (SpiReadSingleAddressRegister w q d)) r"
    unfolding feeds_def using e by (intro exI [of _ "Rx [q AND 0x7F] 1 # e"]) (simp add: single_read)
  show "feeds h bs (SpiWriteSingleAddressRegister q v d) r"
    unfolding feeds_def using e by (intro exI [of _ "Tx [q OR 0x80, v] # e"]) (simp add: single_write)
qed

lemma feeds_data:
  assumes "fifo_holds w h bs" "feeds h bs d (p @ r)"
  shows "SpiReadData w (length p) d = (p, snd (SpiReadData w (length p) d)) \<and>
    feeds h bs (snd (SpiReadData w (length p) d)) r"
proof -
  obtain e where e: "spi_log d = e @ h" "p @ r = drop (fifo_taken e) bs" using assms(2) unfolding feeds_def by blast
  have "bs ! (fifo_taken e + i) = p ! i \<and> fifo_taken e + i < length bs" if "i < length p" for i
  proof -
    have "length (p @ r) = length bs - fifo_taken e" by (simp add: e(2))
    then have 1: "fifo_taken e + i < length bs" using that by simp
    then have "drop (fifo_taken e) bs ! i = bs ! (fifo_taken e + i)" by simp
    then show ?thesis using 1 that by (simp add: e(2) [symmetric] nth_append)
  qed
  then have a: "chip_answer w (Rx [REG_AX5043_FIFODATA] (length p) # spi_log d) i = p ! i" if "i < length p" for i
    using assms(1) that unfolding fifo_holds_def e(1) by simp
  then have "fst (SpiReadData w (length p) d) = p"
    by (auto simp: SpiReadData_def spi_recv_def Let_def intro: nth_equalityI)
  moreover have "feeds h bs (snd (SpiReadData w (length p) d)) r"
  proof -
    have "drop (length p) (p @ r) = drop (length p + fifo_taken e) bs" unfolding e(2) by (simp add: add.commute)
    then show ?thesis
      unfolding feeds_def
      by (intro exI [of _ "Rx [REG_AX5043_FIFODATA] (length p) # e"])
        (simp add: SpiReadData_def spi_recv_def Let_def e(1))
  qed
  ultimately show ?thesis by (metis prod.collapse)
qed

lemma fifo_single: "SpiReadSingleAddressRegister w REG_AX5043_FIFODATA d = (hd (fst (SpiReadData w 1 d)), snd (SpiReadData w 1 d))"
  by (simp add: SpiReadSingleAddressRegister_def SpiReadData_def Let_def case_prod_beta)

lemma feeds_byte:
  assumes "fifo_holds w h bs" "feeds h bs d (b # r)"
  shows "\<exists>d'. SpiReadSingleAddressRegister w REG_AX5043_FIFODATA d = (b, d') \<and> feeds h bs d' r \<and> fifo_silent d d'"
proof -
  have "SpiReadData w 1 d = ([b], snd (SpiReadData w 1 d))" "feeds h bs (snd (SpiReadData w 1 d)) r"
    using feeds_data [OF assms(1), of d "[b]" r] assms(2) by simp_all
  then show ?thesis using silent_reads(3) [of d w 1] fifo_single [of w d] by (metis fst_conv list.sel(1))
qed

lemma feeds_drop:
  assumes "fifo_holds w h bs" "feeds h bs d (p @ r)"
  shows "feeds h bs (drop_bytes w (length p) d) r"
  using assms(2)
proof (induction p arbitrary: d)
  case (Cons b p)
  obtain d' where "SpiReadSingleAddressRegister w REG_AX5043_FIFODATA d = (b, d')" "feeds h bs d' (p @ r)"
    using feeds_byte [OF assms(1)] Cons.prems by fastforce
  then show ?case using Cons.IH by simp
qed simp

lemma chunk_headers:
  "drop_bit 5 ((0xE1 :: uint8) AND 0xE0) = 7" "(0xE1 :: uint8) AND 0x1F = 1"
  "drop_bit 5 ((0x31 :: uint8) AND 0xE0) = 1" "(0x31 :: uint8) AND 0x1F = 0x11"
  "drop_bit 5 ((0x73 :: uint8) AND 0xE0) = 3" "(0x73 :: uint8) AND 0x1F = 0x13"
  "drop_bit 5 ((0x70 :: uint8) AND 0xE0) = 3" "(0x70 :: uint8) AND 0x1F = 0x10"
  by code_simp+

abbreviation (input) rx_result :: "ax5043 \<Rightarrow> uint8 list \<times> uint8 \<times> int32" where
  "rx_result d \<equiv> (RXBuff d, RxLen d, ubRssi d)"

lemma silent_result: "fifo_silent d d' \<Longrightarrow> rx_result d' = rx_result d"
  using steady_sel(1,4,5) [OF silent_steady] by simp

lemma receive_chunk_meaning:
  assumes "fifo_holds w h bs" "feeds h bs d (chunk_bytes c @ r)" "chunk_ok c"
  shows "feeds h bs (receive_chunk w d) r \<and> rx_result (receive_chunk w d) = chunk_meaning c (rx_result d)"
proof (cases c)
  case (Data_chunk fl p)
  define n :: uint8 where "n = of_nat (length p) + 1"
  have l: "length p \<le> 254" using assms(3) Data_chunk by simp
  have n: "n \<noteq> 0" "n - 1 = of_nat (length p)" "unat (n - 1) = length p"
  proof -
    show 1: "n - 1 = of_nat (length p)" by (simp add: n_def)
    show 2: "unat (n - 1) = length p" unfolding 1 using l by (simp add: unat_of_nat)
    show "n \<noteq> 0"
    proof
      assume "n = 0"
      moreover have "unat (0 - 1 :: uint8) = 255" by code_simp
      ultimately show False using 2 l by simp
    qed
  qed
  obtain d1 where 1: "SpiReadSingleAddressRegister w REG_AX5043_FIFODATA d = (0xE1, d1)"
    "feeds h bs d1 (n # fl # p @ r)" "fifo_silent d d1"
    using feeds_byte [OF assms(1), of d] assms(2) by (fastforce simp: Data_chunk n_def)
  obtain d2 where 2: "SpiReadSingleAddressRegister w REG_AX5043_FIFODATA d1 = (n, d2)"
    "feeds h bs d2 (fl # p @ r)" "fifo_silent d1 d2"
    using feeds_byte [OF assms(1) 1(2)] by blast
  obtain d3 where 3: "SpiReadSingleAddressRegister w REG_AX5043_FIFODATA d2 = (fl, d3)"
    "feeds h bs d3 (p @ r)" "fifo_silent d2 d3"
    using feeds_byte [OF assms(1) 2(2)] by blast
  obtain d4 where 4: "SpiReadData w (length p) d3 = (p, d4)" "feeds h bs d4 r" "fifo_silent d3 d4"
    using feeds_data [OF assms(1) 3(2)] silent_reads(3) by metis
  have s: "fifo_silent d d4" using 1(3) 2(3) 3(3) 4(3) by (meson silent_trans)
  define d5 where "d5 = d4\<lparr>RXBuff := p @ drop (length p) (RXBuff d4), RxLen := n - 1\<rparr>"
  obtain m d6 where 6: "SpiReadSingleAddressRegister w REG_AX5043_IRQMASK0 d5 = (m, d6)" by fastforce
  have e: "receive_chunk w d = SpiWriteSingleAddressRegister REG_AX5043_IRQMASK0 (m AND NOT 0x01) d6"
    using n(1) unfolding receive_chunk_def Let_def 1(1) prod.case chunk_headers
    by (simp add: 2(1) 3(1) n(3) 4(1) 6 [unfolded d5_def])
  have "feeds h bs d5 r" using 4(2) by (simp add: d5_def)
  then have "feeds h bs d6 r" using feeds_other(1) [of h bs d5 r REG_AX5043_IRQMASK0 w] 6 by simp
  then have f: "feeds h bs (receive_chunk w d) r" unfolding e by (rule feeds_other(2))
  have s5: "fifo_silent d5 (receive_chunk w d)"
  proof -
    have "fifo_silent d5 d6" using 6 silent_reads(1) [of d5 w REG_AX5043_IRQMASK0] by simp
    also have "fifo_silent d6 (receive_chunk w d)" unfolding e by (rule silent_write) simp
    finally (silent_trans) show ?thesis .
  qed
  show ?thesis
    using f silent_result [OF s] silent_result [OF s5] n(2) by (simp add: d5_def Data_chunk)
next
  case (Rssi_chunk x)
  obtain d1 where 1: "SpiReadSingleAddressRegister w REG_AX5043_FIFODATA d = (0x31, d1)"
    "feeds h bs d1 (x # r)" "fifo_silent d d1"
    using feeds_byte [OF assms(1), of d] assms(2) by (fastforce simp: Rssi_chunk)
  obtain d2 where 2: "SpiReadSingleAddressRegister w REG_AX5043_FIFODATA d1 = (x, d2)" "feeds h bs d2 r" "fifo_silent d1 d2"
    using feeds_byte [OF assms(1) 1(2)] by blast
  have "receive_chunk w d = d2\<lparr>ubRssi := scast x - 64\<rparr>"
    unfolding receive_chunk_def Let_def by (simp add: 1(1) 2(1) chunk_headers rf_433_config_init_def)
  then show ?thesis using 2(2) silent_result [OF silent_trans [OF 1(3) 2(3)]] by (simp add: Rssi_chunk)
next
  case (Freq_chunk a b x)
  obtain d1 where 1: "SpiReadSingleAddressRegister w REG_AX5043_FIFODATA d = (0x73, d1)"
    "feeds h bs d1 ([a, b, x] @ r)" "fifo_silent d d1"
    using feeds_byte [OF assms(1), of d] assms(2) by (fastforce simp: Freq_chunk)
  have "receive_chunk w d = drop_bytes w (length [a, b, x]) d1"
    unfolding receive_chunk_def Let_def by (simp add: 1(1) chunk_headers numeral_3_eq_3)
  then show ?thesis
    using feeds_drop [OF assms(1) 1(2)] silent_result [OF silent_trans [OF 1(3) silent_drop [of d1 w "length [a, b, x]"]]]
    by (simp only: Freq_chunk chunk_meaning.simps simp_thms)
next
  case (Timer_chunk a b x)
  obtain d1 where 1: "SpiReadSingleAddressRegister w REG_AX5043_FIFODATA d = (0x70, d1)"
    "feeds h bs d1 ([a, b, x] @ r)" "fifo_silent d d1"
    using feeds_byte [OF assms(1), of d] assms(2) by (fastforce simp: Timer_chunk)
  have "receive_chunk w d = drop_bytes w (length [a, b, x]) d1"
    unfolding receive_chunk_def Let_def by (simp add: 1(1) chunk_headers numeral_3_eq_3)
  then show ?thesis
    using feeds_drop [OF assms(1) 1(2)] silent_result [OF silent_trans [OF 1(3) silent_drop [of d1 w "length [a, b, x]"]]]
    by (simp only: Timer_chunk chunk_meaning.simps simp_thms)
qed

lemma feeds_irq:
  assumes "fifo_holds w h bs" "feeds h bs d r"
  shows "fst (SpiReadSingleAddressRegister w REG_AX5043_IRQREQUEST0 d) AND 0x01 \<noteq> 0 \<longleftrightarrow> r \<noteq> []"
proof -
  obtain e where e: "spi_log d = e @ h" "r = drop (fifo_taken e) bs" using assms(2) unfolding feeds_def by blast
  have "chip_answer w (Rx [REG_AX5043_IRQREQUEST0] 1 # e @ h) 0 AND 0x01 \<noteq> 0 \<longleftrightarrow> fifo_taken e < length bs"
    using assms(1) unfolding fifo_holds_def by blast
  then show ?thesis by (auto simp: single_read e)
qed

lemma receive_loop_meaning:
  assumes "fifo_holds w h bs" "feeds h bs d (concat (map chunk_bytes cs))" "\<forall>c \<in> set cs. chunk_ok c"
  shows "\<exists>d'. receive_loop w d = Some d' \<and> rx_result d' = fold chunk_meaning cs (rx_result d)"
  using assms(2,3)
proof (induction cs arbitrary: d)
  case Nil
  then have "fst (SpiReadSingleAddressRegister w REG_AX5043_IRQREQUEST0 d) AND 0x01 = 0"
    using feeds_irq [OF assms(1)] by simp
  then show ?case
    using silent_result [OF silent_reads(1)] by (subst receive_loop.simps) (simp add: Let_def case_prod_beta)
next
  case (Cons c cs)
  let ?d = "snd (SpiReadSingleAddressRegister w REG_AX5043_IRQREQUEST0 d)"
  have "chunk_bytes c \<noteq> []" by (cases c) simp_all
  then have t: "fst (SpiReadSingleAddressRegister w REG_AX5043_IRQREQUEST0 d) AND 0x01 \<noteq> 0"
    using feeds_irq [OF assms(1) Cons.prems(1)] by simp
  have "feeds h bs ?d (chunk_bytes c @ concat (map chunk_bytes cs))"
    using feeds_other(1) [OF Cons.prems(1), of REG_AX5043_IRQREQUEST0 w] by simp
  from receive_chunk_meaning [OF assms(1) this] Cons.prems(2)
  have r: "feeds h bs (receive_chunk w ?d) (concat (map chunk_bytes cs))"
    "rx_result (receive_chunk w ?d) = chunk_meaning c (rx_result d)"
    using silent_result [OF silent_reads(1), of w REG_AX5043_IRQREQUEST0 d] by simp_all
  obtain d' where "receive_loop w (receive_chunk w ?d) = Some d'"
    "rx_result d' = fold chunk_meaning cs (rx_result (receive_chunk w ?d))"
    using Cons.IH [OF r(1)] Cons.prems(2) by auto
  then show ?case using t r(2) by (subst receive_loop.simps) (simp add: Let_def case_prod_beta)
qed

lemma ReceiveData_meaning:
  assumes "fifo_holds w (spi_log d) (concat (map chunk_bytes cs))" "\<forall>c \<in> set cs. chunk_ok c"
  shows "\<exists>d'. ReceiveData w d = Some d' \<and> rx_result d' = fold chunk_meaning cs (replicate 255 0, 0, 0)"
proof -
  let ?d = "d\<lparr>ubRssi := 0, RxLen := 0, RXBuff := replicate 255 0\<rparr>"
  let ?e = "snd (SpiReadSingleAddressRegister w REG_AX5043_RADIOEVENTREQ0 ?d)"
  have "feeds (spi_log d) (concat (map chunk_bytes cs)) ?e (concat (map chunk_bytes cs))"
    unfolding feeds_def by (intro exI [of _ "[Rx [REG_AX5043_RADIOEVENTREQ0] 1]"]) (simp add: single_read)
  from receive_loop_meaning [OF assms(1) this assms(2)] show ?thesis
    using silent_result [OF silent_reads(1), of w REG_AX5043_RADIOEVENTREQ0 ?d] by (simp add: ReceiveData_def)
qed

section \<open>A chip for the witnesses\<close>

text \<open>
  A chip that holds the bytes \<open>bs\<close> in its receive FIFO, is configured as the driver configures it, has
  room in its transmit FIFO, and whose modem supply follows the power mode that was written last.
\<close>

fun last_mode :: "spi list \<Rightarrow> uint8" where
  "last_mode [] = 0"
| "last_mode (Tx [a, v] # h) = (if a = REG_AX5043_PWRMODE OR 0x80 then v else last_mode h)"
| "last_mode (_ # h) = last_mode h"

definition sample_chip :: "uint8 list \<Rightarrow> world" where
  "sample_chip bs = \<lparr>
     chip_answer = (\<lambda>h i. case h of
         Rx [a] n # e \<Rightarrow>
           if a = REG_AX5043_FIFODATA then (if fifo_taken e + i < length bs then bs ! (fifo_taken e + i) else 0)
           else if a = REG_AX5043_IRQREQUEST0 then (if fifo_taken e < length bs then 1 else 0)
           else if a = REG_AX5043_FRAMING then 0x26
           else if a = REG_AX5043_MODULATION then 0x08
           else if a = REG_AX5043_FIFOFREE1 then 1
           else if a = REG_AX5043_POWSTAT then (if last_mode e = AX5043_PWRSTATE_XTAL_ON then 0 else 0x08)
           else if a = REG_AX5043_SCRATCH then 0x55
           else 0
       | _ \<Rightarrow> 0),
     clock_at = (\<lambda>h. of_nat (length h))\<rparr>"

lemma sample_chip_time: "time_passes 50 (sample_chip bs)"
proof -
  have "50 \<le> (of_nat n :: uint32)" if "50 \<le> n" "n \<le> 53" for n
    using that by (simp add: word_le_nat_alt unat_of_nat)
  then show ?thesis by (simp add: time_passes_def sample_chip_def)
qed

lemma sample_chip_ready: "chip_ready (sample_chip bs)"
  by (simp add: chip_ready_def sample_chip_def)

lemma sample_chip_holds: "fifo_holds (sample_chip bs) [] bs"
  by (simp add: fifo_holds_def sample_chip_def)

text \<open>An interrupt and the round of the interrupt task that serves it.\<close>

lemma interrupt_served:
  assumes "radio_reachable w (p, d)" "\<And>n. \<exists>m. rf_433_irq w (d\<lparr>IRQ1_Sem := n\<rparr>) = Some (e\<lparr>IRQ1_Sem := m\<rparr>)"
  obtains m where "radio_reachable w (p, e\<lparr>IRQ1_Sem := m\<rparr>)"
proof -
  have "IRQ1_Sem (IRQ1_ISR d) \<noteq> 0" by (simp add: IRQ1_ISR_def)
  then obtain n where n: "IRQ1_Sem (IRQ1_ISR d) = Suc n" using not0_implies_Suc by blast
  have "(IRQ1_ISR d)\<lparr>IRQ1_Sem := n\<rparr> = d\<lparr>IRQ1_Sem := n\<rparr>" by (simp add: IRQ1_ISR_def)
  moreover obtain m where "rf_433_irq w (d\<lparr>IRQ1_Sem := n\<rparr>) = Some (e\<lparr>IRQ1_Sem := m\<rparr>)" using assms(2) by blast
  ultimately show ?thesis
    using that radio_reachable.step [OF radio_reachable.step [OF assms(1) radio_step.isr] radio_step.irq [OF _ n]] by simp
qed

lemma sample_reachable_radio: "\<exists>d. radio_reachable (sample_chip []) (Running, d)"
proof -
  let ?w = "sample_chip []"
  have s: "scratch_loop ?w d = Some (snd (SpiReadSingleAddressRegister ?w REG_AX5043_SCRATCH d))" for d
    by (subst scratch_loop.simps) (simp add: Let_def case_prod_beta single_read sample_chip_def)
  then obtain d0 where 0: "startup_reset ?w rf_433 = Some d0" by (simp add: startup_reset_def Ax5043_Reset_def)
  have "ubRFState d0 = trxstate_wait_xtal" using startup_reset_done [OF 0] by simp
  then have "\<exists>m. rf_433_irq ?w (d0\<lparr>IRQ1_Sem := n\<rparr>) =
      Some ((set_RFState trxstate_xtal_ready (SpiWriteSingleAddressRegister REG_AX5043_IRQMASK1 0 d0))\<lparr>IRQ1_Sem := m\<rparr>)" for n
    by (intro exI [of _ n]) (simp add: rf_433_irq_def set_RFState_def single_write)
  from interrupt_served [OF radio_reachable.start [OF 0] this]
  obtain m where m: "radio_reachable ?w (Xtal_wait,
      (set_RFState trxstate_xtal_ready (SpiWriteSingleAddressRegister REG_AX5043_IRQMASK1 0 d0))\<lparr>IRQ1_Sem := m\<rparr>)" by blast
  define d1 where "d1 = (set_RFState trxstate_xtal_ready (SpiWriteSingleAddressRegister REG_AX5043_IRQMASK1 0 d0))\<lparr>IRQ1_Sem := m\<rparr>"
  have 1: "radio_reachable ?w (Xtal_wait, d1)" "ubRFState d1 = trxstate_xtal_ready"
    using m by (simp_all add: d1_def set_RFState_def)
  define d2 where "d2 = startup_ranging d1"
  have 2: "radio_reachable ?w (Ranging_wait, d2)"
    using radio_reachable.step [OF 1(1) radio_step.xtal] 1(2) by (simp add: d2_def)
  have "\<exists>m. rf_433_irq ?w (d2\<lparr>IRQ1_Sem := n\<rparr>) =
      Some ((set_RFState trxstate_pll_ranging_done (SpiWriteSingleAddressRegister REG_AX5043_IRQMASK1 0 d2))\<lparr>IRQ1_Sem := m\<rparr>)" for n
    by (intro exI [of _ n]) (simp add: rf_433_irq_def set_RFState_def single_write d2_def startup_ranging_sel)
  from interrupt_served [OF 2 this]
  obtain k where 3: "radio_reachable ?w (Ranging_wait,
      (set_RFState trxstate_pll_ranging_done (SpiWriteSingleAddressRegister REG_AX5043_IRQMASK1 0 d2))\<lparr>IRQ1_Sem := k\<rparr>)" by blast
  have "ubRFState ((set_RFState trxstate_pll_ranging_done
      (SpiWriteSingleAddressRegister REG_AX5043_IRQMASK1 0 d2))\<lparr>IRQ1_Sem := k\<rparr>) \<noteq> trxstate_pll_ranging"
    by (simp add: set_RFState_def)
  from radio_reachable.step [OF 3 radio_step.ranging [OF this]] show ?thesis by blast
qed

section \<open>Properties\<close>

text \<open>
  C25: Once started, the driver is receiving; or a send timer runs whose expiry brings it back to receiving,
  whatever the chip answers, as long as the clock runs; or the chip has raised the interrupt of a completed
  transmission, which stopped the timer, and the answer to the last question the driver put to it was that it is still busy.
\<close>

theorem radio_recovers:
  assumes "radio_reachable w (Running, d)" "time_passes c w"
  shows "ubRFState d = trxstate_rx \<or>
    send_timer d \<and> (\<exists>d'. radio_step w (Running, d) (Running, d') \<and> ubRFState d' = trxstate_rx) \<or>
    ubRFState d = trxstate_tx_waitdone \<and> \<not> send_timer d \<and> reported_busy w d"
proof (cases "send_timer d")
  case t: True
  obtain d' where d': "rf_433_send_timer_callback w (d\<lparr>send_timer := False\<rparr>) = Some d'"
    using Receiver_Continuous_returns [OF assms(2)] by (fastforce simp: rf_433_send_timer_callback_def)
  show ?thesis using t radio_step.timeout [OF d' t] timeout_done [OF d'] by blast
next
  case False
  then show ?thesis using radio_reachable_ok [OF assms(1)] by (auto simp: radio_ok_def)
qed

theorem radio_recovers_witness:
  "\<exists>d. radio_reachable (sample_chip []) (Running, d) \<and> ubRFState d = trxstate_tx_xtalwait \<and>
    (\<exists>d'. radio_step (sample_chip []) (Running, d) (Running, d') \<and> ubRFState d' = trxstate_rx)"
proof -
  obtain d0 where 0: "radio_reachable (sample_chip []) (Running, d0)" using sample_reachable_radio by blast
  have "RF_Send (sample_chip []) [] d0 \<noteq> None"
    using SetOperationMode_returns [OF sample_chip_time, of "[]" AX5043_PWRSTATE_FULL_TX 3]
    by (simp add: RF_Send_def transmit_packet_task_def AX5043SetOperationMode_TX_def bind_eq_None_conv Let_def del: not_None_eq)
  then obtain d where d: "RF_Send (sample_chip []) [] d0 = Some d" by blast
  have r: "radio_reachable (sample_chip []) (Running, d)"
    using radio_reachable.step [OF 0 radio_step.send [OF d]] by simp
  have "ubRFState d = trxstate_tx_xtalwait"
    using RF_Send_done [OF d] radio_reachable_ok [OF 0] by (simp add: radio_ok_def)
  then show ?thesis using radio_recovers [OF r sample_chip_time] r by auto
qed

text \<open>
  C26: A frame of at most 253 bytes handed to \<open>RF_Send\<close> goes out with the next two interrupts: the bytes put into
  the transmit FIFO are the preamble and the synchronisation word, and then one data chunk that holds the length
  byte and the frame.
\<close>

theorem frame_on_air:
  assumes "time_passes c w" "chip_ready w" "length f \<le> 253" "length (TXBuff d) = 255"
  shows "\<exists>d1 d2 d3. RF_Send w f d = Some d1 \<and> rf_433_irq w d1 = Some d2 \<and> rf_433_irq w d2 = Some d3 \<and>
    ubRFState d3 = trxstate_tx_waitdone \<and> send_timer d3 \<and>
    fifo_bytes (spi_log d3) = fifo_bytes (spi_log d) @ [0x62, 0x38, 4, 0x55, 0xA1, 0x38, 0xCC, 0xAA, 0xCC, 0xAA] @
      chunk_bytes (Data_chunk 3 ((of_nat (length f) + 1) # f))"
proof -
  define n :: uint8 where "n = of_nat (length f) + 1"
  have n: "unat n = Suc (length f)"
    using assms(3) by (simp add: n_def unat_word_ariths unat_of_nat)
  have "RF_Send w f d \<noteq> None"
    using SetOperationMode_returns [OF assms(1), of AX5043_PWRSTATE_FULL_TX 3]
    by (simp add: RF_Send_def transmit_packet_task_def AX5043SetOperationMode_TX_def bind_eq_None_conv Let_def del: not_None_eq)
  then obtain d1 where 1: "RF_Send w f d = Some d1" by blast
  note s1 = RF_Send_done [OF 1 _ assms(4), folded n_def]
  define e where "e = snd (SpiReadSingleAddressRegister w REG_AX5043_MODULATION
    ((block [write_all [(REG_AX5043_FIFOSTAT, 0x03), (REG_AX5043_IRQMASK1, 0x00), (REG_AX5043_IRQMASK0, 0x08)],
       set_RFState trxstate_tx_longpreamble]) (snd (SpiReadSingleAddressRegister w REG_AX5043_RADIOEVENTREQ0 d1))))"
  have e: "ubRFState e = trxstate_tx_longpreamble" "axradio_txbuffer_cnt e = 0"
    "fifo_bytes (spi_log e) = fifo_bytes (spi_log d)"
    using s1 assms(3) by (simp_all add: e_def single_read set_RFState_def write_all_def single_write)
  have t: "rf_433_irq w d1 = TransmitData w e"
    using s1 assms(2,3)
    by (simp add: rf_433_irq_def irq_xtalwait_def e_def Let_def case_prod_beta single_read set_RFState_def chip_ready_def)
  obtain d2 where 2: "rf_433_irq w d1 = Some d2" "ubRFState d2 = trxstate_tx_packet"
    "fifo_bytes (spi_log d2) = fifo_bytes (spi_log e) @ preamble_bytes"
    unfolding t using TransmitData_preamble [OF assms(2) e(1,2)] by blast
  have "irq_xtalwait w d1 = Some d2" using 2(1) s1 assms(3) by (simp add: rf_433_irq_def)
  note s2 = irq_xtalwait_done [OF this]
  have 3: "rf_433_irq w d2 = Some (irq_packet d2)" using 2(2) by (simp add: rf_433_irq_def)
  have "fifo_bytes (spi_log (irq_packet d2)) = fifo_bytes (spi_log d2) @ [0xE1, n + 1, 3] @ take (unat n) (TXBuff d2)"
    using s1 s2 assms(3)
    by (simp add: irq_packet_def cond_def reading_def single_write SpiWriteData_def spi_send_def set_RFState_def)
      (simp add: write_all_def single_write)
  also have "\<dots> = fifo_bytes (spi_log d) @ preamble_bytes @ chunk_bytes (Data_chunk 3 (n # f))"
    using s1 s2 assms(3) 2(3) e(3) n by (simp add: n_def)
  finally show ?thesis
    using 1 2(1) 3 s1 s2 assms(3) by (simp add: preamble_bytes_def n_def)
qed

text \<open>
  C27: When the chip has received, the decoder is called with what the chunks in the receive FIFO mean: the
  payload in a buffer of 255 bytes, its length without the length byte, and the signal strength in dBm; without a
  payload it is not called. Then the driver is receiving again.
\<close>

theorem frame_received:
  assumes "time_passes c w" "ubRFState d = trxstate_rx"
    "fifo_holds w (spi_log d) (concat (map chunk_bytes cs))" "\<forall>c \<in> set cs. chunk_ok c"
    "fold chunk_meaning cs (replicate 255 0, 0, 0) = (buf, n, rssi)" "length (RXBuff d) = 255"
  shows "\<exists>d'. rf_433_irq w d = Some d' \<and> ubRFState d' = trxstate_rx \<and>
    driver_calls d' = driver_calls d @ (if n = 0 then [] else [Rf433_rx_callback rssi buf (n - 1)])"
proof -
  obtain d1 where 1: "ReceiveData w d = Some d1" "rx_result d1 = (buf, n, rssi)"
    using ReceiveData_meaning [OF assms(3,4)] assms(5) by auto
  have r: "received d d1" by (rule ReceiveData_received [OF 1(1) assms(6)])
  define d2 where "d2 = (if n \<noteq> 0 then call_out (Rf433_rx_callback rssi buf (n - 1)) d1 else d1)"
  obtain d' where 2: "AX5043Receiver_Continuous w d2 = Some d'"
    using Receiver_Continuous_returns [OF assms(1)] by blast
  have "driver_calls d' = driver_calls d2" "ubRFState d' = trxstate_rx"
    using Receiver_Continuous_done [OF 2] steady_sel(9) by auto
  moreover have "driver_calls d2 = driver_calls d @ (if n = 0 then [] else [Rf433_rx_callback rssi buf (n - 1)])"
    using r by (simp add: d2_def call_out_def received_def)
  moreover have "rf_433_irq w d = Some d'"
    using 1 2 assms(2) by (cases "n = 0") (simp_all add: rf_433_irq_def irq_receive_def d2_def)
  ultimately show ?thesis by simp
qed

theorem frame_on_air_witness:
  "\<exists>d1 d2 d3. RF_Send (sample_chip []) [0x7B, 0x7D] rf_433 = Some d1 \<and> rf_433_irq (sample_chip []) d1 = Some d2 \<and>
    rf_433_irq (sample_chip []) d2 = Some d3 \<and> fifo_bytes (spi_log d3) =
      [0x62, 0x38, 4, 0x55, 0xA1, 0x38, 0xCC, 0xAA, 0xCC, 0xAA, 0xE1, 4, 3, 3, 0x7B, 0x7D]"
  using frame_on_air [OF sample_chip_time sample_chip_ready, of "[0x7B, 0x7D]" rf_433 "[]"] by (fastforce simp: rf_433_def)

theorem frame_received_witness:
  "\<exists>d'. rf_433_irq (sample_chip (chunk_bytes (Rssi_chunk 0xC0) @ chunk_bytes (Data_chunk 3 [3, 0x7B, 0x7D])))
      (rf_433\<lparr>ubRFState := 1\<rparr>) = Some d' \<and>
    driver_calls d' = [Rf433_rx_callback (- 128) ([3, 0x7B, 0x7D] @ replicate 252 0) 2]"
proof -
  let ?cs = "[Rssi_chunk 0xC0, Data_chunk 3 [3, 0x7B, 0x7D]]"
  let ?d = "rf_433\<lparr>ubRFState := 1\<rparr>"
  have h: "fifo_holds (sample_chip (concat (map chunk_bytes ?cs))) (spi_log ?d) (concat (map chunk_bytes ?cs))"
    using sample_chip_holds by (simp add: rf_433_def)
  have "scast (0xC0 :: uint8) - 64 = (- 128 :: int32)" by code_simp
  then have f: "fold chunk_meaning ?cs (replicate 255 0, 0, 0) = ([3, 0x7B, 0x7D] @ replicate 252 0, 3, - 128)" by simp
  show ?thesis
    using frame_received [OF sample_chip_time _ h _ f] by (fastforce simp: rf_433_def)
qed


end
