(* ===== verification/FlashPort.thy ===== *)
theory FlashPort
  imports EnvStore
begin

text \<open>
  What the key/value store stands on: the serial NOR flash behind \<open>src/storage/ef_sfud_port.c\<close> and the
  checksum of \<open>src/packages/EasyFlash-v4.1.0/src/ef_utils.c\<close>.

  The flash maps addresses to bytes. Programming can only clear bits, so a byte that is written twice
  holds the conjunction of the two; erasing sets a sector to ones. The chip is a parameter of the model:
  it may fail or lose its supply at any operation, and then an arbitrary part of the bits of that
  operation has been programmed. A power loss during an operation of the store is the case in which no
  later operation changes the flash either. Reading is reliable, and its result is not checked by the code.
\<close>

section \<open>The chip\<close>

text \<open>
  \<open>prog_fault w n\<close> is \<open>None\<close> when operation number \<open>n\<close> works, and otherwise says which bits of each
  byte it left unprogrammed; \<open>erase_fault\<close> gives the contents a failed erasure leaves behind.
\<close>

record flash_chip =
  prog_fault :: "nat \<Rightarrow> (nat \<Rightarrow> uint8) option"
  erase_fault :: "nat \<Rightarrow> (nat \<Rightarrow> uint8) option"

definition good_chip :: "'w flash_chip_scheme \<Rightarrow> bool" where
  "good_chip w \<longleftrightarrow> prog_fault w = (\<lambda>_. None) \<and> erase_fault w = (\<lambda>_. None)"

record nor_flash =
  flash :: "nat \<Rightarrow> uint8"
  chip_ops :: nat

definition program :: "(nat \<Rightarrow> uint8) \<Rightarrow> nat \<Rightarrow> uint8 list \<Rightarrow> (nat \<Rightarrow> uint8) \<Rightarrow> nat \<Rightarrow> uint8" where
  "program m a bs f x = (if a \<le> x \<and> x < a + length bs then f x AND (bs ! (x - a) OR m (x - a)) else f x)"

definition SECTOR_SIZE :: nat where
  "SECTOR_SIZE = 4096"

definition ef_port_read :: "nat \<Rightarrow> nat \<Rightarrow> 'a nor_flash_scheme \<Rightarrow> uint8 list" where
  "ef_port_read addr n s = map (flash s) [addr..<addr + n]"

definition ef_port_write ::
  "'w flash_chip_scheme \<Rightarrow> nat \<Rightarrow> uint8 list \<Rightarrow> 'a nor_flash_scheme \<Rightarrow> EfErrCode \<times> 'a nor_flash_scheme" where
  "ef_port_write w addr buf s =
     (case prog_fault w (chip_ops s) of
        None \<Rightarrow> (EF_NO_ERR, s\<lparr>flash := program (\<lambda>_. 0) addr buf (flash s), chip_ops := Suc (chip_ops s)\<rparr>)
      | Some m \<Rightarrow> (EF_WRITE_ERR, s\<lparr>flash := program m addr buf (flash s), chip_ops := Suc (chip_ops s)\<rparr>))"

text \<open>An assertion that fails stops the program in an endless loop, which is the value \<open>None\<close>.\<close>

definition ef_port_erase ::
  "'w flash_chip_scheme \<Rightarrow> nat \<Rightarrow> nat \<Rightarrow> 'a nor_flash_scheme \<Rightarrow> (EfErrCode \<times> 'a nor_flash_scheme) option" where
  "ef_port_erase w addr n s =
     (if addr mod SECTOR_SIZE \<noteq> 0 then None
      else Some (case erase_fault w (chip_ops s) of
        None \<Rightarrow> (EF_NO_ERR, s\<lparr>flash := (\<lambda>x. if addr \<le> x \<and> x < addr + n then 0xFF else flash s x),
                   chip_ops := Suc (chip_ops s)\<rparr>)
      | Some m \<Rightarrow> (EF_ERASE_ERR, s\<lparr>flash := (\<lambda>x. if addr \<le> x \<and> x < addr + n then m (x - addr) else flash s x),
                   chip_ops := Suc (chip_ops s)\<rparr>)))"

text \<open>A statement that is guarded by \<open>if (result == EF_NO_ERR)\<close>.\<close>

definition ok_then :: "EfErrCode \<times> 's \<Rightarrow> ('s \<Rightarrow> EfErrCode \<times> 's) \<Rightarrow> EfErrCode \<times> 's" where
  "ok_then p f = (if fst p = EF_NO_ERR then f (snd p) else p)"

section \<open>Integers in flash\<close>

definition le32 :: "uint8 list \<Rightarrow> nat" where
  "le32 bs = unat (bs ! 0) + 2 ^ 8 * unat (bs ! 1) + 2 ^ 16 * unat (bs ! 2) + 2 ^ 24 * unat (bs ! 3)"

definition le32_bytes :: "nat \<Rightarrow> uint8 list" where
  "le32_bytes n = [of_nat n, of_nat (n div 2 ^ 8), of_nat (n div 2 ^ 16), of_nat (n div 2 ^ 24)]"

text \<open>Subtraction of 32-bit unsigned integers.\<close>

definition sub32 :: "nat \<Rightarrow> nat \<Rightarrow> nat" where
  "sub32 a b = (a + (2 ^ 32 - b)) mod 2 ^ 32"

section \<open>The checksum\<close>

definition crc32_table :: "uint32 list" where
  "crc32_table = [
    0x00000000, 0x77073096, 0xEE0E612C, 0x990951BA, 0x076DC419, 0x706AF48F, 0xE963A535, 0x9E6495A3,
    0x0EDB8832, 0x79DCB8A4, 0xE0D5E91E, 0x97D2D988, 0x09B64C2B, 0x7EB17CBD, 0xE7B82D07, 0x90BF1D91,
    0x1DB71064, 0x6AB020F2, 0xF3B97148, 0x84BE41DE, 0x1ADAD47D, 0x6DDDE4EB, 0xF4D4B551, 0x83D385C7,
    0x136C9856, 0x646BA8C0, 0xFD62F97A, 0x8A65C9EC, 0x14015C4F, 0x63066CD9, 0xFA0F3D63, 0x8D080DF5,
    0x3B6E20C8, 0x4C69105E, 0xD56041E4, 0xA2677172, 0x3C03E4D1, 0x4B04D447, 0xD20D85FD, 0xA50AB56B,
    0x35B5A8FA, 0x42B2986C, 0xDBBBC9D6, 0xACBCF940, 0x32D86CE3, 0x45DF5C75, 0xDCD60DCF, 0xABD13D59,
    0x26D930AC, 0x51DE003A, 0xC8D75180, 0xBFD06116, 0x21B4F4B5, 0x56B3C423, 0xCFBA9599, 0xB8BDA50F,
    0x2802B89E, 0x5F058808, 0xC60CD9B2, 0xB10BE924, 0x2F6F7C87, 0x58684C11, 0xC1611DAB, 0xB6662D3D,
    0x76DC4190, 0x01DB7106, 0x98D220BC, 0xEFD5102A, 0x71B18589, 0x06B6B51F, 0x9FBFE4A5, 0xE8B8D433,
    0x7807C9A2, 0x0F00F934, 0x9609A88E, 0xE10E9818, 0x7F6A0DBB, 0x086D3D2D, 0x91646C97, 0xE6635C01,
    0x6B6B51F4, 0x1C6C6162, 0x856530D8, 0xF262004E, 0x6C0695ED, 0x1B01A57B, 0x8208F4C1, 0xF50FC457,
    0x65B0D9C6, 0x12B7E950, 0x8BBEB8EA, 0xFCB9887C, 0x62DD1DDF, 0x15DA2D49, 0x8CD37CF3, 0xFBD44C65,
    0x4DB26158, 0x3AB551CE, 0xA3BC0074, 0xD4BB30E2, 0x4ADFA541, 0x3DD895D7, 0xA4D1C46D, 0xD3D6F4FB,
    0x4369E96A, 0x346ED9FC, 0xAD678846, 0xDA60B8D0, 0x44042D73, 0x33031DE5, 0xAA0A4C5F, 0xDD0D7CC9,
    0x5005713C, 0x270241AA, 0xBE0B1010, 0xC90C2086, 0x5768B525, 0x206F85B3, 0xB966D409, 0xCE61E49F,
    0x5EDEF90E, 0x29D9C998, 0xB0D09822, 0xC7D7A8B4, 0x59B33D17, 0x2EB40D81, 0xB7BD5C3B, 0xC0BA6CAD,
    0xEDB88320, 0x9ABFB3B6, 0x03B6E20C, 0x74B1D29A, 0xEAD54739, 0x9DD277AF, 0x04DB2615, 0x73DC1683,
    0xE3630B12, 0x94643B84, 0x0D6D6A3E, 0x7A6A5AA8, 0xE40ECF0B, 0x9309FF9D, 0x0A00AE27, 0x7D079EB1,
    0xF00F9344, 0x8708A3D2, 0x1E01F268, 0x6906C2FE, 0xF762575D, 0x806567CB, 0x196C3671, 0x6E6B06E7,
    0xFED41B76, 0x89D32BE0, 0x10DA7A5A, 0x67DD4ACC, 0xF9B9DF6F, 0x8EBEEFF9, 0x17B7BE43, 0x60B08ED5,
    0xD6D6A3E8, 0xA1D1937E, 0x38D8C2C4, 0x4FDFF252, 0xD1BB67F1, 0xA6BC5767, 0x3FB506DD, 0x48B2364B,
    0xD80D2BDA, 0xAF0A1B4C, 0x36034AF6, 0x41047A60, 0xDF60EFC3, 0xA867DF55, 0x316E8EEF, 0x4669BE79,
    0xCB61B38C, 0xBC66831A, 0x256FD2A0, 0x5268E236, 0xCC0C7795, 0xBB0B4703, 0x220216B9, 0x5505262F,
    0xC5BA3BBE, 0xB2BD0B28, 0x2BB45A92, 0x5CB36A04, 0xC2D7FFA7, 0xB5D0CF31, 0x2CD99E8B, 0x5BDEAE1D,
    0x9B64C2B0, 0xEC63F226, 0x756AA39C, 0x026D930A, 0x9C0906A9, 0xEB0E363F, 0x72076785, 0x05005713,
    0x95BF4A82, 0xE2B87A14, 0x7BB12BAE, 0x0CB61B38, 0x92D28E9B, 0xE5D5BE0D, 0x7CDCEFB7, 0x0BDBDF21,
    0x86D3D2D4, 0xF1D4E242, 0x68DDB3F8, 0x1FDA836E, 0x81BE16CD, 0xF6B9265B, 0x6FB077E1, 0x18B74777,
    0x88085AE6, 0xFF0F6A70, 0x66063BCA, 0x11010B5C, 0x8F659EFF, 0xF862AE69, 0x616BFFD3, 0x166CCF45,
    0xA00AE278, 0xD70DD2EE, 0x4E048354, 0x3903B3C2, 0xA7672661, 0xD06016F7, 0x4969474D, 0x3E6E77DB,
    0xAED16A4A, 0xD9D65ADC, 0x40DF0B66, 0x37D83BF0, 0xA9BCAE53, 0xDEBB9EC5, 0x47B2CF7F, 0x30B5FFE9,
    0xBDBDF21C, 0xCABAC28A, 0x53B39330, 0x24B4A3A6, 0xBAD03605, 0xCDD70693, 0x54DE5729, 0x23D967BF,
    0xB3667A2E, 0xC4614AB8, 0x5D681B02, 0x2A6F2B94, 0xB40BBE37, 0xC30C8EA1, 0x5A05DF1B, 0x2D02EF8D]"

definition crc32_step :: "uint8 \<Rightarrow> uint32 \<Rightarrow> uint32" where
  "crc32_step b crc = crc32_table ! unat ((crc XOR ucast b) AND 0xFF) XOR drop_bit 8 crc"

definition ef_calc_crc32 :: "uint32 \<Rightarrow> uint8 list \<Rightarrow> uint32" where
  "ef_calc_crc32 crc buf = fold crc32_step buf (crc XOR 0xFFFFFFFF) XOR 0xFFFFFFFF"

section \<open>Lemmas on reading and programming\<close>

lemma length_ef_port_read [simp]: "length (ef_port_read a n s) = n"
  by (simp add: ef_port_read_def)

lemma nth_ef_port_read [simp]: "i < n \<Longrightarrow> ef_port_read a n s ! i = flash s (a + i)"
  by (simp add: ef_port_read_def)

lemma ef_port_read_0 [simp]: "ef_port_read a 0 s = []"
  by (simp add: ef_port_read_def)

lemma ef_port_read_add: "ef_port_read a (m + n) s = ef_port_read a m s @ ef_port_read (a + m) n s"
  unfolding ef_port_read_def add.assoc [symmetric] upt_add_eq_append [OF le_add1, of a m n] map_append ..

lemma take_ef_port_read [simp]: "take m (ef_port_read a n s) = ef_port_read a (min m n) s"
  by (rule nth_equalityI) auto

lemma drop_ef_port_read [simp]: "drop m (ef_port_read a n s) = ef_port_read (a + m) (n - m) s"
  by (rule nth_equalityI) (auto simp: add.assoc)

lemma ef_port_read_cong:
  "(\<And>x. a \<le> x \<Longrightarrow> x < a + n \<Longrightarrow> flash s x = flash s' x) \<Longrightarrow> ef_port_read a n s = ef_port_read a n s'"
  by (simp add: ef_port_read_def)

lemma program_other: "x < a \<or> a + length bs \<le> x \<Longrightarrow> program m a bs f x = f x"
  by (auto simp: program_def)

lemma program_Nil [simp]: "program m a [] f = f"
  by (rule ext) (auto simp: program_def)

lemma ones8: "(0xFF :: uint8) = - 1"
  by simp

lemma ones32: "(0xFFFFFFFF :: uint32) = - 1"
  by simp

text \<open>Programming only clears bits.\<close>

lemma program_clears: "program m a bs f x AND f x = program m a bs f x"
  by (auto simp: program_def intro!: bit_word_eqI simp: bit_simps)

text \<open>Erased bytes take what is programmed.\<close>

lemma program_erased:
  assumes "\<And>i. i < length bs \<Longrightarrow> f (a + i) = 0xFF" "i < length bs"
  shows "program (\<lambda>_. 0) a bs f (a + i) = bs ! i"
  using assms by (simp add: program_def ones8)

lemma le32_le32_bytes: "n < 2 ^ 32 \<Longrightarrow> le32 (le32_bytes n) = n"
proof -
  assume n: "n < 2 ^ 32"
  have "n mod 2 ^ 8 + 2 ^ 8 * (n div 2 ^ 8 mod 2 ^ 8) + 2 ^ 16 * (n div 2 ^ 16 mod 2 ^ 8) +
      2 ^ 24 * (n div 2 ^ 24 mod 2 ^ 8) = n"
  proof -
    have 1: "n mod 2 ^ 16 = n mod 2 ^ 8 + 2 ^ 8 * (n div 2 ^ 8 mod 2 ^ 8)"
      using mod_mult2_eq [of n "2 ^ 8" "2 ^ 8"] by (simp add: ac_simps)
    have 2: "n mod 2 ^ 24 = n mod 2 ^ 16 + 2 ^ 16 * (n div 2 ^ 16 mod 2 ^ 8)"
      using mod_mult2_eq [of n "2 ^ 16" "2 ^ 8"] by (simp add: ac_simps)
    have 3: "n mod 2 ^ 32 = n mod 2 ^ 24 + 2 ^ 24 * (n div 2 ^ 24 mod 2 ^ 8)"
      using mod_mult2_eq [of n "2 ^ 24" "2 ^ 8"] by (simp add: ac_simps)
    have "n mod 2 ^ 32 = n" using n by simp
    then show ?thesis using 1 2 3 by linarith
  qed
  moreover have "unat (of_nat k :: uint8) = k mod 2 ^ 8" for k by (simp add: unat_of_nat)
  ultimately show ?thesis using n by (simp add: le32_def le32_bytes_def)
qed

lemma length_le32_bytes [simp]: "length (le32_bytes n) = 4"
  by (simp add: le32_bytes_def)

lemma sub32_le: "b \<le> a \<Longrightarrow> a < 2 ^ 32 \<Longrightarrow> sub32 a b = a - b"
  by (simp add: sub32_def mod_if)

lemma ok_then_simps [simp]: "ok_then (EF_NO_ERR, s) f = f s" "r \<noteq> EF_NO_ERR \<Longrightarrow> ok_then (r, s) f = (r, s)"
  by (simp_all add: ok_then_def)

section \<open>The checksum is the bitwise one\<close>

lemma ef_calc_crc32_append: "ef_calc_crc32 c (xs @ ys) = ef_calc_crc32 (ef_calc_crc32 c xs) ys"
  by (simp add: ef_calc_crc32_def ac_simps)

lemma ef_calc_crc32_Nil [simp]: "ef_calc_crc32 c [] = c"
  by (simp add: ef_calc_crc32_def ac_simps)

text \<open>
  The shift register of the polynomial \<open>0xEDB88320\<close> (in reversed order), one bit at a time.
\<close>

definition crc_bit :: "uint32 \<Rightarrow> uint32" where
  "crc_bit c = (if bit c 0 then drop_bit 1 c XOR 0xEDB88320 else drop_bit 1 c)"

definition crc_byte :: "uint8 \<Rightarrow> uint32 \<Rightarrow> uint32" where
  "crc_byte b c = (crc_bit ^^ 8) (c XOR ucast b)"

lemma crc_bit_xor: "crc_bit (a XOR b) = crc_bit a XOR crc_bit b"
  by (auto simp: crc_bit_def bit_simps ac_simps drop_bit_xor)

lemma crc_bits_xor: "(crc_bit ^^ n) (a XOR b) = (crc_bit ^^ n) a XOR (crc_bit ^^ n) b"
  by (induction n) (simp_all add: crc_bit_xor)

lemma crc_bits_high: "(\<And>i. i < n \<Longrightarrow> \<not> bit c i) \<Longrightarrow> (crc_bit ^^ n) c = drop_bit n c"
proof (induction n)
  case (Suc n)
  have "(crc_bit ^^ Suc n) c = crc_bit (drop_bit n c)" using Suc by simp
  also have "\<dots> = drop_bit (Suc n) c" using Suc.prems [of n] by (simp add: crc_bit_def bit_simps)
  finally show ?case .
qed simp

lemma crc_bits_8: "(crc_bit ^^ 8) c = crc_bit (crc_bit (crc_bit (crc_bit (crc_bit (crc_bit (crc_bit (crc_bit c)))))))"
  by (simp add: numeral_eq_Suc)

lemma crc_bit_num: "crc_bit 0 = 0" "crc_bit 1 = 0xEDB88320" "crc_bit (numeral n) =
    (if bit (numeral n :: uint32) 0 then drop_bit 1 (numeral n) XOR 0xEDB88320 else drop_bit 1 (numeral n))"
  by (simp_all add: crc_bit_def)

lemma crc32_table_bits: "crc32_table = map (\<lambda>i. (crc_bit ^^ 8) (of_nat i)) [0..<256]"
proof -
  have u: "[0..<256] = 0 # 1 # [2..<256]" by (simp add: upt_conv_Cons)
  show ?thesis unfolding crc32_table_def crc_bits_8 u by (simp add: crc_bit_num)
qed

lemma crc32_table_nth: "i < 256 \<Longrightarrow> crc32_table ! i = (crc_bit ^^ 8) (of_nat i)"
  unfolding crc32_table_bits by simp

lemma crc32_step_bits: "crc32_step b c = crc_byte b c"
proof -
  let ?x = "c XOR ucast b :: uint32"
  let ?lo = "?x AND mask 8" and ?hi = "?x AND NOT (mask 8)"
  have m: "(0xFF :: uint32) = mask 8" by (simp add: mask_numeral)
  have "unat ?lo < 256" using and_mask_less' [of 8 ?x] by (simp add: word_less_nat_alt)
  then have 1: "crc32_table ! unat ?lo = (crc_bit ^^ 8) ?lo" using crc32_table_nth [of "unat ?lo"] by simp
  have "\<not> bit ?hi i" if "i < 8" for i using that by (simp add: bit_simps)
  then have "(crc_bit ^^ 8) ?hi = drop_bit 8 ?hi" by (rule crc_bits_high)
  also have "\<dots> = drop_bit 8 c" by (rule bit_word_eqI) (auto simp: bit_simps dest: bit_imp_le_length)
  finally have 2: "(crc_bit ^^ 8) ?hi = drop_bit 8 c" .
  have "?x = ?lo XOR ?hi" by (rule bit_word_eqI) (auto simp: bit_simps)
  then have "(crc_bit ^^ 8) ?x = (crc_bit ^^ 8) ?lo XOR (crc_bit ^^ 8) ?hi" using crc_bits_xor [of 8 ?lo ?hi] by metis
  then show ?thesis unfolding crc32_step_def crc_byte_def m using 1 2 by simp
qed

text \<open>
  C38: The table-driven checksum of the store is the CRC-32 that shifts its register bit by bit, for every
  start value and every buffer.
\<close>

theorem crc32_bitwise: "ef_calc_crc32 c buf = fold crc_byte buf (NOT c) XOR 0xFFFFFFFF"
proof -
  have "crc32_step = crc_byte" by (intro ext) (rule crc32_step_bits)
  moreover have "c XOR 0xFFFFFFFF = NOT c"
    by (simp add: ones32)
  ultimately show ?thesis by (simp add: ef_calc_crc32_def)
qed

end
