(* ===== verification/EnvLog.thy ===== *)
theory EnvLog
  imports FlashPort "HOL-Library.Monad_Syntax"
begin

text \<open>
  The key/value store of EasyFlash, \<open>src/packages/EasyFlash-v4.1.0/src/ef_env.c\<close>, with the settings of
  this firmware: four sectors of 4096 bytes from address 0, write granularity of one bit, both caches.

  A sector is a header of 16 bytes and a log of nodes. A node has a header of 24 bytes (status, magic
  word, length, checksum, name length, value length), the name and the value. A new value of a key is a
  new node; the old one is first marked as being deleted, and as deleted when the new one is complete.
  The status of a node or sector is a byte in which one more bit is cleared for each stage.

  Loops that follow addresses read from flash need not end, and neither does a failed assertion: the
  functions with such loops have an option as their result. A structure on the stack that the code
  passes on before it is filled in is \<open>env_uninit\<close> or \<open>sector_uninit\<close> in the world of the model.
\<close>

section \<open>Data\<close>

abbreviation (input) SECTOR_MAGIC_WORD :: nat where "SECTOR_MAGIC_WORD \<equiv> 0x30344645"
abbreviation (input) ENV_MAGIC_WORD :: nat where "ENV_MAGIC_WORD \<equiv> 0x3034564B"
abbreviation (input) SECTOR_NOT_COMBINED :: nat where "SECTOR_NOT_COMBINED \<equiv> 0xFFFFFFFF"

definition FAILED_ADDR :: nat where
  "FAILED_ADDR = 0xFFFFFFFF"

definition ENV_AREA_SIZE :: nat where
  "ENV_AREA_SIZE = 16384"

abbreviation (input) EF_SEC_REMAIN_THRESHOLD :: nat where "EF_SEC_REMAIN_THRESHOLD \<equiv> 56"
abbreviation (input) EF_GC_EMPTY_SEC_THRESHOLD :: nat where "EF_GC_EMPTY_SEC_THRESHOLD \<equiv> 1"
abbreviation (input) EF_ENV_CACHE_TABLE_SIZE :: nat where "EF_ENV_CACHE_TABLE_SIZE \<equiv> 16"
abbreviation (input) EF_SECTOR_CACHE_TABLE_SIZE :: nat where "EF_SECTOR_CACHE_TABLE_SIZE \<equiv> 4"
abbreviation (input) SECTOR_HDR_DATA_SIZE :: nat where "SECTOR_HDR_DATA_SIZE \<equiv> 16"
abbreviation (input) SECTOR_DIRTY_OFFSET :: nat where "SECTOR_DIRTY_OFFSET \<equiv> 1"
abbreviation (input) ENV_HDR_DATA_SIZE :: nat where "ENV_HDR_DATA_SIZE \<equiv> 24"
abbreviation (input) ENV_MAGIC_OFFSET :: nat where "ENV_MAGIC_OFFSET \<equiv> 4"
abbreviation (input) ENV_NAME_LEN_OFFSET :: nat where "ENV_NAME_LEN_OFFSET \<equiv> 16"

text \<open>\<open>sector_store_status\<close>, \<open>sector_dirty_status\<close> and \<open>env_status\<close>, which are stored as numbers.\<close>

abbreviation (input) SECTOR_STORE_UNUSED :: nat where "SECTOR_STORE_UNUSED \<equiv> 0"
abbreviation (input) SECTOR_STORE_EMPTY :: nat where "SECTOR_STORE_EMPTY \<equiv> 1"
abbreviation (input) SECTOR_STORE_USING :: nat where "SECTOR_STORE_USING \<equiv> 2"
abbreviation (input) SECTOR_STORE_FULL :: nat where "SECTOR_STORE_FULL \<equiv> 3"
abbreviation (input) SECTOR_STORE_STATUS_NUM :: nat where "SECTOR_STORE_STATUS_NUM \<equiv> 4"
abbreviation (input) SECTOR_DIRTY_FALSE :: nat where "SECTOR_DIRTY_FALSE \<equiv> 1"
abbreviation (input) SECTOR_DIRTY_TRUE :: nat where "SECTOR_DIRTY_TRUE \<equiv> 2"
abbreviation (input) SECTOR_DIRTY_GC :: nat where "SECTOR_DIRTY_GC \<equiv> 3"
abbreviation (input) SECTOR_DIRTY_STATUS_NUM :: nat where "SECTOR_DIRTY_STATUS_NUM \<equiv> 4"
abbreviation (input) ENV_UNUSED :: nat where "ENV_UNUSED \<equiv> 0"
abbreviation (input) ENV_PRE_WRITE :: nat where "ENV_PRE_WRITE \<equiv> 1"
abbreviation (input) ENV_WRITE :: nat where "ENV_WRITE \<equiv> 2"
abbreviation (input) ENV_PRE_DELETE :: nat where "ENV_PRE_DELETE \<equiv> 3"
abbreviation (input) ENV_DELETED :: nat where "ENV_DELETED \<equiv> 4"
abbreviation (input) ENV_ERR_HDR :: nat where "ENV_ERR_HDR \<equiv> 5"
abbreviation (input) ENV_STATUS_NUM :: nat where "ENV_STATUS_NUM \<equiv> 6"

record sector_meta_data =
  check_ok :: bool
  sec_store :: nat
  sec_dirty :: nat
  sec_addr :: nat
  sec_magic :: nat
  combined :: nat
  remain :: nat
  empty_env :: nat

record env_hdr_data =
  hdr_status :: uint8
  hdr_magic :: nat
  hdr_len :: nat
  hdr_crc32 :: uint32
  hdr_name_len :: nat
  hdr_value_len :: nat

record env_node_obj =
  env_status :: nat
  crc_is_ok :: bool
  env_name_len :: nat
  env_len :: nat
  env_value_len :: nat
  env_name :: "uint8 list"
  env_start :: nat
  env_value :: nat

record env_cache_node =
  name_crc :: uint16
  cache_active :: uint16
  cache_addr :: nat

record sector_cache_node =
  sc_addr :: nat
  empty_addr :: nat

text \<open>
  The static variables of the file, beside the flash. \<open>set_env_env\<close> and \<open>set_env_sector\<close> are the
  static locals of \<open>set_env\<close>, \<open>last_is_complete_del\<close> is the one of \<open>del_env\<close>.
\<close>

record easyflash = nor_flash +
  env_init_ok :: bool
  gc_request :: bool
  in_recovery_check :: bool
  last_is_complete_del :: bool
  env_cache_table :: "env_cache_node list"
  sector_cache_table :: "sector_cache_node list"
  set_env_env :: env_node_obj
  set_env_sector :: sector_meta_data

record ef_world = flash_chip +
  env_uninit :: env_node_obj
  sector_uninit :: sector_meta_data

section \<open>Status tables\<close>

definition STATUS_TABLE_SIZE :: "nat \<Rightarrow> nat" where
  "STATUS_TABLE_SIZE status_number = (status_number + 7) div 8"

text \<open>The table, and the byte of it that has to be written, if any.\<close>

definition set_status :: "nat \<Rightarrow> nat \<Rightarrow> uint8 list \<times> nat option" where
  "set_status status_num status_index =
     (let status_table = replicate (STATUS_TABLE_SIZE status_num) 0xFF
      in if status_index > 0 then
           let byte_index = (status_index - 1) div 8
           in (status_table[byte_index := status_table ! byte_index AND NOT (drop_bit ((status_index - 1) mod 8) 0x80)],
               Some byte_index)
         else (status_table, None))"

primrec status_scan :: "uint8 list \<Rightarrow> nat \<Rightarrow> nat" where
  "status_scan status_table 0 = 0"
| "status_scan status_table (Suc i) =
     (if status_table ! (i div 8) AND drop_bit (i mod 8) 0x80 = 0 then Suc i else status_scan status_table i)"

definition get_status :: "uint8 list \<Rightarrow> nat \<Rightarrow> nat" where
  "get_status status_table status_num = status_scan status_table (status_num - 1)"

definition write_status ::
  "'w flash_chip_scheme \<Rightarrow> nat \<Rightarrow> nat \<Rightarrow> nat \<Rightarrow> 'a nor_flash_scheme \<Rightarrow> EfErrCode \<times> 'a nor_flash_scheme" where
  "write_status w addr status_num status_index s =
     (case set_status status_num status_index of
        (_, None) \<Rightarrow> (EF_NO_ERR, s)
      | (status_table, Some byte_index) \<Rightarrow>
          ef_port_write w (addr + byte_index) [status_table ! byte_index] s)"

definition read_status :: "nat \<Rightarrow> nat \<Rightarrow> 'a nor_flash_scheme \<Rightarrow> nat" where
  "read_status addr total_num s = get_status (ef_port_read addr (STATUS_TABLE_SIZE total_num) s) total_num"

section \<open>The caches\<close>

text \<open>
  The loop of \<open>update_sector_cache\<close> over the entries from number \<open>i\<close>: the first free entry found,
  whether the function has returned, and the entries; no free entry stands for
  \<open>EF_SECTOR_CACHE_TABLE_SIZE\<close>.
\<close>

fun sector_cache_loop ::
  "nat \<Rightarrow> nat \<Rightarrow> nat \<Rightarrow> nat option \<Rightarrow> sector_cache_node list \<Rightarrow> nat option \<times> bool \<times> sector_cache_node list" where
  "sector_cache_loop addr empty_at i empty_index [] = (empty_index, False, [])"
| "sector_cache_loop addr empty_at i empty_index (n # t) =
     (let next = (\<lambda>e. let (e', r, t') = sector_cache_loop addr empty_at (Suc i) e t in (e', r, n # t'))
      in if addr < empty_at \<and> empty_at < addr + SECTOR_SIZE then
           if sc_addr n = addr then (empty_index, True, \<lparr>sc_addr = addr, empty_addr = empty_at\<rparr> # t)
           else next (if sc_addr n = FAILED_ADDR \<and> empty_index = None then Some i else empty_index)
         else if sc_addr n = addr then (empty_index, True, n\<lparr>sc_addr := FAILED_ADDR\<rparr> # t)
         else next empty_index)"

definition update_sector_cache :: "nat \<Rightarrow> nat \<Rightarrow> easyflash \<Rightarrow> easyflash" where
  "update_sector_cache addr empty_at s =
     (case sector_cache_loop addr empty_at 0 None (sector_cache_table s) of
        (Some i, False, t) \<Rightarrow> s\<lparr>sector_cache_table := t[i := \<lparr>sc_addr = addr, empty_addr = empty_at\<rparr>]\<rparr>
      | (_, _, t) \<Rightarrow> s\<lparr>sector_cache_table := t\<rparr>)"

definition get_sector_from_cache :: "nat \<Rightarrow> easyflash \<Rightarrow> nat option" where
  "get_sector_from_cache addr s =
     map_option empty_addr (find (\<lambda>n. sc_addr n = addr) (sector_cache_table s))"

definition env_name_crc :: "uint8 list \<Rightarrow> uint16" where
  "env_name_crc name = ucast (drop_bit 16 (ef_calc_crc32 0 name))"

text \<open>
  The loop of \<open>update_env_cache\<close>, with the first free entry and the least active one found so far.
\<close>

fun env_cache_loop ::
  "uint16 \<Rightarrow> nat \<Rightarrow> nat \<Rightarrow> nat option \<Rightarrow> nat option \<Rightarrow> uint16 \<Rightarrow> env_cache_node list \<Rightarrow>
    nat option \<times> nat option \<times> bool \<times> env_cache_node list" where
  "env_cache_loop crc addr i empty_index min_index min_activity [] = (empty_index, min_index, False, [])"
| "env_cache_loop crc addr i empty_index min_index min_activity (n # t) =
     (let next = (\<lambda>n' e m a. let (e', m', r, t') = env_cache_loop crc addr (Suc i) e m a t in (e', m', r, n' # t'))
      in if addr \<noteq> FAILED_ADDR then
           if name_crc n = crc then (empty_index, min_index, True, n\<lparr>cache_addr := addr\<rparr> # t)
           else if cache_addr n = FAILED_ADDR \<and> empty_index = None then next n (Some i) min_index min_activity
           else if cache_addr n \<noteq> FAILED_ADDR then
             let a = (if cache_active n > 0 then cache_active n - 1 else cache_active n)
             in if a < min_activity then next (n\<lparr>cache_active := a\<rparr>) empty_index (Some i) a
                else next (n\<lparr>cache_active := a\<rparr>) empty_index min_index min_activity
           else next n empty_index min_index min_activity
         else if name_crc n = crc then (empty_index, min_index, True, n\<lparr>cache_addr := FAILED_ADDR, cache_active := 0\<rparr> # t)
         else next n empty_index min_index min_activity)"

definition update_env_cache :: "uint8 list \<Rightarrow> nat \<Rightarrow> easyflash \<Rightarrow> easyflash" where
  "update_env_cache name addr s =
     (let crc = env_name_crc name;
          (empty_index, min_index, returned, t) =
            env_cache_loop crc addr 0 None None 0xFFFF (env_cache_table s);
          new = \<lparr>name_crc = crc, cache_active = 0, cache_addr = addr\<rparr>
      in s\<lparr>env_cache_table :=
           if returned then t
           else case empty_index of
                  Some i \<Rightarrow> t[i := new]
                | None \<Rightarrow> (case min_index of Some i \<Rightarrow> t[i := new] | None \<Rightarrow> t)\<rparr>)"

text \<open>
  \<open>strncmp\<close> reads as many bytes of the saved name as the wanted one has, at most the 32 that were read;
  a longer name cannot have been stored. A hit raises the activity of the entry.
\<close>

definition saved_name_matches :: "uint8 list \<Rightarrow> env_cache_node \<Rightarrow> 'a nor_flash_scheme \<Rightarrow> bool" where
  "saved_name_matches name n s \<longleftrightarrow>
     take (length name) (ef_port_read (cache_addr n + ENV_HDR_DATA_SIZE) EF_ENV_NAME_MAX s) = name"

fun env_cache_search ::
  "(env_cache_node \<Rightarrow> bool) \<Rightarrow> uint16 \<Rightarrow> env_cache_node list \<Rightarrow> (nat \<times> env_cache_node list) option" where
  "env_cache_search matches crc [] = None"
| "env_cache_search matches crc (n # t) =
     (if cache_addr n \<noteq> FAILED_ADDR \<and> name_crc n = crc \<and> matches n
      then Some (cache_addr n, n\<lparr>cache_active := (if cache_active n \<ge> 0xFFFF - 16 then 0xFFFF else cache_active n + 16)\<rparr> # t)
      else map_option (apsnd ((#) n)) (env_cache_search matches crc t))"

definition get_env_from_cache :: "uint8 list \<Rightarrow> easyflash \<Rightarrow> (nat \<times> easyflash) option" where
  "get_env_from_cache name s =
     map_option (\<lambda>(addr, t). (addr, s\<lparr>env_cache_table := t\<rparr>))
       (env_cache_search (\<lambda>n. saved_name_matches name n s) (env_name_crc name) (env_cache_table s))"

section \<open>Reading the log\<close>

text \<open>
  \<open>continue_ff_addr\<close> looks at the bytes in order, with the last one seen carried over from one buffer
  of 32 bytes to the next.
\<close>

definition continue_ff_addr :: "nat \<Rightarrow> nat \<Rightarrow> 'a nor_flash_scheme \<Rightarrow> nat" where
  "continue_ff_addr start end' s =
     (let (addr, last_data) =
        fold (\<lambda>x (addr, last_data). (if last_data \<noteq> 0xFF \<and> flash s x = 0xFF then x else addr, flash s x))
          [start..<end'] (start, 0)
      in if last_data = 0xFF then addr else end')"

function find_magic_loop :: "nat \<Rightarrow> nat \<Rightarrow> nat \<Rightarrow> 'a nor_flash_scheme \<Rightarrow> nat" where
  "find_magic_loop start_bak start end' s =
     (if start < end' then
        let buf = ef_port_read start 32 s
        in case find (\<lambda>i. le32 (take 4 (drop i buf)) = ENV_MAGIC_WORD \<and> start_bak \<le> sub32 (start + i) ENV_MAGIC_OFFSET)
                  [0..<min 28 (end' - start)] of
             Some i \<Rightarrow> sub32 (start + i) ENV_MAGIC_OFFSET
           | None \<Rightarrow> find_magic_loop start_bak (start + 28) end' s
      else FAILED_ADDR)"
  by pat_completeness auto
termination by (relation "measure (\<lambda>(_, start, end', _). end' - start)") auto

declare find_magic_loop.simps [simp del]

definition sector_of :: "nat \<Rightarrow> nat" where
  "sector_of addr = addr - addr mod SECTOR_SIZE"

definition find_next_env_addr :: "nat \<Rightarrow> nat \<Rightarrow> easyflash \<Rightarrow> nat" where
  "find_next_env_addr start end' s =
     (if get_sector_from_cache (sector_of start) s = Some start then FAILED_ADDR
      else find_magic_loop start start end' s)"

definition get_next_env_addr :: "sector_meta_data \<Rightarrow> env_node_obj \<Rightarrow> easyflash \<Rightarrow> nat" where
  "get_next_env_addr sector pre_env s =
     (if sec_store sector = SECTOR_STORE_EMPTY then FAILED_ADDR
      else if env_start pre_env = FAILED_ADDR then sec_addr sector + SECTOR_HDR_DATA_SIZE
      else if env_start pre_env \<le> sec_addr sector + SECTOR_SIZE then
        let addr = (if crc_is_ok pre_env then env_start pre_env + env_len pre_env else env_start pre_env + 1);
            addr = find_next_env_addr addr (sec_addr sector + SECTOR_SIZE - SECTOR_HDR_DATA_SIZE) s
        in if addr > sec_addr sector + SECTOR_SIZE \<or> env_len pre_env = 0 then FAILED_ADDR else addr
      else FAILED_ADDR)"

definition env_hdr_of :: "uint8 list \<Rightarrow> env_hdr_data" where
  "env_hdr_of bs = \<lparr>hdr_status = bs ! 0, hdr_magic = le32 (take 4 (drop 4 bs)), hdr_len = le32 (take 4 (drop 8 bs)),
     hdr_crc32 = of_nat (le32 (take 4 (drop 12 bs))), hdr_name_len = unat (bs ! 16),
     hdr_value_len = le32 (take 4 (drop 20 bs))\<rparr>"

text \<open>The checksum of \<open>n\<close> bytes from \<open>addr\<close>, read in buffers of 32 bytes.\<close>

function crc_loop :: "nat \<Rightarrow> nat \<Rightarrow> uint32 \<Rightarrow> 'a nor_flash_scheme \<Rightarrow> uint32" where
  "crc_loop addr n calc_crc32 s =
     (if n = 0 then calc_crc32
      else let size' = (if 32 < n then 32 else n)
           in crc_loop (addr + size') (n - size') (ef_calc_crc32 calc_crc32 (ef_port_read addr size' s)) s)"
  by pat_completeness auto
termination by (relation "measure (\<lambda>(_, n, _, _). n)") auto

declare crc_loop.simps [simp del]

text \<open>
  A length that cannot be right marks the node as broken in flash; \<open>None\<close> is the assertion that loops for ever. The name is read at the whole length its header says; the
  buffer of the code has 32 bytes, which a length above that overruns. The lemmas are about nodes whose
  names fit (\<open>env_fits\<close>).
\<close>

definition read_env ::
  "ef_world \<Rightarrow> env_node_obj \<Rightarrow> easyflash \<Rightarrow> (EfErrCode \<times> env_node_obj \<times> easyflash) option" where
  "read_env w env s =
     (let start = env_start env;
          env_hdr = env_hdr_of (ef_port_read start ENV_HDR_DATA_SIZE s);
          status = get_status [hdr_status env_hdr] ENV_STATUS_NUM;
          len = hdr_len env_hdr
      in if len = 0xFFFFFFFF \<or> len > ENV_AREA_SIZE \<or> len < ENV_NAME_LEN_OFFSET then
           Some (EF_READ_ERR, env\<lparr>env_status := ENV_ERR_HDR, env_len := ENV_HDR_DATA_SIZE, crc_is_ok := False\<rparr>,
             if status \<noteq> ENV_ERR_HDR then snd (write_status w start ENV_STATUS_NUM ENV_ERR_HDR s) else s)
         else if len > SECTOR_SIZE - SECTOR_HDR_DATA_SIZE \<and> len < ENV_AREA_SIZE then None
         else if crc_loop (start + ENV_NAME_LEN_OFFSET) (len - ENV_NAME_LEN_OFFSET) 0 s \<noteq> hdr_crc32 env_hdr then
           Some (EF_READ_ERR, env\<lparr>env_status := status, env_len := len, crc_is_ok := False\<rparr>, s)
         else
           let env_name_addr = start + ENV_HDR_DATA_SIZE
           in Some (EF_NO_ERR, env\<lparr>env_status := status, env_len := len, crc_is_ok := True,
                env_name := ef_port_read env_name_addr (hdr_name_len env_hdr) s,
                env_value := env_name_addr + hdr_name_len env_hdr,
                env_value_len := hdr_value_len env_hdr, env_name_len := hdr_name_len env_hdr\<rparr>, s))"

text \<open>
  The loop \<open>while ((env.addr.start = get_next_env_addr(sector, &env)) != FAILED_ADDR)\<close>, which three
  functions share: it reads each node and runs \<open>cb\<close> on it, until \<open>cb\<close> asks to stop.
\<close>

partial_function (option) env_walk ::
  "ef_world \<Rightarrow> sector_meta_data \<Rightarrow> (env_node_obj \<Rightarrow> 'x \<Rightarrow> easyflash \<Rightarrow> (bool \<times> 'x \<times> easyflash) option) \<Rightarrow>
    env_node_obj \<Rightarrow> 'x \<Rightarrow> easyflash \<Rightarrow> (bool \<times> env_node_obj \<times> 'x \<times> easyflash) option" where
  "env_walk w sector cb env x s =
     (let addr = get_next_env_addr sector env s
      in if addr = FAILED_ADDR then Some (False, env\<lparr>env_start := addr\<rparr>, x, s)
         else do {
           (_, env', s1) \<leftarrow> read_env w (env\<lparr>env_start := addr\<rparr>) s;
           (stop, x', s2) \<leftarrow> cb env' x s1;
           if stop then Some (True, env', x', s2) else env_walk w sector cb env' x' s2 })"

definition sector_hdr_of :: "uint8 list \<Rightarrow> nat \<times> nat \<times> nat \<times> nat" where
  "sector_hdr_of bs =
     (get_status [bs ! 0] SECTOR_STORE_STATUS_NUM, get_status [bs ! 1] SECTOR_DIRTY_STATUS_NUM,
      le32 (take 4 (drop 4 bs)), le32 (take 4 (drop 8 bs)))"

text \<open>The body of the traversal in \<open>read_sector_meta_data\<close>, on the result, \<open>remain\<close> and \<open>empty_env\<close>.\<close>

definition traverse_node ::
  "env_node_obj \<Rightarrow> EfErrCode \<times> nat \<times> nat \<Rightarrow> easyflash \<Rightarrow> (bool \<times> (EfErrCode \<times> nat \<times> nat) \<times> easyflash) option" where
  "traverse_node env x s =
     (let (result, remain', empty_at) = x
      in if \<not> crc_is_ok env \<and> env_status env \<noteq> ENV_PRE_WRITE \<and> env_status env \<noteq> ENV_ERR_HDR
         then Some (True, (EF_READ_ERR, 0, empty_at), s)
         else Some (False, (result, sub32 remain' (env_len env), empty_at + env_len env), s))"

definition traverse_sector ::
  "ef_world \<Rightarrow> sector_meta_data \<Rightarrow> easyflash \<Rightarrow> (EfErrCode \<times> sector_meta_data \<times> easyflash) option" where
  "traverse_sector w sector s =
     (case get_sector_from_cache (sec_addr sector) s of
        Some empty_at \<Rightarrow>
          Some (EF_NO_ERR, sector\<lparr>empty_env := empty_at, remain := sub32 SECTOR_SIZE (empty_at - sec_addr sector)\<rparr>, s)
      | None \<Rightarrow> do {
          (_, _, (result, remain', empty_at), s1) \<leftarrow> env_walk w sector traverse_node
             ((env_uninit w)\<lparr>env_start := FAILED_ADDR\<rparr>)
             (EF_NO_ERR, SECTOR_SIZE - SECTOR_HDR_DATA_SIZE, sec_addr sector + SECTOR_HDR_DATA_SIZE) s;
          let ff_addr = continue_ff_addr empty_at (sec_addr sector + SECTOR_SIZE) s1;
          let sector' = sector\<lparr>empty_env := ff_addr,
            remain := (if empty_at \<noteq> ff_addr then sub32 SECTOR_SIZE (ff_addr - sec_addr sector) else remain')\<rparr>;
          Some (result, sector', update_sector_cache (sec_addr sector) ff_addr s1) })"

definition read_sector_meta_data ::
  "ef_world \<Rightarrow> nat \<Rightarrow> sector_meta_data \<Rightarrow> bool \<Rightarrow> easyflash \<Rightarrow>
    (EfErrCode \<times> sector_meta_data \<times> easyflash) option" where
  "read_sector_meta_data w addr sector traversal s =
     (if addr mod SECTOR_SIZE \<noteq> 0 then None
      else
        let (store, dirty, magic, comb) = sector_hdr_of (ef_port_read addr SECTOR_HDR_DATA_SIZE s);
            sector = sector\<lparr>sec_addr := addr, sec_magic := magic\<rparr>
        in if magic \<noteq> SECTOR_MAGIC_WORD then
             Some (EF_ENV_INIT_FAILED, sector\<lparr>check_ok := False, combined := SECTOR_NOT_COMBINED\<rparr>, s)
           else
             let sector = sector\<lparr>check_ok := True, combined := comb, sec_store := store, sec_dirty := dirty\<rparr>
             in if \<not> traversal then Some (EF_NO_ERR, sector, s)
                else
                  let sector = sector\<lparr>remain := 0, empty_env := addr + SECTOR_HDR_DATA_SIZE\<rparr>
                  in if store = SECTOR_STORE_EMPTY then
                       Some (EF_NO_ERR, sector\<lparr>remain := SECTOR_SIZE - SECTOR_HDR_DATA_SIZE\<rparr>, s)
                     else if store = SECTOR_STORE_USING then traverse_sector w sector s
                     else Some (EF_NO_ERR, sector, s))"

end
