(* ===== verification/EnvOps.thy ===== *)
theory EnvOps
  imports EnvLog
begin

text \<open>
  The operations of the key/value store in \<open>src/packages/EasyFlash-v4.1.0/src/ef_env.c\<close>: iterating over
  sectors and nodes, finding a key, allocating space, writing and deleting a node, moving the live nodes
  of a dirty sector (garbage collection), and loading the store with the recovery of what a power loss
  interrupted. Keys and values are lists of bytes; \<open>bytes_of\<close> turns a string of the firmware into one.

  A callback that the C code passes with untyped arguments is a function that also takes and returns the
  value those arguments point to.
\<close>

definition bytes_of :: "string \<Rightarrow> uint8 list" where
  "bytes_of = map of_char"

section \<open>Iterators\<close>

definition get_next_sector_addr :: "sector_meta_data \<Rightarrow> nat" where
  "get_next_sector_addr pre_sec =
     (if sec_addr pre_sec = FAILED_ADDR then 0
      else
        let next_addr = (if combined pre_sec = SECTOR_NOT_COMBINED then sec_addr pre_sec + SECTOR_SIZE
                         else (sec_addr pre_sec + combined pre_sec * SECTOR_SIZE) mod 2 ^ 32)
        in if next_addr < ENV_AREA_SIZE then next_addr else FAILED_ADDR)"

partial_function (option) env_iterator_loop ::
  "ef_world \<Rightarrow> sector_meta_data \<Rightarrow> env_node_obj \<Rightarrow>
    (env_node_obj \<Rightarrow> 'x \<Rightarrow> easyflash \<Rightarrow> (bool \<times> 'x \<times> easyflash) option) \<Rightarrow>
    'x \<Rightarrow> easyflash \<Rightarrow> (env_node_obj \<times> 'x \<times> easyflash) option" where
  "env_iterator_loop w sector env cb x s =
     (let addr = get_next_sector_addr sector
      in if addr = FAILED_ADDR then Some (env, x, s)
         else do {
           (result, sector', s1) \<leftarrow> read_sector_meta_data w addr sector False s;
           if result \<noteq> EF_NO_ERR then env_iterator_loop w sector' env cb x s1
           else if sec_store sector' = SECTOR_STORE_USING \<or> sec_store sector' = SECTOR_STORE_FULL then do {
             (stop, env', x', s2) \<leftarrow> env_walk w sector' cb (env\<lparr>env_start := FAILED_ADDR\<rparr>) x s1;
             if stop then Some (env', x', s2) else env_iterator_loop w sector' env' cb x' s2 }
           else env_iterator_loop w sector' env cb x s1 })"

definition env_iterator ::
  "ef_world \<Rightarrow> env_node_obj \<Rightarrow> (env_node_obj \<Rightarrow> 'x \<Rightarrow> easyflash \<Rightarrow> (bool \<times> 'x \<times> easyflash) option) \<Rightarrow>
    'x \<Rightarrow> easyflash \<Rightarrow> (env_node_obj \<times> 'x \<times> easyflash) option" where
  "env_iterator w env = env_iterator_loop w ((sector_uninit w)\<lparr>sec_addr := FAILED_ADDR\<rparr>) env"

text \<open>\<open>SECTOR_STORE_UNUSED\<close> as the wanted status stands for any status.\<close>

partial_function (option) sector_loop ::
  "ef_world \<Rightarrow> nat \<Rightarrow> (sector_meta_data \<Rightarrow> 'x \<Rightarrow> easyflash \<Rightarrow> (bool \<times> 'x \<times> easyflash) option) \<Rightarrow> bool \<Rightarrow>
    sector_meta_data \<Rightarrow> 'x \<Rightarrow> easyflash \<Rightarrow> (sector_meta_data \<times> 'x \<times> easyflash) option" where
  "sector_loop w status cb traversal_env sector x s =
     (let addr = get_next_sector_addr sector
      in if addr = FAILED_ADDR then Some (sector, x, s)
         else do {
           (_, sector1, s1) \<leftarrow> read_sector_meta_data w addr sector False s;
           if status = SECTOR_STORE_UNUSED \<or> status = sec_store sector1 then do {
             (_, sector2, s2) \<leftarrow> (if traversal_env then read_sector_meta_data w addr sector1 True s1
                               else Some (EF_NO_ERR, sector1, s1));
             (stop, x', s3) \<leftarrow> cb sector2 x s2;
             if stop then Some (sector2, x', s3) else sector_loop w status cb traversal_env sector2 x' s3 }
           else sector_loop w status cb traversal_env sector1 x s1 })"

definition sector_iterator ::
  "ef_world \<Rightarrow> sector_meta_data \<Rightarrow> nat \<Rightarrow> (sector_meta_data \<Rightarrow> 'x \<Rightarrow> easyflash \<Rightarrow> (bool \<times> 'x \<times> easyflash) option) \<Rightarrow>
    bool \<Rightarrow> 'x \<Rightarrow> easyflash \<Rightarrow> (sector_meta_data \<times> 'x \<times> easyflash) option" where
  "sector_iterator w sector status cb traversal_env =
     sector_loop w status cb traversal_env (sector\<lparr>sec_addr := FAILED_ADDR\<rparr>)"

section \<open>Finding a key\<close>

definition find_env_cb :: "uint8 list \<Rightarrow> env_node_obj \<Rightarrow> bool \<Rightarrow> easyflash \<Rightarrow> (bool \<times> bool \<times> easyflash) option" where
  "find_env_cb key env find_ok s =
     (if length key \<noteq> env_name_len env then Some (False, find_ok, s)
      else if crc_is_ok env \<and> env_status env = ENV_WRITE \<and> take (length key) (env_name env) = key
      then Some (True, True, s)
      else Some (False, find_ok, s))"

definition find_env_no_cache ::
  "ef_world \<Rightarrow> uint8 list \<Rightarrow> env_node_obj \<Rightarrow> easyflash \<Rightarrow> (bool \<times> env_node_obj \<times> easyflash) option" where
  "find_env_no_cache w key env s =
     do { (env', find_ok, s1) \<leftarrow> env_iterator w env (find_env_cb key) False s; Some (find_ok, env', s1) }"

definition find_env ::
  "ef_world \<Rightarrow> uint8 list \<Rightarrow> env_node_obj \<Rightarrow> easyflash \<Rightarrow> (bool \<times> env_node_obj \<times> easyflash) option" where
  "find_env w key env s =
     (case get_env_from_cache key s of
        Some (addr, s1) \<Rightarrow> do { (_, env', s2) \<leftarrow> read_env w (env\<lparr>env_start := addr\<rparr>) s1; Some (True, env', s2) }
      | None \<Rightarrow> do {
          (find_ok, env', s1) \<leftarrow> find_env_no_cache w key env s;
          Some (find_ok, env', if find_ok then update_env_cache key (env_start env') s1 else s1) })"

text \<open>The bytes put into the buffer, and the value left in \<open>*value_len\<close>.\<close>

definition get_env ::
  "ef_world \<Rightarrow> uint8 list \<Rightarrow> nat \<Rightarrow> easyflash \<Rightarrow> (uint8 list \<times> nat \<times> easyflash) option" where
  "get_env w key buf_len s =
     do {
       (found, env, s1) \<leftarrow> find_env w key (env_uninit w) s;
       if found then
         let read_len = (if buf_len > env_value_len env then env_value_len env else buf_len)
         in Some (ef_port_read (env_value env) read_len s1, env_value_len env, s1)
       else Some ([], 0, s1) }"

definition ef_get_env_obj ::
  "ef_world \<Rightarrow> uint8 list \<Rightarrow> env_node_obj \<Rightarrow> easyflash \<Rightarrow> (bool \<times> env_node_obj \<times> easyflash) option" where
  "ef_get_env_obj w key env s = (if \<not> env_init_ok s then Some (False, env, s) else find_env w key env s)"

definition ef_get_env_bytes :: "ef_world \<Rightarrow> uint8 list \<Rightarrow> nat \<Rightarrow> easyflash \<Rightarrow> (uint8 list \<times> easyflash) option" where
  "ef_get_env_bytes w key buf_len s =
     (if \<not> env_init_ok s then Some ([], s)
      else do { (buf, _, s1) \<leftarrow> get_env w key buf_len s; Some (buf, s1) })"

definition ef_is_str :: "uint8 list \<Rightarrow> bool" where
  "ef_is_str value \<longleftrightarrow> (\<forall>ch \<in> set value. (ucast ch :: uint32) - 32 < 95)"

text \<open>\<open>ef_get_env\<close>, with \<open>EF_STR_ENV_VALUE_MAX_SIZE\<close> 128; \<open>None\<close> in the result is the null pointer.\<close>

definition ef_get_env :: "ef_world \<Rightarrow> uint8 list \<Rightarrow> easyflash \<Rightarrow> (uint8 list option \<times> easyflash) option" where
  "ef_get_env w key s =
     do { (value, s1) \<leftarrow> ef_get_env_bytes w key 128 s;
          Some (if value \<noteq> [] \<and> ef_is_str value then Some value else None, s1) }"

definition ef_read_env_value :: "env_node_obj \<Rightarrow> nat \<Rightarrow> easyflash \<Rightarrow> uint8 list" where
  "ef_read_env_value env buf_len s =
     (if \<not> env_init_ok s \<or> \<not> crc_is_ok env then []
      else ef_port_read (env_value env) (if buf_len > env_value_len env then env_value_len env else buf_len) s)"

section \<open>Sectors\<close>

definition sector_hdr_bytes :: "nat \<Rightarrow> uint8 list" where
  "sector_hdr_bytes combined_value =
     [fst (set_status SECTOR_STORE_STATUS_NUM SECTOR_STORE_EMPTY) ! 0,
      fst (set_status SECTOR_DIRTY_STATUS_NUM SECTOR_DIRTY_FALSE) ! 0, 0xFF, 0xFF] @
     le32_bytes SECTOR_MAGIC_WORD @ le32_bytes combined_value @ le32_bytes 0xFFFFFFFF"

definition format_sector :: "ef_world \<Rightarrow> nat \<Rightarrow> nat \<Rightarrow> easyflash \<Rightarrow> (EfErrCode \<times> easyflash) option" where
  "format_sector w addr combined_value s =
     (if addr mod SECTOR_SIZE \<noteq> 0 then None
      else do {
        (result, s1) \<leftarrow> ef_port_erase w addr SECTOR_SIZE s;
        Some (if result = EF_NO_ERR then
            let (result, s2) = ef_port_write w addr (sector_hdr_bytes combined_value) s1
            in (result, update_sector_cache addr (addr + SECTOR_SIZE) s2)
          else (result, s1)) })"

text \<open>The result, and what is left in \<open>*is_full\<close>, which the callers set to false before.\<close>

definition update_sec_status ::
  "ef_world \<Rightarrow> sector_meta_data \<Rightarrow> nat \<Rightarrow> easyflash \<Rightarrow> bool \<times> EfErrCode \<times> easyflash" where
  "update_sec_status w sector new_env_len s =
     (if sec_store sector = SECTOR_STORE_EMPTY then
        (False, write_status w (sec_addr sector) SECTOR_STORE_STATUS_NUM SECTOR_STORE_USING s)
      else if sec_store sector = SECTOR_STORE_USING then
        if remain sector < EF_SEC_REMAIN_THRESHOLD \<or> sub32 (remain sector) new_env_len < EF_SEC_REMAIN_THRESHOLD then
          let (result, s1) = write_status w (sec_addr sector) SECTOR_STORE_STATUS_NUM SECTOR_STORE_FULL s
          in (True, result, update_sector_cache (sec_addr sector) (sec_addr sector + SECTOR_SIZE) s1)
        else (False, EF_NO_ERR, s)
      else (False, EF_NO_ERR, s))"

section \<open>Allocation\<close>

definition sector_statistics_cb ::
  "sector_meta_data \<Rightarrow> nat \<times> nat \<Rightarrow> easyflash \<Rightarrow> (bool \<times> (nat \<times> nat) \<times> easyflash) option" where
  "sector_statistics_cb sector x s =
     (let (empty_sector, using_sector) = x
      in if check_ok sector \<and> sec_store sector = SECTOR_STORE_EMPTY then
           Some (False, (Suc empty_sector, using_sector), s)
         else if check_ok sector \<and> sec_store sector = SECTOR_STORE_USING then
           Some (False, (empty_sector, Suc using_sector), s)
         else Some (False, x, s))"

definition alloc_env_cb ::
  "nat \<Rightarrow> sector_meta_data \<Rightarrow> nat \<Rightarrow> easyflash \<Rightarrow> (bool \<times> nat \<times> easyflash) option" where
  "alloc_env_cb env_size sector addr s =
     (if check_ok sector \<and> remain sector > env_size \<and>
         (sec_dirty sector = SECTOR_DIRTY_FALSE \<or> sec_dirty sector = SECTOR_DIRTY_TRUE \<and> \<not> gc_request s)
      then Some (True, empty_env sector, s) else Some (False, addr, s))"

definition alloc_env ::
  "ef_world \<Rightarrow> sector_meta_data \<Rightarrow> nat \<Rightarrow> easyflash \<Rightarrow> (nat \<times> sector_meta_data \<times> easyflash) option" where
  "alloc_env w sector env_size s =
     do {
       (sector1, (empty_sector, using_sector), s1) \<leftarrow>
         sector_iterator w sector SECTOR_STORE_UNUSED sector_statistics_cb False (0, 0) s;
       (sector2, addr, s2) \<leftarrow>
         (if using_sector > 0 then
            sector_iterator w sector1 SECTOR_STORE_USING (alloc_env_cb env_size) True FAILED_ADDR s1
          else Some (sector1, FAILED_ADDR, s1));
       if empty_sector > 0 \<and> addr = FAILED_ADDR then
         if empty_sector > EF_GC_EMPTY_SEC_THRESHOLD \<or> gc_request s2 then do {
           (sector3, addr, s3) \<leftarrow>
             sector_iterator w sector2 SECTOR_STORE_EMPTY (alloc_env_cb env_size) True addr s2;
           Some (addr, sector3, s3) }
         else Some (addr, sector2, s2\<lparr>gc_request := True\<rparr>)
       else Some (addr, sector2, s2) }"

section \<open>Deleting and moving\<close>

text \<open>The part of \<open>del_env\<close> after the node is found. A \<open>key\<close> of \<open>None\<close> is the null pointer.\<close>

definition mark_deleted ::
  "ef_world \<Rightarrow> uint8 list option \<Rightarrow> env_node_obj \<Rightarrow> bool \<Rightarrow> easyflash \<Rightarrow> EfErrCode \<times> easyflash" where
  "mark_deleted w key old_env complete_del s =
     (let (result, s1) =
        (if \<not> complete_del then
           let (r, s1) = write_status w (env_start old_env) ENV_STATUS_NUM ENV_PRE_DELETE s
           in (r, s1\<lparr>last_is_complete_del := True\<rparr>)
         else
           let (r, s1) = write_status w (env_start old_env) ENV_STATUS_NUM ENV_DELETED s;
               s2 = (if \<not> last_is_complete_del s1 \<and> r = EF_NO_ERR
                     then update_env_cache (case key of Some k \<Rightarrow> k | None \<Rightarrow> env_name old_env) FAILED_ADDR s1
                     else s1)
           in (r, s2\<lparr>last_is_complete_del := False\<rparr>));
          dirty_status_addr = sector_of (env_start old_env) + SECTOR_DIRTY_OFFSET
      in if result = EF_NO_ERR \<and> read_status dirty_status_addr SECTOR_DIRTY_STATUS_NUM s1 = SECTOR_DIRTY_FALSE
         then write_status w dirty_status_addr SECTOR_DIRTY_STATUS_NUM SECTOR_DIRTY_TRUE s1
         else (result, s1))"

definition del_env ::
  "ef_world \<Rightarrow> uint8 list \<Rightarrow> easyflash \<Rightarrow> (EfErrCode \<times> easyflash) option" where
  "del_env w key s =
     do { (found, env, s1) \<leftarrow> find_env w key (env_uninit w) s;
          Some (if found then mark_deleted w (Some key) env True s1 else (EF_ENV_NAME_ERR, s1)) }"

text \<open>The copy loop of \<open>move_env\<close>, in buffers of 32 bytes; its result is the one of the last write.\<close>

function copy_loop ::
  "ef_world \<Rightarrow> nat \<Rightarrow> nat \<Rightarrow> nat \<Rightarrow> EfErrCode \<Rightarrow> 'a nor_flash_scheme \<Rightarrow> EfErrCode \<times> 'a nor_flash_scheme" where
  "copy_loop w source dest n result s =
     (if n = 0 then (result, s)
      else let size' = (if 32 < n then 32 else n);
               (r, s1) = ef_port_write w dest (ef_port_read source size' s) s
           in copy_loop w (source + size') (dest + size') (n - size') r s1)"
  by pat_completeness auto
termination by (relation "measure (\<lambda>(_, _, _, n, _, _). n)") auto

declare copy_loop.simps [simp del]

definition copy_env ::
  "ef_world \<Rightarrow> env_node_obj \<Rightarrow> sector_meta_data \<Rightarrow> nat \<Rightarrow> easyflash \<Rightarrow> EfErrCode \<times> easyflash" where
  "copy_env w env sector env_addr s =
     (let (_, _, s1) = update_sec_status w sector (env_len env) s;
          (_, s2) = write_status w env_addr ENV_STATUS_NUM ENV_PRE_WRITE s1;
          (result, s3) = copy_loop w (env_start env + ENV_MAGIC_OFFSET) (env_addr + ENV_MAGIC_OFFSET)
             (env_len env - ENV_MAGIC_OFFSET) EF_NO_ERR s2;
          (_, s4) = write_status w env_addr ENV_STATUS_NUM ENV_WRITE s3;
          s5 = update_sector_cache (sector_of env_addr)
             (env_addr + ENV_HDR_DATA_SIZE + env_name_len env + env_value_len env) s4
      in (result, update_env_cache (env_name env) env_addr s5))"

definition move_env :: "ef_world \<Rightarrow> env_node_obj \<Rightarrow> easyflash \<Rightarrow> (EfErrCode \<times> easyflash) option" where
  "move_env w env s =
     do {
       let s1 = (if env_status env = ENV_WRITE then snd (mark_deleted w None env False s) else s);
       (env_addr, sector, s2) \<leftarrow> alloc_env w (sector_uninit w) (env_len env) s1;
       if env_addr = FAILED_ADDR then Some (EF_ENV_FULL, s2)
       else do {
         (found, _, s3) \<leftarrow>
           (if in_recovery_check s2
            then find_env_no_cache w (takeWhile (\<lambda>ch. ch \<noteq> 0) (env_name env)) (env_uninit w) s2
            else Some (False, env_uninit w, s2));
         let (result, s4) = (if found then (EF_NO_ERR, s3) else copy_env w env sector env_addr s3);
         Some (result, snd (mark_deleted w None env True s4)) } }"

section \<open>Garbage collection\<close>

definition gc_check_cb :: "sector_meta_data \<Rightarrow> nat \<Rightarrow> easyflash \<Rightarrow> (bool \<times> nat \<times> easyflash) option" where
  "gc_check_cb sector empty_sec s = Some (False, if check_ok sector then Suc empty_sec else empty_sec, s)"

text \<open>The body of the loop of \<open>do_gc\<close>.\<close>

definition gc_node :: "ef_world \<Rightarrow> env_node_obj \<Rightarrow> unit \<Rightarrow> easyflash \<Rightarrow> (bool \<times> unit \<times> easyflash) option" where
  "gc_node w env x s =
     (if crc_is_ok env \<and> (env_status env = ENV_WRITE \<or> env_status env = ENV_PRE_DELETE)
      then do { (_, s1) \<leftarrow> move_env w env s; Some (False, (), s1) } else Some (False, (), s))"

definition do_gc :: "ef_world \<Rightarrow> sector_meta_data \<Rightarrow> unit \<Rightarrow> easyflash \<Rightarrow> (bool \<times> unit \<times> easyflash) option" where
  "do_gc w sector x s =
     (if check_ok sector \<and> (sec_dirty sector = SECTOR_DIRTY_TRUE \<or> sec_dirty sector = SECTOR_DIRTY_GC) then do {
        let (_, s1) = write_status w (sec_addr sector + SECTOR_DIRTY_OFFSET) SECTOR_DIRTY_STATUS_NUM SECTOR_DIRTY_GC s;
        (_, _, _, s2) \<leftarrow> env_walk w sector (gc_node w) ((env_uninit w)\<lparr>env_start := FAILED_ADDR\<rparr>) () s1;
        (_, s3) \<leftarrow> format_sector w (sec_addr sector) SECTOR_NOT_COMBINED s2;
        Some (False, (), s3) }
      else Some (False, (), s))"

definition gc_collect :: "ef_world \<Rightarrow> easyflash \<Rightarrow> easyflash option" where
  "gc_collect w s =
     do {
       (sector, empty_sec, s1) \<leftarrow> sector_iterator w (sector_uninit w) SECTOR_STORE_EMPTY gc_check_cb False 0 s;
       s3 \<leftarrow> (if empty_sec \<le> EF_GC_EMPTY_SEC_THRESHOLD
              then do { (_, _, s2) \<leftarrow> sector_iterator w sector SECTOR_STORE_UNUSED (do_gc w) False () s1; Some s2 }
              else Some s1);
       Some (s3\<lparr>gc_request := False\<rparr>) }"

section \<open>Writing\<close>

text \<open>The retry of \<open>new_env\<close>: once, after a collection.\<close>

definition new_env ::
  "ef_world \<Rightarrow> sector_meta_data \<Rightarrow> nat \<Rightarrow> easyflash \<Rightarrow> (nat \<times> sector_meta_data \<times> easyflash) option" where
  "new_env w sector env_size s =
     do {
       (empty_env, sector1, s1) \<leftarrow> alloc_env w sector env_size s;
       if empty_env = FAILED_ADDR \<and> gc_request s1 then do {
         s2 \<leftarrow> gc_collect w s1;
         alloc_env w sector1 env_size s2 }
       else Some (empty_env, sector1, s1) }"

definition new_env_by_kv ::
  "ef_world \<Rightarrow> sector_meta_data \<Rightarrow> nat \<Rightarrow> nat \<Rightarrow> easyflash \<Rightarrow> (nat \<times> sector_meta_data \<times> easyflash) option" where
  "new_env_by_kv w sector key_len buf_len = new_env w sector (ENV_HDR_DATA_SIZE + key_len + buf_len)"

text \<open>The header as it lies in memory; its unused bytes are set to ones before the members are filled in.\<close>

definition env_hdr_bytes :: "env_hdr_data \<Rightarrow> uint8 list" where
  "env_hdr_bytes h =
     [hdr_status h, 0xFF, 0xFF, 0xFF] @ le32_bytes (hdr_magic h) @ le32_bytes (hdr_len h) @
     le32_bytes (unat (hdr_crc32 h)) @ [of_nat (hdr_name_len h), 0xFF, 0xFF, 0xFF] @ le32_bytes (hdr_value_len h)"

definition new_env_hdr :: "uint8 list \<Rightarrow> uint8 list \<Rightarrow> env_hdr_data" where
  "new_env_hdr key value =
     (let h = \<lparr>hdr_status = 0xFF, hdr_magic = ENV_MAGIC_WORD,
                hdr_len = ENV_HDR_DATA_SIZE + length key + length value, hdr_crc32 = 0xFFFFFFFF,
                hdr_name_len = length key, hdr_value_len = length value\<rparr>
      in h\<lparr>hdr_crc32 := ef_calc_crc32 (ef_calc_crc32 (ef_calc_crc32 0 (drop ENV_NAME_LEN_OFFSET (env_hdr_bytes h))) key) value\<rparr>)"

definition write_env_hdr ::
  "'w flash_chip_scheme \<Rightarrow> nat \<Rightarrow> env_hdr_data \<Rightarrow> 'a nor_flash_scheme \<Rightarrow> EfErrCode \<times> 'a nor_flash_scheme" where
  "write_env_hdr w addr env_hdr s =
     ok_then (write_status w addr ENV_STATUS_NUM ENV_PRE_WRITE s)
       (ef_port_write w (addr + ENV_MAGIC_OFFSET) (drop ENV_MAGIC_OFFSET (env_hdr_bytes env_hdr)))"

definition align_write ::
  "'w flash_chip_scheme \<Rightarrow> nat \<Rightarrow> uint8 list \<Rightarrow> 'a nor_flash_scheme \<Rightarrow> EfErrCode \<times> 'a nor_flash_scheme" where
  "align_write w addr buf s = (if length buf > 0 then ef_port_write w addr buf s else (EF_NO_ERR, s))"

text \<open>The part of \<open>create_env_blob\<close> that writes the node, when its address is known.\<close>

definition write_node ::
  "ef_world \<Rightarrow> sector_meta_data \<Rightarrow> nat \<Rightarrow> uint8 list \<Rightarrow> uint8 list \<Rightarrow> easyflash \<Rightarrow> EfErrCode \<times> easyflash" where
  "write_node w sector env_addr key value s =
     (let env_hdr = new_env_hdr key value;
          (is_full, r0) = update_sec_status w sector (hdr_len env_hdr) s;
          name_addr = env_addr + ENV_HDR_DATA_SIZE;
          r1 = ok_then r0 (write_env_hdr w env_addr env_hdr);
          r2 = ok_then r1 (\<lambda>s.
            let (result, s1) = align_write w name_addr key s;
                s2 = (if is_full then s1
                      else update_sector_cache (sec_addr sector) (name_addr + length key + length value) s1)
            in (result, update_env_cache key env_addr s2));
          r3 = ok_then r2 (align_write w (name_addr + length key) value);
          r4 = ok_then r3 (write_status w env_addr ENV_STATUS_NUM ENV_WRITE)
      in ok_then r4 (\<lambda>s. (EF_NO_ERR, if is_full then s\<lparr>gc_request := True\<rparr> else s)))"

definition create_env_blob ::
  "ef_world \<Rightarrow> sector_meta_data \<Rightarrow> uint8 list \<Rightarrow> uint8 list \<Rightarrow> easyflash \<Rightarrow>
    (EfErrCode \<times> sector_meta_data \<times> easyflash) option" where
  "create_env_blob w sector key value s =
     (if length key > EF_ENV_NAME_MAX then Some (EF_ENV_NAME_ERR, sector, s)
      else if hdr_len (new_env_hdr key value) > SECTOR_SIZE - SECTOR_HDR_DATA_SIZE then Some (EF_ENV_FULL, sector, s)
      else do {
        (env_addr, sector1, s1) \<leftarrow>
          (if empty_env sector \<noteq> FAILED_ADDR then Some (empty_env sector, sector, s)
           else new_env w sector (hdr_len (new_env_hdr key value)) s);
        if env_addr \<noteq> FAILED_ADDR then
          let (result, s2) = write_node w sector1 env_addr key value s1 in Some (result, sector1, s2)
        else Some (EF_ENV_FULL, sector1, s1) })"

text \<open>\<open>set_env\<close> with a value; with the null pointer for the value it is \<open>del_env\<close>.\<close>

definition set_env :: "ef_world \<Rightarrow> uint8 list \<Rightarrow> uint8 list \<Rightarrow> easyflash \<Rightarrow> (EfErrCode \<times> easyflash) option" where
  "set_env w key value s =
     do {
       (addr, sector, s1) \<leftarrow> new_env_by_kv w (set_env_sector s) (length key) (length value) s;
       if addr = FAILED_ADDR then Some (EF_ENV_FULL, s1\<lparr>set_env_sector := sector\<rparr>)
       else do {
         (env_is_found, env, s2) \<leftarrow> find_env w key (set_env_env s1) s1;
         let (r1, s3) = (if env_is_found then mark_deleted w (Some key) env False s2 else (EF_NO_ERR, s2));
         (r2, sector', s4) \<leftarrow> (if r1 = EF_NO_ERR then create_env_blob w sector key value s3
                            else Some (r1, sector, s3));
         let (r3, s5) = (if env_is_found \<and> r2 = EF_NO_ERR then mark_deleted w (Some key) env True s4 else (r2, s4));
         s6 \<leftarrow> (if gc_request s5 then gc_collect w s5 else Some s5);
         Some (r3, s6\<lparr>set_env_env := env, set_env_sector := sector'\<rparr>) } }"

definition ef_set_env_blob ::
  "ef_world \<Rightarrow> uint8 list \<Rightarrow> uint8 list option \<Rightarrow> easyflash \<Rightarrow> (EfErrCode \<times> easyflash) option" where
  "ef_set_env_blob w key value_buf s =
     (if \<not> env_init_ok s then Some (EF_ENV_INIT_FAILED, s)
      else case value_buf of Some value \<Rightarrow> set_env w key value s | None \<Rightarrow> del_env w key s)"

definition ef_del_env :: "ef_world \<Rightarrow> uint8 list \<Rightarrow> easyflash \<Rightarrow> (EfErrCode \<times> easyflash) option" where
  "ef_del_env w key s = (if \<not> env_init_ok s then Some (EF_ENV_INIT_FAILED, s) else del_env w key s)"

section \<open>Loading the store\<close>

primrec format_all :: "ef_world \<Rightarrow> nat list \<Rightarrow> easyflash \<Rightarrow> (EfErrCode \<times> easyflash) option" where
  "format_all w [] s = Some (EF_NO_ERR, s)"
| "format_all w (addr # addrs) s =
     do { (result, s1) \<leftarrow> format_sector w addr SECTOR_NOT_COMBINED s;
          if result \<noteq> EF_NO_ERR then Some (result, s1) else format_all w addrs s1 }"

text \<open>The loop over the default set ignores the results of \<open>create_env_blob\<close>.\<close>

primrec create_all ::
  "ef_world \<Rightarrow> (string \<times> string) list \<Rightarrow> sector_meta_data \<Rightarrow> easyflash \<Rightarrow> easyflash option" where
  "create_all w [] sector s = Some s"
| "create_all w (e # es) sector s =
     do { (_, sector1, s1) \<leftarrow> create_env_blob w (sector\<lparr>empty_env := FAILED_ADDR\<rparr>) (bytes_of (fst e)) (bytes_of (snd e)) s;
          create_all w es sector1 s1 }"

definition ef_set_default :: "ef_world \<Rightarrow> easyflash \<Rightarrow> (EfErrCode \<times> easyflash) option" where
  "ef_set_default w s =
     do { (result, s1) \<leftarrow> format_all w [0, SECTOR_SIZE, 2 * SECTOR_SIZE, 3 * SECTOR_SIZE] s;
          if result \<noteq> EF_NO_ERR then Some (result, s1)
          else do { s2 \<leftarrow> create_all w default_env_set (sector_uninit w) s1; Some (EF_NO_ERR, s2) } }"

definition check_sec_hdr_cb ::
  "ef_world \<Rightarrow> sector_meta_data \<Rightarrow> nat \<Rightarrow> easyflash \<Rightarrow> (bool \<times> nat \<times> easyflash) option" where
  "check_sec_hdr_cb w sector failed_count s =
     (if \<not> check_ok sector
      then do { (_, s1) \<leftarrow> format_sector w (sec_addr sector) SECTOR_NOT_COMBINED s; Some (False, Suc failed_count, s1) }
      else Some (False, failed_count, s))"

definition check_and_recovery_gc_cb ::
  "ef_world \<Rightarrow> sector_meta_data \<Rightarrow> unit \<Rightarrow> easyflash \<Rightarrow> (bool \<times> unit \<times> easyflash) option" where
  "check_and_recovery_gc_cb w sector x s =
     (if check_ok sector \<and> sec_dirty sector = SECTOR_DIRTY_GC
      then do { s1 \<leftarrow> gc_collect w (s\<lparr>gc_request := True\<rparr>); Some (False, (), s1) }
      else Some (False, (), s))"

definition check_and_recovery_env_cb ::
  "ef_world \<Rightarrow> env_node_obj \<Rightarrow> unit \<Rightarrow> easyflash \<Rightarrow> (bool \<times> unit \<times> easyflash) option" where
  "check_and_recovery_env_cb w env x s =
     (if crc_is_ok env \<and> env_status env = ENV_PRE_DELETE
      then do { (result, s1) \<leftarrow> move_env w env s; Some (result \<noteq> EF_NO_ERR, (), s1) }
      else if env_status env = ENV_PRE_WRITE
      then Some (True, (), snd (write_status w (env_start env) ENV_STATUS_NUM ENV_ERR_HDR s))
      else Some (False, (), s))"

text \<open>From the label \<open>__retry\<close> on.\<close>

partial_function (option) recovery_loop :: "ef_world \<Rightarrow> env_node_obj \<Rightarrow> easyflash \<Rightarrow> easyflash option" where
  "recovery_loop w env s =
     do { (env', _, s1) \<leftarrow> env_iterator w env (check_and_recovery_env_cb w) () s;
          if gc_request s1 then do { s2 \<leftarrow> gc_collect w s1; recovery_loop w env' s2 } else Some s1 }"

definition ef_load_env :: "ef_world \<Rightarrow> easyflash \<Rightarrow> (EfErrCode \<times> easyflash) option" where
  "ef_load_env w s =
     do {
       (sector, check_failed_count, s1) \<leftarrow>
         sector_iterator w (sector_uninit w) SECTOR_STORE_UNUSED (check_sec_hdr_cb w) False 0
           (s\<lparr>in_recovery_check := True\<rparr>);
       s2 \<leftarrow> (if check_failed_count = ENV_AREA_SIZE div SECTOR_SIZE then map_option snd (ef_set_default w s1) else Some s1);
       (_, _, s3) \<leftarrow> sector_iterator w sector SECTOR_STORE_UNUSED (check_and_recovery_gc_cb w) False () s2;
       s4 \<leftarrow> recovery_loop w (env_uninit w) s3;
       Some (EF_NO_ERR, s4\<lparr>in_recovery_check := False\<rparr>) }"

definition ef_env_init :: "ef_world \<Rightarrow> easyflash \<Rightarrow> (EfErrCode \<times> easyflash) option" where
  "ef_env_init w s =
     (if env_init_ok s then Some (EF_NO_ERR, s)
      else do {
        (result, s1) \<leftarrow> ef_load_env w (s\<lparr>sector_cache_table := map (sc_addr_update (\<lambda>_. FAILED_ADDR)) (sector_cache_table s),
          env_cache_table := map (cache_addr_update (\<lambda>_. FAILED_ADDR)) (env_cache_table s)\<rparr>);
        Some (result, if result = EF_NO_ERR then s1\<lparr>env_init_ok := True\<rparr> else s1) })"

end
