(* ===== verification/EnvNodes.thy ===== *)
theory EnvNodes
  imports EnvOps
begin

text \<open>
  One node of the key/value store: what a complete node looks like in flash, that \<open>read_env\<close> reads it
  back, and what \<open>write_node\<close> leaves behind when the chip fails or loses its supply anywhere in between:
  either a node that no reader takes for a value, or the complete one.
\<close>

section \<open>Status bytes\<close>

lemma and_bit_zero:
  "x AND 128 = 0 \<longleftrightarrow> \<not> bit x 7" "x AND 64 = 0 \<longleftrightarrow> \<not> bit x 6" "x AND 32 = 0 \<longleftrightarrow> \<not> bit x 5"
  "x AND 16 = 0 \<longleftrightarrow> \<not> bit x 4" "x AND 8 = 0 \<longleftrightarrow> \<not> bit x 3" for x :: uint8
  using bit_iff_and_push_bit_not_eq_0 [of x 7] bit_iff_and_push_bit_not_eq_0 [of x 6]
    bit_iff_and_push_bit_not_eq_0 [of x 5] bit_iff_and_push_bit_not_eq_0 [of x 4]
    bit_iff_and_push_bit_not_eq_0 [of x 3]
  by simp_all

lemma status_bits: "drop_bit 0 (128 :: uint8) = 128" "drop_bit (Suc 0) (128 :: uint8) = 64"
  "drop_bit (Suc (Suc 0)) (128 :: uint8) = 32" "drop_bit (Suc (Suc (Suc 0))) (128 :: uint8) = 16"
  "drop_bit (Suc (Suc (Suc (Suc 0)))) (128 :: uint8) = 8"
  by code_simp+

lemma get_status_env: "get_status [x] ENV_STATUS_NUM =
    (if \<not> bit x 3 then 5 else if \<not> bit x 4 then 4 else if \<not> bit x 5 then 3
     else if \<not> bit x 6 then 2 else if \<not> bit x 7 then 1 else 0)"
proof -
  have "(6 :: nat) - 1 = Suc (Suc (Suc (Suc (Suc 0))))" by simp
  then show ?thesis by (simp only: get_status_def) (simp add: status_bits and_bit_zero)
qed

lemma get_status_sector: "get_status [x] 4 =
    (if \<not> bit x 5 then 3 else if \<not> bit x 6 then 2 else if \<not> bit x 7 then 1 else 0)"
proof -
  have "(4 :: nat) - 1 = Suc (Suc (Suc 0))" by simp
  then show ?thesis by (simp only: get_status_def) (simp add: status_bits and_bit_zero)
qed

text \<open>The byte that is programmed for a stage clears one bit.\<close>

definition stage_byte :: "nat \<Rightarrow> uint8" where
  "stage_byte st = NOT (push_bit (8 - st) 1)"

lemma bit_stage_byte: "bit (stage_byte st) i \<longleftrightarrow> i < 8 \<and> i \<noteq> 8 - st"
  by (auto simp: stage_byte_def bit_simps)

lemma write_status_stage:
  assumes "0 < st" "st \<le> 8" "st \<le> n" "n \<le> 8"
  shows "write_status w addr n st s = ef_port_write w addr [stage_byte st] s"
proof -
  have "n + 7 = 8 + (n - 1)" "(n - 1) div 8 = 0" "(st - 1) div 8 = 0" "(st - 1) mod 8 = st - 1" using assms by simp_all
  then have "STATUS_TABLE_SIZE n = 1" by (simp add: STATUS_TABLE_SIZE_def)
  moreover have "0xFF AND NOT (drop_bit (st - 1) 0x80) = stage_byte st"
  proof -
    have "st \<in> {1, 2, 3, 4, 5, 6, 7, 8}" using assms by auto
    then have "drop_bit (st - 1) (0x80 :: uint8) = push_bit (8 - st) 1" by (elim insertE) simp_all
    then show ?thesis by (simp add: stage_byte_def ones8)
  qed
  ultimately show ?thesis
    using assms \<open>(st - 1) div 8 = 0\<close> \<open>(st - 1) mod 8 = st - 1\<close> by (simp add: write_status_def set_status_def)
qed

lemmas write_status_simps =
  write_status_stage [of 1 6, simplified] write_status_stage [of 2 6, simplified]
  write_status_stage [of 3 6, simplified] write_status_stage [of 4 6, simplified]
  write_status_stage [of 5 6, simplified] write_status_stage [of 1 4, simplified]
  write_status_stage [of 2 4, simplified] write_status_stage [of 3 4, simplified]

lemma write_status_pre_write: "write_status w a 6 1 s = ef_port_write w a [stage_byte 1] s"
  by (rule write_status_stage) simp_all

section \<open>One operation of the chip\<close>

lemma ef_port_write_result:
  "\<exists>m. ef_port_write w a bs s = (if prog_fault w (chip_ops s) = None then EF_NO_ERR else EF_WRITE_ERR,
      s\<lparr>flash := program m a bs (flash s), chip_ops := Suc (chip_ops s)\<rparr>) \<and>
    (prog_fault w (chip_ops s) = None \<longrightarrow> m = (\<lambda>_. 0))"
  by (auto simp: ef_port_write_def split: option.split)

lemma ef_port_write_ok:
  "ef_port_write w a bs s = (EF_NO_ERR, s') \<Longrightarrow>
    s' = s\<lparr>flash := program (\<lambda>_. 0) a bs (flash s), chip_ops := Suc (chip_ops s)\<rparr>"
  by (auto simp: ef_port_write_def split: option.splits)

lemma ef_port_write_any:
  "ef_port_write w a bs s = (r, s') \<Longrightarrow>
    \<exists>m. s' = s\<lparr>flash := program m a bs (flash s), chip_ops := Suc (chip_ops s)\<rparr>"
  by (auto simp: ef_port_write_def split: option.splits)

lemma ef_port_write_good [simp]:
  "good_chip w \<Longrightarrow> ef_port_write w a bs s =
    (EF_NO_ERR, s\<lparr>flash := program (\<lambda>_. 0) a bs (flash s), chip_ops := Suc (chip_ops s)\<rparr>)"
  by (simp add: ef_port_write_def good_chip_def)

section \<open>Complete nodes\<close>

text \<open>\<open>bytes_at f a bs\<close>: the bytes \<open>bs\<close> lie at \<open>a\<close>.\<close>

definition bytes_at :: "(nat \<Rightarrow> uint8) \<Rightarrow> nat \<Rightarrow> uint8 list \<Rightarrow> bool" where
  "bytes_at f a bs \<longleftrightarrow> map f [a..<a + length bs] = bs"

lemma bytes_at_nth: "bytes_at f a bs \<longleftrightarrow> (\<forall>i < length bs. f (a + i) = bs ! i)"
  unfolding bytes_at_def by (subst list_eq_iff_nth_eq) simp

lemma bytes_at_append: "bytes_at f a (xs @ ys) \<longleftrightarrow> bytes_at f a xs \<and> bytes_at f (a + length xs) ys"
proof -
  have "map f [a..<a + length (xs @ ys)] = map f [a..<a + length xs] @ map f [a + length xs..<a + length xs + length ys]"
    by (simp only: length_append add.assoc [symmetric] upt_add_eq_append [OF le_add1] map_append)
  then show ?thesis by (simp add: bytes_at_def)
qed

lemma bytes_at_cong: "(\<And>x. a \<le> x \<Longrightarrow> x < a + length bs \<Longrightarrow> f x = g x) \<Longrightarrow> bytes_at f a bs \<longleftrightarrow> bytes_at g a bs"
  by (simp add: bytes_at_nth)

lemma bytes_at_read: "bytes_at (flash s) a bs \<longleftrightarrow> ef_port_read a (length bs) s = bs"
  by (simp add: bytes_at_def ef_port_read_def)

lemma bytes_at_take: "bytes_at f a bs \<Longrightarrow> bytes_at f a (take n bs)"
  by (simp add: bytes_at_nth)

lemma bytes_at_drop: "bytes_at f a bs \<Longrightarrow> bytes_at f (a + n) (drop n bs)"
  by (auto simp: bytes_at_nth add.assoc)

definition erased :: "(nat \<Rightarrow> uint8) \<Rightarrow> nat \<Rightarrow> nat \<Rightarrow> bool" where
  "erased f a b \<longleftrightarrow> (\<forall>x. a \<le> x \<and> x < b \<longrightarrow> f x = 0xFF)"

lemma erased_sub: "erased f a b \<Longrightarrow> a \<le> a' \<Longrightarrow> b' \<le> b \<Longrightarrow> erased f a' b'"
  by (simp add: erased_def)

lemma program_bytes_at: "erased f a (a + length bs) \<Longrightarrow> bytes_at (program (\<lambda>_. 0) a bs f) a bs"
  by (simp add: bytes_at_nth program_erased erased_def)

text \<open>A node without its status: the header from the magic word on, the name and the value.\<close>

definition node_bytes :: "uint8 list \<Rightarrow> uint8 list \<Rightarrow> uint8 list" where
  "node_bytes key value = drop ENV_MAGIC_OFFSET (env_hdr_bytes (new_env_hdr key value)) @ key @ value"

definition env_size_of :: "uint8 list \<Rightarrow> uint8 list \<Rightarrow> nat" where
  "env_size_of key value = ENV_HDR_DATA_SIZE + length key + length value"

definition env_fits :: "uint8 list \<Rightarrow> uint8 list \<Rightarrow> bool" where
  "env_fits key value \<longleftrightarrow> length key \<le> EF_ENV_NAME_MAX \<and> env_size_of key value \<le> SECTOR_SIZE - SECTOR_HDR_DATA_SIZE"

definition node_at :: "(nat \<Rightarrow> uint8) \<Rightarrow> nat \<Rightarrow> nat \<Rightarrow> uint8 list \<Rightarrow> uint8 list \<Rightarrow> bool" where
  "node_at f a st key value \<longleftrightarrow>
     get_status [f a] ENV_STATUS_NUM = st \<and> bytes_at f (a + ENV_MAGIC_OFFSET) (node_bytes key value) \<and> env_fits key value"

lemma length_env_hdr_bytes [simp]: "length (env_hdr_bytes h) = 24"
  by (simp add: env_hdr_bytes_def)

lemma length_node_bytes: "length (node_bytes key value) = 20 + length key + length value"
  by (simp add: node_bytes_def)

lemma node_at_cong:
  assumes "\<And>x. a \<le> x \<Longrightarrow> x < a + env_size_of key value \<Longrightarrow> f x = g x"
  shows "node_at f a st key value \<longleftrightarrow> node_at g a st key value"
proof -
  have "f a = g a" using assms [of a] by (simp add: env_size_of_def)
  moreover have "bytes_at f (a + 4) (node_bytes key value) \<longleftrightarrow> bytes_at g (a + 4) (node_bytes key value)"
    by (rule bytes_at_cong) (use assms in \<open>auto simp: length_node_bytes env_size_of_def\<close>)
  ultimately show ?thesis by (simp add: node_at_def)
qed

lemma crc_loop_read: "crc_loop a n c s = ef_calc_crc32 c (ef_port_read a n s)"
proof (induction a n c s rule: crc_loop.induct)
  case (1 a n c s)
  show ?case
  proof (cases "n = 0")
    case False
    define k where "k = (if 32 < n then 32 else n)"
    have "ef_port_read a n s = ef_port_read a k s @ ef_port_read (a + k) (n - k) s"
      using ef_port_read_add [of a k "n - k" s] by (simp add: k_def)
    moreover have "crc_loop a n c s = crc_loop (a + k) (n - k) (ef_calc_crc32 c (ef_port_read a k s)) s"
      using False by (subst crc_loop.simps) (simp add: k_def Let_def)
    moreover have "crc_loop (a + k) (n - k) (ef_calc_crc32 c (ef_port_read a k s)) s =
        ef_calc_crc32 (ef_calc_crc32 c (ef_port_read a k s)) (ef_port_read (a + k) (n - k) s)"
      using 1 [OF False refl] by (simp only: k_def)
    ultimately show ?thesis by (simp only: ef_calc_crc32_append)
  qed (simp add: crc_loop.simps)
qed

lemma drop_16_hdr: "drop 16 (env_hdr_bytes h) = [of_nat (hdr_name_len h), 0xFF, 0xFF, 0xFF] @ le32_bytes (hdr_value_len h)"
  by (simp add: env_hdr_bytes_def le32_bytes_def)

lemma new_env_hdr_sel [simp]:
  "hdr_magic (new_env_hdr key value) = ENV_MAGIC_WORD" "hdr_len (new_env_hdr key value) = env_size_of key value"
  "hdr_name_len (new_env_hdr key value) = length key" "hdr_value_len (new_env_hdr key value) = length value"
  by (simp_all add: new_env_hdr_def Let_def env_size_of_def)

text \<open>The checksum covers the node from the name length on.\<close>

lemma new_env_hdr_crc:
  "hdr_crc32 (new_env_hdr key value) = ef_calc_crc32 0 (drop 12 (node_bytes key value))"
proof -
  have b: "drop 12 (node_bytes key value) = drop 16 (env_hdr_bytes (new_env_hdr key value)) @ key @ value"
    by (simp add: node_bytes_def)
  show ?thesis
    unfolding b ef_calc_crc32_append by (simp add: new_env_hdr_def Let_def drop_16_hdr)
qed

lemma hdr_fields:
  assumes "ef_port_read (a + 4) 20 s = drop 4 (env_hdr_bytes h)" "hdr_magic h < 2 ^ 32" "hdr_len h < 2 ^ 32"
    "hdr_name_len h < 256" "hdr_value_len h < 2 ^ 32"
  shows "env_hdr_of (ef_port_read a 24 s) = h\<lparr>hdr_status := flash s a\<rparr>"
proof -
  have f: "ef_port_read (a + (4 + i)) n s = take n (drop i (drop 4 (env_hdr_bytes h)))" if "i + n \<le> 20" for i n
    using that by (simp add: assms(1) [symmetric] add.assoc)
  have "[flash s (a + 16)] = ef_port_read (a + 16) 1 s" by (rule nth_equalityI) simp_all
  also have "\<dots> = [of_nat (hdr_name_len h)]" using f [of 12 1] by (simp add: env_hdr_bytes_def le32_bytes_def)
  finally have "flash s (a + 16) = of_nat (hdr_name_len h)" by simp
  then have "unat (flash s (a + 16)) = hdr_name_len h" using assms(4) by (simp add: unat_of_nat)
  moreover have "ef_port_read (a + 4) 4 s = le32_bytes (hdr_magic h)" "ef_port_read (a + 8) 4 s = le32_bytes (hdr_len h)"
    "ef_port_read (a + 12) 4 s = le32_bytes (unat (hdr_crc32 h))" "ef_port_read (a + 20) 4 s = le32_bytes (hdr_value_len h)"
    using f [of 0 4] f [of 4 4] f [of 8 4] f [of 16 4] by (simp_all add: env_hdr_bytes_def le32_bytes_def)
  moreover have "unat (hdr_crc32 h) < 2 ^ 32" using unsigned_less [of "hdr_crc32 h"] by simp
  ultimately show ?thesis
    using assms(2-5) by (intro env_hdr_data.equality) (simp_all add: env_hdr_of_def le32_le32_bytes)
qed

lemma node_at_hdr:
  assumes "node_at (flash s) a st key value"
  shows "env_hdr_of (ef_port_read a 24 s) = (new_env_hdr key value)\<lparr>hdr_status := flash s a\<rparr>"
proof (rule hdr_fields)
  have "bytes_at (flash s) (a + 4) (take 20 (node_bytes key value))"
    using assms by (auto simp: node_at_def intro: bytes_at_take)
  then show "ef_port_read (a + 4) 20 s = drop 4 (env_hdr_bytes (new_env_hdr key value))"
    by (simp add: bytes_at_read node_bytes_def)
qed (use assms in \<open>simp_all add: node_at_def env_fits_def env_size_of_def EF_ENV_NAME_MAX_def SECTOR_SIZE_def\<close>)

definition env_of :: "env_node_obj \<Rightarrow> nat \<Rightarrow> nat \<Rightarrow> uint8 list \<Rightarrow> uint8 list \<Rightarrow> env_node_obj" where
  "env_of env a st key value = env\<lparr>env_start := a, env_status := st, env_len := env_size_of key value, crc_is_ok := True,
     env_name := key, env_value := a + ENV_HDR_DATA_SIZE + length key, env_value_len := length value,
     env_name_len := length key\<rparr>"

text \<open>A complete node is read with its name, the place of its value and its status, and nothing is written.\<close>

lemma read_env_node:
  assumes "node_at (flash s) a st key value"
  shows "read_env w (env\<lparr>env_start := a\<rparr>) s = Some (EF_NO_ERR, env_of env a st key value, s)"
proof -
  have h: "bytes_at (flash s) (a + 4) (node_bytes key value)" and fit: "env_fits key value"
    using assms by (simp_all add: node_at_def)
  have "bytes_at (flash s) (a + 16) (drop 12 (node_bytes key value))" using bytes_at_drop [OF h, of 12] by (simp add: add.commute)
  then have "ef_port_read (a + 16) (env_size_of key value - 16) s = drop 12 (node_bytes key value)"
    by (simp add: bytes_at_read length_node_bytes env_size_of_def)
  then have "crc_loop (a + 16) (env_size_of key value - 16) 0 s = hdr_crc32 (new_env_hdr key value)"
    by (simp add: crc_loop_read new_env_hdr_crc)
  moreover have "bytes_at (flash s) (a + 24) (drop 20 (node_bytes key value))" using bytes_at_drop [OF h, of 20] by (simp add: add.commute)
  then have "ef_port_read (a + 24) (length key) s = key"
    by (simp add: node_bytes_def bytes_at_append bytes_at_read)
  moreover have "get_status [flash s a] 6 = st" using assms by (simp add: node_at_def)
  moreover have "env_size_of key value \<le> 4080" "24 \<le> env_size_of key value"
    using fit by (simp_all add: env_fits_def SECTOR_SIZE_def env_size_of_def)
  ultimately show ?thesis
    using node_at_hdr [OF assms] by (simp add: read_env_def env_of_def Let_def ENV_AREA_SIZE_def SECTOR_SIZE_def)
qed

lemma node_value:
  assumes "node_at (flash s) a st key value"
  shows "ef_port_read (a + 24 + length key) (length value) s = value"
proof -
  have "bytes_at (flash s) (a + 4 + (20 + length key)) (drop (20 + length key) (node_bytes key value))"
    by (rule bytes_at_drop) (use assms in \<open>simp add: node_at_def\<close>)
  then show ?thesis by (simp add: bytes_at_read node_bytes_def ac_simps)
qed

section \<open>Writing a node on a chip that may fail\<close>

text \<open>
  \<open>outcome Q E p\<close>: the statement \<open>p\<close> ended with \<open>EF_NO_ERR\<close> in a state of \<open>Q\<close>, or with an error in one
  of \<open>E\<close>. The rule follows a sequence of statements guarded by \<open>if (result == EF_NO_ERR)\<close>.
\<close>

definition outcome :: "('s \<Rightarrow> bool) \<Rightarrow> ('s \<Rightarrow> bool) \<Rightarrow> EfErrCode \<times> 's \<Rightarrow> bool" where
  "outcome Q E p \<longleftrightarrow> (if fst p = EF_NO_ERR then Q (snd p) else E (snd p))"

lemma outcome_then:
  "outcome Q E p \<Longrightarrow> (\<And>s. Q s \<Longrightarrow> outcome R E (f s)) \<Longrightarrow> outcome R E (ok_then p f)"
  by (auto simp: outcome_def ok_then_def)

lemma outcome_ok [simp]: "outcome Q E (EF_NO_ERR, s) = Q s"
  by (simp add: outcome_def)

lemma outcome_mono: "outcome Q E p \<Longrightarrow> (\<And>s. Q s \<Longrightarrow> Q' s) \<Longrightarrow> (\<And>s. E s \<Longrightarrow> E' s) \<Longrightarrow> outcome Q' E' p"
  by (auto simp: outcome_def split: if_splits)

text \<open>A write that fails leaves an arbitrary part of its bits programmed.\<close>

lemma outcome_write:
  assumes "Q (s\<lparr>flash := program (\<lambda>_. 0) a bs (flash s), chip_ops := Suc (chip_ops s)\<rparr>)"
    "\<And>m. E (s\<lparr>flash := program m a bs (flash s), chip_ops := Suc (chip_ops s)\<rparr>)"
  shows "outcome Q E (ef_port_write w a bs s)"
  using assms by (auto simp: outcome_def ef_port_write_def split: option.split)

text \<open>A node that is not complete, or is so.\<close>

definition torn_or_whole :: "(nat \<Rightarrow> uint8) \<Rightarrow> nat \<Rightarrow> uint8 list \<Rightarrow> uint8 list \<Rightarrow> bool" where
  "torn_or_whole f a key value \<longleftrightarrow> get_status [f a] ENV_STATUS_NUM \<le> ENV_PRE_WRITE \<or> node_at f a ENV_WRITE key value"

text \<open>Outside the node and the status of its sector nothing changes.\<close>

definition same_outside :: "nat \<Rightarrow> nat \<Rightarrow> nat \<Rightarrow> (nat \<Rightarrow> uint8) \<Rightarrow> (nat \<Rightarrow> uint8) \<Rightarrow> bool" where
  "same_outside h a b f g \<longleftrightarrow> (\<forall>x. x \<noteq> h \<and> (x < a \<or> b \<le> x) \<longrightarrow> g x = f x)"

lemma same_outside_program:
  "same_outside h a b f g \<Longrightarrow> a \<le> c \<Longrightarrow> c + length bs \<le> b \<Longrightarrow> same_outside h a b f (program m c bs g)"
  by (auto simp: same_outside_def program_def)

lemma erased_program: "erased f c d \<Longrightarrow> a + length bs \<le> c \<Longrightarrow> erased (program m a bs f) c d"
  by (auto simp: erased_def program_def)

lemma bytes_at_program: "bytes_at f c cs \<Longrightarrow> a + length bs \<le> c \<or> c + length cs \<le> a \<Longrightarrow> bytes_at (program m a bs f) c cs"
  by (auto simp: bytes_at_nth program_def)

lemma status_unwritten: "x = 0xFF \<Longrightarrow> get_status [x] 6 \<le> 1"
  by (simp add: get_status_env ones8)

lemma status_pre_write: "get_status [0xFF AND (stage_byte 1 OR m)] 6 \<le> 1" "0xFF AND stage_byte 1 = stage_byte 1"
  "get_status [stage_byte 1] 6 = 1"
  by (simp_all add: get_status_env bit_simps bit_stage_byte ones8)

lemmas status_pre_write_Suc = status_pre_write [unfolded One_nat_def]

lemma status_write: "get_status [stage_byte 1 AND (stage_byte 2 OR m)] 6 \<in> {1, 2}"
  "get_status [stage_byte 1 AND stage_byte 2] 6 = 2"
  by (simp_all add: get_status_env bit_simps bit_stage_byte)

lemma update_sector_cache_sel [simp]:
  "flash (update_sector_cache p q s) = flash s" "env_cache_table (update_sector_cache p q s) = env_cache_table s"
  "gc_request (update_sector_cache p q s) = gc_request s" "env_init_ok (update_sector_cache p q s) = env_init_ok s"
  "chip_ops (update_sector_cache p q s) = chip_ops s"
  "last_is_complete_del (update_sector_cache p q s) = last_is_complete_del s"
  by (simp_all add: update_sector_cache_def split: prod.split option.split bool.split)

lemma update_env_cache_sel [simp]:
  "flash (update_env_cache k q s) = flash s" "sector_cache_table (update_env_cache k q s) = sector_cache_table s"
  "gc_request (update_env_cache k q s) = gc_request s" "env_init_ok (update_env_cache k q s) = env_init_ok s"
  "chip_ops (update_env_cache k q s) = chip_ops s"
  "last_is_complete_del (update_env_cache k q s) = last_is_complete_del s"
  by (simp_all add: update_env_cache_def Let_def case_prod_beta)

lemma update_sec_status_frame:
  assumes "update_sec_status w sector n s = (b, r, s')" "x \<noteq> sec_addr sector"
  shows "flash s' x = flash s x"
proof -
  have w: "flash s' x = flash s x" if "ef_port_write w (sec_addr sector) [v] s = (r, s')" for v r s'
    using ef_port_write_any [OF that] assms(2) by (auto simp: program_def)
  show ?thesis
    using assms(1) w by (auto simp: update_sec_status_def write_status_simps Let_def split: if_splits prod.splits)
qed

text \<open>
  The four writes of a node: the states between them, and the outcome of all. \<open>h\<close> is the address of the
  sector's status, \<open>f\<close> the flash before.
\<close>

definition hdr_bytes :: "uint8 list \<Rightarrow> uint8 list \<Rightarrow> uint8 list" where
  "hdr_bytes key value = drop ENV_MAGIC_OFFSET (env_hdr_bytes (new_env_hdr key value))"

lemma length_hdr_bytes [simp]: "length (hdr_bytes key value) = 20"
  by (simp add: hdr_bytes_def)

definition partly_written ::
  "nat \<Rightarrow> nat \<Rightarrow> nat \<Rightarrow> uint8 \<Rightarrow> uint8 list \<Rightarrow> (nat \<Rightarrow> uint8) \<Rightarrow> (nat \<Rightarrow> uint8) \<Rightarrow> bool" where
  "partly_written h a b st bs f g \<longleftrightarrow>
     same_outside h a b f g \<and> g a = st \<and> bytes_at g (a + 4) bs \<and> erased g (a + 4 + length bs) b"

lemma partly_write:
  assumes "partly_written h a b st bs f g" "a + 4 + length bs + length cs \<le> b"
  shows "partly_written h a b st (bs @ cs) f (program (\<lambda>_. 0) (a + 4 + length bs) cs g)"
    "same_outside h a b f (program m (a + 4 + length bs) cs g)" "program m (a + 4 + length bs) cs g a = st"
proof -
  note g = assms(1) [unfolded partly_written_def]
  let ?g = "program (\<lambda>_. 0) (a + 4 + length bs) cs g"
  have "bytes_at ?g (a + 4 + length bs) cs" by (rule program_bytes_at) (use g assms(2) in \<open>auto intro: erased_sub\<close>)
  moreover have "bytes_at ?g (a + 4) bs" by (rule bytes_at_program) (use g in simp_all)
  moreover have "erased ?g (a + 4 + length bs + length cs) b"
    by (rule erased_program) (use g in \<open>auto intro: erased_sub\<close>)
  moreover show s: "same_outside h a b f (program m (a + 4 + length bs) cs g)" for m
    by (rule same_outside_program) (use g assms(2) in simp_all)
  moreover show a: "program m (a + 4 + length bs) cs g a = st" for m using g by (simp add: program_other)
  ultimately show "partly_written h a b st (bs @ cs) f ?g"
    unfolding partly_written_def by (simp add: bytes_at_append add.assoc)
qed

lemma partly_program_status:
  assumes "partly_written h a b st bs f g" "a < b"
  shows "partly_written h a b (st AND (x OR m 0)) bs f (program m a [x] g)"
  using assms by (auto simp: partly_written_def program_def bytes_at_nth erased_def same_outside_def)

lemma partly_whole:
  assumes "partly_written h a b st (node_bytes key value) f g" "get_status [st] 6 = 2" "env_fits key value"
  shows "node_at g a 2 key value"
  using assms by (simp add: partly_written_def node_at_def)

text \<open>
  Whatever the chip does, the node is afterwards not valid, or complete, and nothing else has changed but
  the status of the sector; without an error it is complete.
\<close>

lemma write_node_outcome:
  assumes fit: "env_fits key value" and e: "erased (flash s) a (a + env_size_of key value)"
    and h: "sec_addr sector < a"
  shows "outcome
    (\<lambda>s'. node_at (flash s') a ENV_WRITE key value \<and>
       same_outside (sec_addr sector) a (a + env_size_of key value) (flash s) (flash s'))
    (\<lambda>s'. torn_or_whole (flash s') a key value \<and>
       same_outside (sec_addr sector) a (a + env_size_of key value) (flash s) (flash s'))
    (write_node w sector a key value s)" (is "outcome ?R ?E _")
proof -
  let ?h = "sec_addr sector" and ?b = "a + env_size_of key value" and ?hdr = "hdr_bytes key value"
  define Q where "Q st bs s' \<longleftrightarrow> partly_written ?h a ?b st bs (flash s) (flash s')" for st bs and s' :: easyflash
  have hidden: "?E s'" if "same_outside ?h a ?b (flash s) (flash s')" "get_status [flash s' a] 6 \<le> 1" for s'
    using that by (simp add: torn_or_whole_def)
  have b: "?b = a + 24 + length key + length value" by (simp add: env_size_of_def)
  have data: "outcome (Q (stage_byte 1) (bs @ cs)) ?E (ef_port_write w (a + 4 + length bs) cs s')"
    if "Q (stage_byte 1) bs s'" "a + 4 + length bs + length cs \<le> ?b" for bs cs s'
    using that partly_write [of ?h a ?b "stage_byte 1" bs "flash s" "flash s'" cs]
    by (intro outcome_write hidden) (auto simp: Q_def status_pre_write_Suc)
  obtain is_full r0 s0 where u: "update_sec_status w sector (env_size_of key value) s = (is_full, r0, s0)"
    by (metis prod_cases3)
  have s0: "flash s0 x = flash s x" if "x \<noteq> ?h" for x using update_sec_status_frame [OF u that] .
  have 0: "outcome (Q 0xFF []) ?E (r0, s0)"
  proof -
    have "same_outside ?h a ?b (flash s) (flash s0)" using s0 by (simp add: same_outside_def)
    moreover have "erased (flash s0) a ?b" using s0 e h by (simp add: erased_def)
    moreover have "flash s0 a = 0xFF" using \<open>erased (flash s0) a ?b\<close> by (simp add: erased_def b)
    ultimately show ?thesis
      using hidden [of s0] status_unwritten [of "flash s0 a"]
      by (simp add: outcome_def Q_def partly_written_def bytes_at_nth erased_def)
  qed
  have 1: "outcome (Q (stage_byte 1) ?hdr) ?E (write_env_hdr w a (new_env_hdr key value) s')" if "Q 0xFF [] s'" for s'
    unfolding write_env_hdr_def hdr_bytes_def [symmetric] write_status_pre_write
  proof (rule outcome_then [where Q = "Q (stage_byte 1) []"])
    have "partly_written ?h a ?b (0xFF AND (stage_byte 1 OR m 0)) [] (flash s) (program m a [stage_byte 1] (flash s'))"
      for m using that by (intro partly_program_status) (simp_all add: Q_def b)
    then show "outcome (Q (stage_byte 1) []) ?E (ef_port_write w a [stage_byte 1] s')"
      by (intro outcome_write hidden) (fastforce simp: Q_def partly_written_def status_pre_write_Suc)+
  qed (use data [of "[]" _ ?hdr] in \<open>simp add: env_size_of_def\<close>)
  have name: "outcome (Q (stage_byte 1) (?hdr @ key)) ?E (align_write w (a + 24) key s')"
    if "Q (stage_byte 1) ?hdr s'" for s'
    using data [OF that, of key] that by (cases "key = []") (auto simp: align_write_def env_size_of_def add.assoc)
  have val: "outcome (Q (stage_byte 1) (node_bytes key value)) ?E (align_write w (a + 24 + length key) value s')"
    if "Q (stage_byte 1) (?hdr @ key) s'" for s'
    using data [OF that, of "value"] that
    by (cases "value = []") (auto simp: align_write_def node_bytes_def hdr_bytes_def [symmetric] env_size_of_def add.assoc)
  have fin: "outcome ?R ?E (write_status w a 6 2 s')" if q: "Q (stage_byte 1) (node_bytes key value) s'" for s'
    unfolding write_status_simps
  proof (rule outcome_write)
    have p: "partly_written ?h a ?b (stage_byte 1 AND (stage_byte 2 OR m 0)) (node_bytes key value) (flash s)
        (program m a [stage_byte 2] (flash s'))" for m
      using q by (intro partly_program_status) (simp_all add: Q_def b)
    show "?R (s'\<lparr>flash := program (\<lambda>_. 0) a [stage_byte 2] (flash s'), chip_ops := Suc (chip_ops s')\<rparr>)"
      using p [of "\<lambda>_. 0"] partly_whole [OF p [of "\<lambda>_. 0"]] fit status_write(2) by (simp add: partly_written_def)
    show "?E (s'\<lparr>flash := program m a [stage_byte 2] (flash s'), chip_ops := Suc (chip_ops s')\<rparr>)" for m
      using p [of m] partly_whole [OF p [of m]] fit status_write(1) [of "m 0"]
      by (auto simp: partly_written_def torn_or_whole_def)
  qed
  have flash_only: "outcome (Q st bs) ?E p" if "fst p = fst q" "flash (snd p) = flash (snd q)" "outcome (Q st bs) ?E q"
    for p q st bs using that by (auto simp: outcome_def Q_def split: if_splits)
  have cached: "outcome (Q (stage_byte 1) (?hdr @ key)) ?E (let (result, s1) = align_write w (a + 24) key s';
      s2 = (if is_full then s1 else update_sector_cache ?h (a + 24 + length key + length value) s1)
      in (result, update_env_cache key a s2))" if q: "Q (stage_byte 1) ?hdr s'" for s'
    by (rule flash_only [OF _ _ name [OF q]]) (simp_all add: case_prod_beta Let_def)
  have r4: "outcome ?R ?E (ok_then (ok_then (ok_then (ok_then (r0, s0) (write_env_hdr w a (new_env_hdr key value)))
      (\<lambda>s. let (result, s1) = align_write w (a + 24) key s;
            s2 = (if is_full then s1 else update_sector_cache ?h (a + 24 + length key + length value) s1)
            in (result, update_env_cache key a s2)))
      (align_write w (a + 24 + length key) value)) (write_status w a 6 2))"
    by (rule outcome_then [OF outcome_then [OF outcome_then [OF outcome_then [OF 0 1] cached] val] fin])
  then have "outcome ?R ?E (ok_then \<dots> (\<lambda>s. (EF_NO_ERR, if is_full then s\<lparr>gc_request := True\<rparr> else s)))"
    by (rule outcome_then) simp
  then show ?thesis unfolding write_node_def Let_def by (simp add: u Let_def)
qed

end
