(* ===== verification/EnvSectors.thy ===== *)
theory EnvSectors
  imports EnvNodes
begin

text \<open>
  Sectors of complete nodes: what a sector and a store of them look like in flash, and that the loops of
  \<open>ef_env.c\<close> over nodes and sectors visit exactly these nodes, with or without the help of the sector
  cache.
\<close>

section \<open>Logs\<close>

text \<open>A node of a log: its status, its key and its value.\<close>

type_synonym node = "nat \<times> uint8 list \<times> uint8 list"

fun node_size :: "node \<Rightarrow> nat" where
  "node_size (st, key, value) = env_size_of key value"

definition log_end :: "nat \<Rightarrow> node list \<Rightarrow> nat" where
  "log_end a ns = a + sum_list (map node_size ns)"

fun log_at :: "(nat \<Rightarrow> uint8) \<Rightarrow> nat \<Rightarrow> node list \<Rightarrow> bool" where
  "log_at f a [] \<longleftrightarrow> True"
| "log_at f a ((st, key, value) # ns) \<longleftrightarrow> node_at f a st key value \<and> log_at f (a + env_size_of key value) ns"

lemma log_end_simps [simp]: "log_end a [] = a" "log_end a (n # ns) = log_end (a + node_size n) ns"
  "log_end a (ns @ ms) = log_end (log_end a ns) ms"
  by (simp_all add: log_end_def)

lemma log_end_ge: "a \<le> log_end a ns"
  by (simp add: log_end_def)

lemma node_size_ge: "24 \<le> node_size n"
  by (cases n) (simp add: env_size_of_def)

lemma log_at_append: "log_at f a (ns @ ms) \<longleftrightarrow> log_at f a ns \<and> log_at f (log_end a ns) ms"
  by (induction f a ns rule: log_at.induct) simp_all

lemma log_at_cong:
  "(\<And>x. a \<le> x \<Longrightarrow> x < log_end a ns \<Longrightarrow> f x = g x) \<Longrightarrow> log_at f a ns \<longleftrightarrow> log_at g a ns"
proof (induction ns arbitrary: a)
  case (Cons n ns)
  obtain st k v where n: "n = (st, k, v)" by (cases n)
  have "node_at f a st k v \<longleftrightarrow> node_at g a st k v"
  proof (rule node_at_cong)
    fix x assume "a \<le> x" "x < a + env_size_of k v"
    then show "f x = g x" using log_end_ge [of "a + env_size_of k v" ns] n by (intro Cons.prems) simp_all
  qed
  moreover have "log_at f (a + env_size_of k v) ns \<longleftrightarrow> log_at g (a + env_size_of k v) ns"
  proof (rule Cons.IH)
    fix x assume "a + env_size_of k v \<le> x" "x < log_end (a + env_size_of k v) ns"
    then show "f x = g x" using n by (intro Cons.prems) simp_all
  qed
  ultimately show ?case by (simp add: n)
qed simp

section \<open>The next node\<close>

lemma magic_of_node:
  assumes "node_at (flash s) a st key value"
  shows "le32 (ef_port_read (a + 4) 4 s) = ENV_MAGIC_WORD"
proof -
  have "hdr_magic (env_hdr_of (ef_port_read a 24 s)) = ENV_MAGIC_WORD" by (simp add: node_at_hdr [OF assms])
  then show ?thesis by (simp add: env_hdr_of_def)
qed

lemma find_first: "(\<And>x. x \<in> set xs \<Longrightarrow> \<not> P x) \<Longrightarrow> P y \<Longrightarrow> find P (xs @ y # ys) = Some y"
  by (induction xs) auto

lemma find_magic_hit:
  assumes "le32 (ef_port_read (start + 4) 4 s) = ENV_MAGIC_WORD" "4 \<le> start" "start + 24 < 2 ^ 32" "start + 4 < end'"
  shows "find_magic_loop start start end' s = start"
proof -
  let ?P = "\<lambda>i. le32 (take 4 (drop i (ef_port_read start 32 s))) = ENV_MAGIC_WORD \<and> start \<le> sub32 (start + i) ENV_MAGIC_OFFSET"
  have u: "[0..<min 28 (end' - start)] = [0, 1, 2, 3] @ 4 # [5..<min 28 (end' - start)]"
    using assms(4) by (simp add: upt_conv_Cons numeral_eq_Suc min_def)
  have before: "\<not> ?P i" if "i < 4" for i
  proof -
    have "sub32 (start + i) 4 < start" by (subst sub32_le) (use that assms(2,3) in auto)
    then show ?thesis by simp
  qed
  have hit: "?P 4" using assms(1-3) by (simp add: sub32_le)
  have "find ?P ([0, 1, 2, 3] @ 4 # [5..<min 28 (end' - start)]) = Some 4"
  proof (rule find_first [where P = ?P])
    fix i :: nat assume "i \<in> set [0, 1, 2, 3]"
    then have "i < 4" by auto
    then show "\<not> ?P i" by (rule before)
  qed (rule hit)
  then have "find ?P [0..<min 28 (end' - start)] = Some 4" unfolding u .
  then show ?thesis using assms by (subst find_magic_loop.simps) (simp add: Let_def sub32_le)
qed

lemma find_magic_miss:
  "erased (flash s) start (end' + 3) \<Longrightarrow> find_magic_loop bak start end' s = FAILED_ADDR"
proof (induction bak start end' s rule: find_magic_loop.induct)
  case (1 bak start end' s)
  show ?case
  proof (cases "start < end'")
    case True
    have "le32 (take 4 (drop i (ef_port_read start 32 s))) \<noteq> ENV_MAGIC_WORD" if "i < min 28 (end' - start)" for i
    proof -
      have f: "flash s (start + i + j) = 0xFF" if "j < 4" for j
      proof -
        have "start \<le> start + i + j" "start + i + j < end' + 3" using that \<open>i < min 28 (end' - start)\<close> by auto
        then show ?thesis using 1(2) by (simp add: erased_def)
      qed
      have "i < 28" using that by simp
      then have m: "min 4 (32 - i) = 4" by linarith
      have e: "take 4 (drop i (ef_port_read start 32 s)) = ef_port_read (start + i) 4 s"
        unfolding drop_ef_port_read take_ef_port_read m ..
      show ?thesis unfolding e using f [of 0] f [of 1] f [of 2] f [of 3] by (simp add: le32_def)
    qed
    then have "find (\<lambda>i. le32 (take 4 (drop i (ef_port_read start 32 s))) = ENV_MAGIC_WORD \<and>
        bak \<le> sub32 (start + i) ENV_MAGIC_OFFSET) [0..<min 28 (end' - start)] = None"
      by (auto simp: find_None_iff)
    moreover have "find_magic_loop bak (start + 28) end' s = FAILED_ADDR"
      using 1(1) True calculation erased_sub [OF 1(2), of "start + 28" "end' + 3"] by simp
    ultimately show ?thesis using True by (subst find_magic_loop.simps) (simp add: Let_def)
  qed (simp add: find_magic_loop.simps)
qed

lemma sector_of_in: "a mod SECTOR_SIZE = 0 \<Longrightarrow> a \<le> x \<Longrightarrow> x < a + SECTOR_SIZE \<Longrightarrow> sector_of x = a"
proof -
  assume "a mod SECTOR_SIZE = 0" "a \<le> x" "x < a + SECTOR_SIZE"
  then obtain y where "x = a + y" "y < SECTOR_SIZE" by (metis le_Suc_ex nat_add_left_cancel_less)
  then show ?thesis using \<open>a mod SECTOR_SIZE = 0\<close> by (simp add: sector_of_def mod_add_left_eq [symmetric] mod_add_eq [symmetric])
qed

text \<open>
  The sector cache is right about the sector at \<open>a\<close>, and about the one after it: no log is empty there.
\<close>

definition cache_right :: "easyflash \<Rightarrow> nat \<Rightarrow> nat \<Rightarrow> bool" where
  "cache_right s a e \<longleftrightarrow>
     (\<forall>x. get_sector_from_cache a s = Some x \<longrightarrow> x = e) \<and>
     get_sector_from_cache (a + SECTOR_SIZE) s \<noteq> Some (a + SECTOR_SIZE)"

lemma get_next_env_addr_log:
  assumes "log_at (flash s) q ns" "log_end q ns \<le> a + SECTOR_SIZE" "erased (flash s) (log_end q ns) (a + SECTOR_SIZE)"
    "cache_right s a (log_end q ns)" "a mod SECTOR_SIZE = 0" "a \<le> ENV_AREA_SIZE"
    "sec_addr sector = a" "sec_store sector \<noteq> SECTOR_STORE_EMPTY"
    "a \<le> env_start env" "crc_is_ok env" "0 < env_len env" "q = env_start env + env_len env" "16 \<le> q"
  shows "get_next_env_addr sector env s = (if ns = [] then FAILED_ADDR else q)"
proof -
  note d = SECTOR_SIZE_def ENV_AREA_SIZE_def FAILED_ADDR_def
  have q: "q \<le> a + SECTOR_SIZE" using log_end_ge [of q ns] assms(2) by simp
  have next': "find_next_env_addr q (a + SECTOR_SIZE - 16) s = (if ns = [] then FAILED_ADDR else q)"
  proof (cases ns)
    case Nil
    then have "find_magic_loop q q (a + SECTOR_SIZE - 16) s = FAILED_ADDR"
      using assms(3) by (intro find_magic_miss) (auto intro: erased_sub simp: d)
    then show ?thesis using Nil by (simp add: find_next_env_addr_def)
  next
    case (Cons n ms)
    obtain st k v where n: "n = (st, k, v)" by (cases n)
    have node: "node_at (flash s) q st k v" and "q + env_size_of k v \<le> log_end q ns"
      using assms(1) Cons n log_end_ge [of "q + env_size_of k v" ms] by simp_all
    moreover have "24 \<le> env_size_of k v" by (simp add: env_size_of_def)
    ultimately have l: "q + 24 \<le> a + SECTOR_SIZE" "q < log_end q ns" using assms(2) by simp_all
    then have "sector_of q = a" using assms(5,9,11,12) by (intro sector_of_in) (auto simp: d)
    then have "get_sector_from_cache (sector_of q) s \<noteq> Some q" using assms(4) l(2) by (auto simp: cache_right_def)
    moreover have "find_magic_loop q q (a + SECTOR_SIZE - 16) s = q"
      using assms(6,13) l(1) by (intro find_magic_hit [OF magic_of_node [OF node]]) (simp_all add: d)
    ultimately show ?thesis using Cons by (simp add: find_next_env_addr_def)
  qed
  show ?thesis
    using assms(6-) q next' by (auto simp: get_next_env_addr_def Let_def d)
qed

section \<open>Walking over a log\<close>

text \<open>What a loop over the nodes does when its body \<open>g\<close> changes nothing but its own value.\<close>

fun visit ::
  "(env_node_obj \<Rightarrow> 'x \<Rightarrow> bool \<times> 'x) \<Rightarrow> env_node_obj \<Rightarrow> nat \<Rightarrow> node list \<Rightarrow> 'x \<Rightarrow> bool \<times> env_node_obj \<times> 'x" where
  "visit g env a [] x = (False, env\<lparr>env_start := FAILED_ADDR\<rparr>, x)"
| "visit g env a ((st, key, value) # ns) x =
     (let env' = env_of env a st key value; (stop, x') = g env' x
      in if stop then (True, env', x') else visit g env' (a + env_size_of key value) ns x')"

definition sector_log :: "(nat \<Rightarrow> uint8) \<Rightarrow> nat \<Rightarrow> node list \<Rightarrow> bool" where
  "sector_log f a ns \<longleftrightarrow>
     a mod SECTOR_SIZE = 0 \<and> a < ENV_AREA_SIZE \<and> log_at f (a + SECTOR_HDR_DATA_SIZE) ns \<and>
     log_end (a + SECTOR_HDR_DATA_SIZE) ns \<le> a + SECTOR_SIZE \<and>
     erased f (log_end (a + SECTOR_HDR_DATA_SIZE) ns) (a + SECTOR_SIZE)"

lemma env_of_sel [simp]:
  "env_start (env_of env a st key value) = a" "env_status (env_of env a st key value) = st"
  "env_len (env_of env a st key value) = env_size_of key value" "crc_is_ok (env_of env a st key value)"
  "env_name (env_of env a st key value) = key" "env_name_len (env_of env a st key value) = length key"
  "env_value_len (env_of env a st key value) = length value"
  "env_value (env_of env a st key value) = a + 24 + length key"
  by (simp_all add: env_of_def)

lemma env_walk_from:
  assumes "\<And>env x. env_status env \<in> N \<Longrightarrow> cb env x s = Some (fst (g env x), snd (g env x), s)" "sec_addr sector = a"
    "sec_store sector \<noteq> SECTOR_STORE_EMPTY" "a mod SECTOR_SIZE = 0" "a < ENV_AREA_SIZE" "cache_right s a e"
    "erased (flash s) e (a + SECTOR_SIZE)" "e \<le> a + SECTOR_SIZE"
  shows "fst ` set ns \<subseteq> N \<Longrightarrow> log_at (flash s) q ns \<Longrightarrow> log_end q ns = e \<Longrightarrow> a + 16 \<le> q \<Longrightarrow>
    get_next_env_addr sector env s = (if ns = [] then FAILED_ADDR else q) \<Longrightarrow>
    env_walk w sector cb env x s = (case visit g env q ns x of (b, env', x') \<Rightarrow> Some (b, env', x', s))"
proof (induction ns arbitrary: q env x)
  case Nil
  then show ?case by (subst env_walk.simps) simp
next
  case (Cons n ns)
  obtain st k v where n: "n = (st, k, v)" by (cases n)
  let ?q = "q + env_size_of k v" and ?env = "env_of env q st k v"
  have node: "node_at (flash s) q st k v" and log: "log_at (flash s) ?q ns" and e: "log_end ?q ns = e"
    using Cons.prems n by simp_all
  have "24 \<le> env_size_of k v" by (simp add: env_size_of_def)
  then have "get_next_env_addr sector ?env s = (if ns = [] then FAILED_ADDR else ?q)"
    using log e assms Cons.prems(4) by (intro get_next_env_addr_log [where a = a]) simp_all
  then have IH: "env_walk w sector cb ?env x' s = (case visit g ?env ?q ns x' of (b, env', x') \<Rightarrow> Some (b, env', x', s))" for x'
    using Cons.IH [OF _ log e] Cons.prems(1,4) by simp
  have "q \<noteq> FAILED_ADDR"
    using e log_end_ge [of ?q ns] assms(5,8) by (auto simp: FAILED_ADDR_def ENV_AREA_SIZE_def SECTOR_SIZE_def)
  then show ?case
    using Cons.prems(1,5) IH
    by (subst env_walk.simps) (simp add: n read_env_node [OF node] assms(1) case_prod_beta Let_def)
qed

lemma env_walk_visit:
  assumes "\<And>env x. env_status env \<in> N \<Longrightarrow> cb env x s = Some (fst (g env x), snd (g env x), s)" "sec_addr sector = a"
    "sec_store sector \<noteq> SECTOR_STORE_EMPTY" "sector_log (flash s) a ns" "ns \<noteq> []" "cache_right s a (log_end (a + 16) ns)"
    "fst ` set ns \<subseteq> N"
  shows "env_walk w sector cb (env\<lparr>env_start := FAILED_ADDR\<rparr>) x s =
    (case visit g (env\<lparr>env_start := FAILED_ADDR\<rparr>) (a + 16) ns x of (b, env', x') \<Rightarrow> Some (b, env', x', s))"
proof (rule env_walk_from [where a = a and N = N and e = "log_end (a + 16) ns"])
  show "get_next_env_addr sector (env\<lparr>env_start := FAILED_ADDR\<rparr>) s = (if ns = [] then FAILED_ADDR else a + 16)"
    using assms by (simp add: get_next_env_addr_def)
qed (use assms in \<open>simp_all add: sector_log_def\<close>)

section \<open>Reading a sector\<close>

text \<open>A sector is its store status, its dirty status and its log; the sectors in use have a node.\<close>

type_synonym sector = "nat \<times> nat \<times> node list"

definition sector_at :: "(nat \<Rightarrow> uint8) \<Rightarrow> nat \<Rightarrow> sector \<Rightarrow> bool" where
  "sector_at f a = (\<lambda>(store, dirty, ns).
     get_status [f a] SECTOR_STORE_STATUS_NUM = store \<and> get_status [f (a + 1)] SECTOR_DIRTY_STATUS_NUM = dirty \<and>
     bytes_at f (a + 4) (le32_bytes SECTOR_MAGIC_WORD @ le32_bytes SECTOR_NOT_COMBINED) \<and> sector_log f a ns \<and>
     (store = SECTOR_STORE_EMPTY \<and> ns = [] \<or> store \<in> {SECTOR_STORE_USING, SECTOR_STORE_FULL} \<and> ns \<noteq> []))"

definition meta_of :: "sector_meta_data \<Rightarrow> nat \<Rightarrow> sector \<Rightarrow> sector_meta_data" where
  "meta_of sector a = (\<lambda>(store, dirty, ns). sector\<lparr>sec_addr := a, sec_magic := SECTOR_MAGIC_WORD, check_ok := True,
     combined := SECTOR_NOT_COMBINED, sec_store := store, sec_dirty := dirty\<rparr>)"

lemma meta_of_sel [simp]:
  "sec_addr (meta_of sector a S) = a" "check_ok (meta_of sector a S)" "combined (meta_of sector a S) = SECTOR_NOT_COMBINED"
  "sec_store (meta_of sector a S) = fst S" "sec_dirty (meta_of sector a S) = fst (snd S)"
  by (simp_all add: meta_of_def case_prod_beta)

lemma sector_hdr_at:
  assumes "sector_at (flash s) a (store, dirty, ns)"
  shows "sector_hdr_of (ef_port_read a 16 s) = (store, dirty, SECTOR_MAGIC_WORD, SECTOR_NOT_COMBINED)"
proof -
  have b: "bytes_at (flash s) (a + 4) (le32_bytes SECTOR_MAGIC_WORD)"
    "bytes_at (flash s) (a + 8) (le32_bytes SECTOR_NOT_COMBINED)"
    using assms by (simp_all add: sector_at_def bytes_at_append add.commute)
  show ?thesis
    using assms b by (simp add: sector_hdr_of_def sector_at_def bytes_at_read le32_le32_bytes)
qed

text \<open>Without traversal only the header of the sector is read.\<close>

definition header_at :: "(nat \<Rightarrow> uint8) \<Rightarrow> nat \<Rightarrow> sector \<Rightarrow> bool" where
  "header_at f a S \<longleftrightarrow> a mod SECTOR_SIZE = 0 \<and>
     sector_hdr_of (map f [a..<a + 16]) = (fst S, fst (snd S), SECTOR_MAGIC_WORD, SECTOR_NOT_COMBINED)"

lemma sector_header: "sector_at f a S \<Longrightarrow> header_at f a S"
proof -
  assume at: "sector_at f a S"
  obtain store dirty ns where S: "S = (store, dirty, ns)" by (cases S)
  have "sector_hdr_of (ef_port_read a 16 \<lparr>flash = f, chip_ops = 0\<rparr>) = (store, dirty, SECTOR_MAGIC_WORD, SECTOR_NOT_COMBINED)"
    using at S by (intro sector_hdr_at) simp
  then show "header_at f a S" using at S by (simp add: header_at_def ef_port_read_def sector_at_def sector_log_def)
qed

lemma read_header:
  "header_at (flash s) a S \<Longrightarrow> read_sector_meta_data w a sector False s = Some (EF_NO_ERR, meta_of sector a S, s)"
  by (cases S) (simp add: header_at_def ef_port_read_def [symmetric] read_sector_meta_data_def meta_of_def)

lemma read_sector:
  "sector_at (flash s) a S \<Longrightarrow> read_sector_meta_data w a sector False s = Some (EF_NO_ERR, meta_of sector a S, s)"
  by (intro read_header sector_header)

lemma continue_ff_erased:
  assumes "erased (flash s) e b" "e \<le> b"
  shows "continue_ff_addr e b s = e"
proof (cases "e = b")
  case True
  then show ?thesis by (simp add: continue_ff_addr_def)
next
  case False
  let ?f = "\<lambda>x (addr, last_data). (if last_data \<noteq> 0xFF \<and> flash s x = 0xFF then x else addr, flash s x)"
  have rest: "\<forall>x \<in> set xs. flash s x = 0xFF \<Longrightarrow> fold ?f xs (e, 0xFF) = (e, 0xFF)" for xs
    by (induction xs) simp_all
  have "[e..<b] = e # [Suc e..<b]" using False assms(2) by (simp add: upt_conv_Cons)
  moreover have "flash s e = 0xFF" using assms False by (simp add: erased_def)
  ultimately have "fold ?f [e..<b] (e, 0) = (e, 0xFF)"
    using rest [of "[Suc e..<b]"] assms(1) by (simp add: erased_def)
  then show ?thesis by (simp add: continue_ff_addr_def)
qed

text \<open>The traversal of a sector adds up the sizes of its nodes.\<close>

definition count_node :: "env_node_obj \<Rightarrow> EfErrCode \<times> nat \<times> nat \<Rightarrow> bool \<times> EfErrCode \<times> nat \<times> nat" where
  "count_node env x = (let (result, remain', e) = x
     in if \<not> crc_is_ok env \<and> env_status env \<noteq> ENV_PRE_WRITE \<and> env_status env \<noteq> ENV_ERR_HDR
        then (True, EF_READ_ERR, 0, e) else (False, result, sub32 remain' (env_len env), e + env_len env))"

lemma traverse_count: "traverse_node env x s = Some (fst (count_node env x), snd (count_node env x), s)"
  by (simp add: traverse_node_def count_node_def case_prod_beta Let_def)

lemma visit_count:
  "log_end 0 ns \<le> r \<Longrightarrow> r < 2 ^ 32 \<Longrightarrow>
    \<exists>env'. visit count_node env q ns (result, r, e) = (False, env', result, r - log_end 0 ns, log_end e ns)"
proof (induction ns arbitrary: env q r e)
  case (Cons n ns)
  obtain st k v where n: "n = (st, k, v)" by (cases n)
  have l: "log_end (env_size_of k v) ns = env_size_of k v + log_end 0 ns" by (simp add: log_end_def)
  then have "env_size_of k v \<le> r" "log_end 0 ns \<le> r - env_size_of k v" using Cons.prems n by simp_all
  then show ?case
    using Cons.IH [of "r - env_size_of k v"] Cons.prems n l by (simp add: count_node_def sub32_le Let_def)
qed simp

lemma log_end_add: "log_end (a + b) ns = a + log_end b ns"
  by (simp add: log_end_def)

text \<open>
  With traversal the free space is found: the cache knows it, or the nodes are counted and the cache learns it.
\<close>

definition traversed :: "sector_meta_data \<Rightarrow> nat \<Rightarrow> sector \<Rightarrow> sector_meta_data" where
  "traversed sector a S = (meta_of sector a S)\<lparr>
     remain := (if fst S = SECTOR_STORE_FULL then 0 else SECTOR_SIZE - log_end 16 (snd (snd S))),
     empty_env := (if fst S = SECTOR_STORE_FULL then a + 16 else log_end (a + 16) (snd (snd S)))\<rparr>"

definition learned :: "nat \<Rightarrow> sector \<Rightarrow> easyflash \<Rightarrow> easyflash" where
  "learned a S s = (if fst S = SECTOR_STORE_USING \<and> get_sector_from_cache a s = None
     then update_sector_cache a (log_end (a + 16) (snd (snd S))) s else s)"

lemma traverse_sector_eq:
  assumes "sector_log (flash s) a ns" "ns \<noteq> []" "cache_right s a (log_end (a + 16) ns)" "sec_addr sector = a"
    "sec_store sector = SECTOR_STORE_USING"
  shows "traverse_sector w sector s = Some (EF_NO_ERR,
      sector\<lparr>empty_env := log_end (a + 16) ns, remain := SECTOR_SIZE - log_end 16 ns\<rparr>,
      if get_sector_from_cache a s = None then update_sector_cache a (log_end (a + 16) ns) s else s)"
proof -
  have e: "log_end (a + 16) ns \<le> a + SECTOR_SIZE" "erased (flash s) (log_end (a + 16) ns) (a + SECTOR_SIZE)"
    using assms(1) by (simp_all add: sector_log_def)
  then have l: "log_end 16 ns \<le> SECTOR_SIZE" by (simp add: log_end_add)
  show ?thesis
  proof (cases "get_sector_from_cache a s")
    case None
    have "log_end 0 ns \<le> SECTOR_SIZE - 16" using l log_end_add [of 16 0 ns] by simp
    then obtain env' where "visit count_node ((env_uninit w)\<lparr>env_start := FAILED_ADDR\<rparr>) (a + 16) ns
        (EF_NO_ERR, SECTOR_SIZE - 16, a + 16) = (False, env', EF_NO_ERR, SECTOR_SIZE - 16 - log_end 0 ns, log_end (a + 16) ns)"
      using visit_count [of ns "SECTOR_SIZE - 16"] by (fastforce simp: SECTOR_SIZE_def)
    then have "env_walk w sector traverse_node ((env_uninit w)\<lparr>env_start := FAILED_ADDR\<rparr>)
        (EF_NO_ERR, SECTOR_SIZE - 16, a + 16) s =
        Some (False, env', (EF_NO_ERR, SECTOR_SIZE - log_end 16 ns, log_end (a + 16) ns), s)"
      using env_walk_visit [where cb = traverse_node and g = count_node and N = UNIV, OF traverse_count assms(4)]
        assms log_end_add [of 16 0 ns] by simp
    then show ?thesis
      using None e assms(4) by (simp add: traverse_sector_def continue_ff_erased Let_def)
  next
    case (Some x)
    then have x: "x = log_end (a + 16) ns" using assms(3) by (simp add: cache_right_def)
    then have "x - a = log_end 16 ns" by (simp add: log_end_add)
    then show ?thesis
      using Some x l assms(4) sub32_le [of "log_end 16 ns" SECTOR_SIZE]
      by (simp add: traverse_sector_def SECTOR_SIZE_def)
  qed
qed

lemma read_sector_traversal:
  assumes "sector_at (flash s) a S" "fst S = SECTOR_STORE_USING \<Longrightarrow> cache_right s a (log_end (a + 16) (snd (snd S)))"
  shows "read_sector_meta_data w a sector True s = Some (EF_NO_ERR, traversed sector a S, learned a S s)"
proof -
  obtain store dirty ns where S: "S = (store, dirty, ns)" by (cases S)
  note h = sector_hdr_at [OF assms(1) [unfolded S]]
  have m: "a mod SECTOR_SIZE = 0" and l: "sector_log (flash s) a ns"
    and st: "store = 1 \<and> ns = [] \<or> store = 2 \<and> ns \<noteq> [] \<or> store = 3 \<and> ns \<noteq> []"
    using assms(1) by (auto simp: S sector_at_def sector_log_def)
  show ?thesis
  proof (cases "store = 2")
    case True
    then show ?thesis
      using h m l st assms(2)
      by (simp add: read_sector_meta_data_def S meta_of_def traversed_def learned_def traverse_sector_eq)
  next
    case False
    then show ?thesis
      using h m st by (auto simp: read_sector_meta_data_def S meta_of_def traversed_def learned_def)
  qed
qed

end
