(* ===== verification/EnvLookup.thy ===== *)
theory EnvLookup
  imports EnvSectors
begin

text \<open>
  The store as a whole: four sectors, and the look-up of a key in them. \<open>find_env\<close>, with and without
  the cache of names, finds the node that the abstract look-up finds.
\<close>

section \<open>Stores\<close>

type_synonym store = "sector list"

abbreviation (input) nodes :: "sector \<Rightarrow> node list" where
  "nodes T \<equiv> snd (snd T)"

definition sector_addr :: "nat \<Rightarrow> nat" where
  "sector_addr i = i * SECTOR_SIZE"

definition free_addr :: "nat \<Rightarrow> sector \<Rightarrow> nat" where
  "free_addr i T = log_end (sector_addr i + SECTOR_HDR_DATA_SIZE) (nodes T)"

definition store_at :: "(nat \<Rightarrow> uint8) \<Rightarrow> store \<Rightarrow> bool" where
  "store_at f S \<longleftrightarrow> length S = 4 \<and> (\<forall>i < 4. sector_at f (sector_addr i) (S ! i))"

text \<open>What the sector cache says is so.\<close>

definition sector_cache_ok :: "easyflash \<Rightarrow> store \<Rightarrow> bool" where
  "sector_cache_ok s S \<longleftrightarrow>
     (\<forall>n \<in> set (sector_cache_table s). sc_addr n \<noteq> FAILED_ADDR \<longrightarrow>
        (\<exists>i < 4. sc_addr n = sector_addr i \<and> empty_addr n = free_addr i (S ! i)))"

lemma sector_addr_inject [simp]: "sector_addr i = sector_addr j \<longleftrightarrow> i = j"
  by (simp add: sector_addr_def SECTOR_SIZE_def)

lemma sector_addr_Suc: "sector_addr (Suc i) = sector_addr i + SECTOR_SIZE"
  by (simp add: sector_addr_def)

lemma sector_addr_small: "i < 4 \<Longrightarrow> sector_addr i \<noteq> FAILED_ADDR" "i < 4 \<Longrightarrow> sector_addr i < ENV_AREA_SIZE"
  "sector_addr i mod SECTOR_SIZE = 0"
  by (simp_all add: sector_addr_def SECTOR_SIZE_def FAILED_ADDR_def ENV_AREA_SIZE_def)

lemma cached_sector:
  assumes "sector_cache_ok s S" "get_sector_from_cache (sector_addr i) s = Some x" "i \<le> 4"
  shows "i < 4 \<and> x = free_addr i (S ! i)"
proof -
  obtain n where n: "n \<in> set (sector_cache_table s)" "sc_addr n = sector_addr i" "x = empty_addr n"
    using assms(2) nth_mem by (fastforce simp: get_sector_from_cache_def find_Some_iff)
  moreover have "sector_addr i \<noteq> FAILED_ADDR" using assms(3) by (simp add: sector_addr_def SECTOR_SIZE_def FAILED_ADDR_def)
  ultimately show ?thesis using assms(1) by (auto simp: sector_cache_ok_def)
qed

lemma cache_right_sector:
  assumes "sector_cache_ok s S" "i < 4"
  shows "cache_right s (sector_addr i) (free_addr i (S ! i))"
proof -
  have "x \<noteq> sector_addr (Suc i)" if "get_sector_from_cache (sector_addr (Suc i)) s = Some x" for x
    using cached_sector [OF assms(1) that] assms(2)
      log_end_ge [of "sector_addr (Suc i) + 16" "nodes (S ! Suc i)"]
    by (simp add: free_addr_def)
  then show ?thesis
    using cached_sector [OF assms(1)] assms(2) by (auto simp: cache_right_def sector_addr_Suc [symmetric])
qed

lemma next_sector:
  "i < 4 \<Longrightarrow> get_next_sector_addr (meta_of sector (sector_addr i) T) = (if Suc i < 4 then sector_addr (Suc i) else FAILED_ADDR)"
  "get_next_sector_addr (sector\<lparr>sec_addr := FAILED_ADDR\<rparr>) = sector_addr 0"
  using sector_addr_small(1) [of i]
  by (auto simp: get_next_sector_addr_def sector_addr_def SECTOR_SIZE_def ENV_AREA_SIZE_def)

section \<open>Nodes in all sectors\<close>

fun visit_store ::
  "(env_node_obj \<Rightarrow> 'x \<Rightarrow> bool \<times> 'x) \<Rightarrow> env_node_obj \<Rightarrow> nat \<Rightarrow> store \<Rightarrow> 'x \<Rightarrow> env_node_obj \<times> 'x" where
  "visit_store g env i [] x = (env, x)"
| "visit_store g env i (T # S) x =
     (if fst T = SECTOR_STORE_EMPTY then visit_store g env (Suc i) S x
      else case visit g (env\<lparr>env_start := FAILED_ADDR\<rparr>) (sector_addr i + 16) (nodes T) x of
             (stop, env', x') \<Rightarrow> if stop then (env', x') else visit_store g env' (Suc i) S x')"

lemma drop_nth_Suc: "i < length S \<Longrightarrow> drop i S = S ! i # drop (Suc i) S"
  by (simp add: Cons_nth_drop_Suc)

lemma env_iterator_from:
  assumes cb: "\<And>env x. env_status env \<in> N \<Longrightarrow> cb env x s = Some (fst (g env x), snd (g env x), s)"
    and S: "store_at (flash s) S" and c: "sector_cache_ok s S"
    and N: "\<forall>T \<in> set S. fst ` set (nodes T) \<subseteq> N"
  shows "i \<le> 4 \<Longrightarrow> get_next_sector_addr sector = (if i < 4 then sector_addr i else FAILED_ADDR) \<Longrightarrow>
    env_iterator_loop w sector env cb x s =
      (case visit_store g env i (drop i S) x of (env', x') \<Rightarrow> Some (env', x', s))"
proof (induction "4 - i" arbitrary: i sector env x)
  case 0
  then show ?case using S by (subst env_iterator_loop.simps) (simp add: store_at_def)
next
  case (Suc n)
  then have i: "i < 4" "n = 4 - Suc i" "Suc i \<le> 4" by simp_all
  let ?T = "S ! i" and ?m = "meta_of sector (sector_addr i) (S ! i)"
  have T: "sector_at (flash s) (sector_addr i) ?T" and d: "drop i S = ?T # drop (Suc i) S"
    using S i(1) by (simp_all add: store_at_def drop_nth_Suc)
  note IH = Suc.hyps(1) [OF i(2,3) next_sector(1) [OF i(1)]]
  obtain store dirty ns where U: "?T = (store, dirty, ns)" by (cases "?T")
  have st: "store = 1 \<and> ns = [] \<or> store \<in> {2, 3} \<and> ns \<noteq> []" and log: "sector_log (flash s) (sector_addr i) ns"
    using T U by (simp_all add: sector_at_def)
  show ?case
  proof (cases "store = 1")
    case True
    then show ?thesis
      using Suc.prems(2) i(1) IH sector_addr_small(1) [OF i(1)] U
      by (subst env_iterator_loop.simps) (simp add: d read_sector [OF T])
  next
    case False
    then have ns: "ns \<noteq> []" and st: "store = 2 \<or> store = 3" using st by auto
    have "?T \<in> set S" using S i(1) by (simp add: store_at_def)
    then have N': "fst ` set ns \<subseteq> N" using N U by force
    have "env_walk w ?m cb (env\<lparr>env_start := FAILED_ADDR\<rparr>) x s =
      (case visit g (env\<lparr>env_start := FAILED_ADDR\<rparr>) (sector_addr i + 16) ns x of (b, env', x') \<Rightarrow> Some (b, env', x', s))"
      using cache_right_sector [OF c i(1)] U False N'
      by (intro env_walk_visit [where cb = cb and g = g and N = N] cb log ns) (simp_all add: free_addr_def)
    then show ?thesis
      using Suc.prems(2) i(1) IH sector_addr_small(1) [OF i(1)] U False st
      by (subst env_iterator_loop.simps) (auto simp: d read_sector [OF T] split: prod.split)
  qed
qed

lemma env_iterator_store:
  assumes "\<And>env x. env_status env \<in> N \<Longrightarrow> cb env x s = Some (fst (g env x), snd (g env x), s)"
    "store_at (flash s) S" "sector_cache_ok s S" "\<forall>T \<in> set S. fst ` set (nodes T) \<subseteq> N"
  shows "env_iterator w env cb x s = (case visit_store g env 0 S x of (env', x') \<Rightarrow> Some (env', x', s))"
  unfolding env_iterator_def
  using env_iterator_from [where i = 0 and cb = cb and g = g and s = s and N = N, OF assms] by (simp add: next_sector)

section \<open>Looking up a key\<close>

text \<open>The first valid node of the key: its address and its value.\<close>

fun log_lookup :: "uint8 list \<Rightarrow> nat \<Rightarrow> node list \<Rightarrow> (nat \<times> uint8 list) option" where
  "log_lookup key a [] = None"
| "log_lookup key a ((st, k, value) # ns) =
     (if st = ENV_WRITE \<and> k = key then Some (a, value) else log_lookup key (a + env_size_of k value) ns)"

fun lookup_from :: "uint8 list \<Rightarrow> nat \<Rightarrow> store \<Rightarrow> (nat \<times> uint8 list) option" where
  "lookup_from key i [] = None"
| "lookup_from key i (T # S) =
     (case log_lookup key (sector_addr i + 16) (nodes T) of
        Some p \<Rightarrow> Some p
      | None \<Rightarrow> lookup_from key (Suc i) S)"

definition store_lookup :: "uint8 list \<Rightarrow> store \<Rightarrow> (nat \<times> uint8 list) option" where
  "store_lookup key S = lookup_from key 0 S"

text \<open>The abstract value of a store: a map from keys to values.\<close>

definition store_map :: "store \<Rightarrow> uint8 list \<Rightarrow> uint8 list option" where
  "store_map S key = map_option snd (store_lookup key S)"

definition match_node :: "uint8 list \<Rightarrow> env_node_obj \<Rightarrow> bool \<Rightarrow> bool \<times> bool" where
  "match_node key env x =
     (if length key = env_name_len env \<and> crc_is_ok env \<and> env_status env = ENV_WRITE \<and> take (length key) (env_name env) = key
      then (True, True) else (False, x))"

lemma find_env_cb_match: "find_env_cb key env x s = Some (fst (match_node key env x), snd (match_node key env x), s)"
  by (auto simp: find_env_cb_def match_node_def)

lemma match_env_of: "match_node key (env_of env a st k value) x = (if st = ENV_WRITE \<and> k = key then (True, True) else (False, x))"
  by (auto simp: match_node_def)

lemma visit_match:
  "case log_lookup key a ns of
     Some (p, v) \<Rightarrow> \<exists>env0. visit (match_node key) env a ns False = (True, env_of env0 p ENV_WRITE key v, True)
   | None \<Rightarrow> \<exists>env'. visit (match_node key) env a ns False = (False, env', False)"
proof (induction ns arbitrary: env a)
  case (Cons n ns)
  obtain st k v where n: "n = (st, k, v)" by (cases n)
  show ?case
    using Cons.IH [of "env_of env a st k v" "a + env_size_of k v"]
    by (auto simp: n match_env_of Let_def split: option.splits)
qed simp

lemma visit_store_match:
  "\<forall>T \<in> set S. fst T = SECTOR_STORE_EMPTY \<longrightarrow> nodes T = [] \<Longrightarrow>
   case lookup_from key i S of
     Some (p, v) \<Rightarrow> \<exists>env0. visit_store (match_node key) env i S False = (env_of env0 p ENV_WRITE key v, True)
   | None \<Rightarrow> \<exists>env'. visit_store (match_node key) env i S False = (env', False)"
proof (induction S arbitrary: env i)
  case (Cons T S)
  let ?v = "visit (match_node key) (env\<lparr>env_start := FAILED_ADDR\<rparr>) (sector_addr i + 16) (nodes T) False"
  note IH = Cons.IH [where i = "Suc i"] and here = visit_match [where key = key and a = "sector_addr i + 16" and ns = "nodes T" and env = "env\<lparr>env_start := FAILED_ADDR\<rparr>"]
  show ?case
  proof (cases "fst T = 1")
    case True
    then show ?thesis using IH [where env = env] Cons.prems by (auto split: option.splits)
  next
    case False
    then show ?thesis
    proof (cases "log_lookup key (sector_addr i + 16) (nodes T)")
      case None
      then obtain env' where "?v = (False, env', False)" using here by auto
      then show ?thesis using IH [where env = env'] Cons.prems None False by (auto split: option.splits)
    next
      case (Some p)
      then show ?thesis using here False by (auto split: prod.splits)
    qed
  qed
qed simp

lemma log_lookup_at: "log_lookup key a ns = Some (p, value) \<Longrightarrow>
    \<exists>pre post. ns = pre @ (ENV_WRITE, key, value) # post \<and> p = log_end a pre"
proof (induction ns arbitrary: a)
  case (Cons n ns)
  obtain st k v where n: "n = (st, k, v)" by (cases n)
  show ?case
  proof (cases "st = 2 \<and> k = key")
    case True
    then show ?thesis using Cons.prems n by (intro exI [of _ "[]"] exI [of _ ns]) simp
  next
    case False
    then obtain pre post where "ns = pre @ (2, key, value) # post" "p = log_end (a + env_size_of k v) pre"
      using Cons.IH [of "a + env_size_of k v"] Cons.prems n by auto
    then show ?thesis using n by (intro exI [of _ "n # pre"] exI [of _ post]) simp
  qed
qed simp

lemma lookup_from_at: "lookup_from key i S = Some (p, value) \<Longrightarrow>
    \<exists>j < length S. log_lookup key (sector_addr (i + j) + 16) (nodes (S ! j)) = Some (p, value)"
proof (induction S arbitrary: i)
  case (Cons T S)
  show ?case
  proof (cases "log_lookup key (sector_addr i + 16) (nodes T)")
    case None
    then obtain j where "j < length S" "log_lookup key (sector_addr (Suc i + j) + 16) (nodes (S ! j)) = Some (p, value)"
      using Cons.IH [of "Suc i"] Cons.prems None by auto
    then show ?thesis by (intro exI [of _ "Suc j"]) simp
  qed (use Cons.prems in auto)
qed simp

lemma store_lookup_at:
  assumes "store_lookup key S = Some (p, value)" "length S = 4"
  obtains i pre post where "i < 4" "nodes (S ! i) = pre @ (ENV_WRITE, key, value) # post"
    "p = log_end (sector_addr i + 16) pre"
  using lookup_from_at [of key 0 S p "value"] log_lookup_at assms by (fastforce simp: store_lookup_def)

lemma store_at_log: "store_at f S \<Longrightarrow> i < 4 \<Longrightarrow> sector_log f (sector_addr i) (nodes (S ! i))"
  by (cases "S ! i") (auto simp: store_at_def sector_at_def)

lemma store_lookup_node:
  assumes "store_lookup key S = Some (p, value)" "store_at f S"
  shows "node_at f p ENV_WRITE key value" "p \<noteq> FAILED_ADDR" "p < ENV_AREA_SIZE"
proof -
  have "length S = 4" using assms(2) by (simp add: store_at_def)
  then obtain i pre post where i: "i < 4" "nodes (S ! i) = pre @ (2, key, value) # post"
    "p = log_end (sector_addr i + 16) pre"
    using store_lookup_at [OF assms(1)] by blast
  note l = store_at_log [OF assms(2) i(1), unfolded sector_log_def i(2)]
  then show "node_at f p ENV_WRITE key value" using i(3) by (simp add: log_at_append)
  have "p < sector_addr i + SECTOR_SIZE"
    using l i(3) log_end_ge [of "p + env_size_of key value" post] by (simp add: env_size_of_def)
  then show "p < ENV_AREA_SIZE" using i(1) by (simp add: sector_addr_def SECTOR_SIZE_def ENV_AREA_SIZE_def)
  then show "p \<noteq> FAILED_ADDR" by (auto simp: FAILED_ADDR_def ENV_AREA_SIZE_def)
qed

section \<open>The cache of names\<close>

text \<open>An entry of the cache is right when its address is the node of a key with its checksum.\<close>

definition entry_ok :: "store \<Rightarrow> uint16 \<times> nat \<Rightarrow> bool" where
  "entry_ok S = (\<lambda>(crc, addr). addr \<noteq> FAILED_ADDR \<longrightarrow>
     (\<exists>key value. store_lookup key S = Some (addr, value) \<and> env_name_crc key = crc))"

definition entry_of :: "env_cache_node \<Rightarrow> uint16 \<times> nat" where
  "entry_of n = (name_crc n, cache_addr n)"

definition env_cache_ok :: "easyflash \<Rightarrow> store \<Rightarrow> bool" where
  "env_cache_ok s S \<longleftrightarrow> (\<forall>n \<in> set (env_cache_table s). entry_ok S (entry_of n))"

text \<open>No other key of the store has the checksum of this one.\<close>

definition told_apart :: "uint8 list \<Rightarrow> store \<Rightarrow> bool" where
  "told_apart key S \<longleftrightarrow> (\<forall>k. store_lookup k S \<noteq> None \<and> env_name_crc k = env_name_crc key \<longrightarrow> k = key)"

lemma env_cache_search_hit:
  "env_cache_search m crc t = Some (addr, t') \<Longrightarrow>
    addr \<noteq> FAILED_ADDR \<and> (crc, addr) \<in> set (map entry_of t) \<and> map entry_of t' = map entry_of t"
  by (induction t arbitrary: t') (auto simp: entry_of_def split: if_splits)

text \<open>Of two entries with the same checksum only the first is in use.\<close>

primrec entries_once :: "(uint16 \<times> nat) list \<Rightarrow> bool" where
  "entries_once [] \<longleftrightarrow> True"
| "entries_once (e # es) \<longleftrightarrow> (\<forall>e' \<in> set es. fst e' = fst e \<longrightarrow> snd e' = FAILED_ADDR) \<and> entries_once es"

definition entries :: "easyflash \<Rightarrow> (uint16 \<times> nat) list" where
  "entries s = map entry_of (env_cache_table s)"

lemma entries_once_append: "entries_once (es @ es') \<longleftrightarrow>
    entries_once es \<and> entries_once es' \<and> (\<forall>e \<in> set es. \<forall>e' \<in> set es'. fst e' = fst e \<longrightarrow> snd e' = FAILED_ADDR)"
  by (induction es) auto

lemma entries_once_update: "entries_once es \<Longrightarrow> fst e \<notin> fst ` set es \<Longrightarrow> entries_once (es[i := e])"
proof (induction es arbitrary: i)
  case (Cons x es)
  have sub: "y = e \<or> y \<in> set es" if "y \<in> set (es[k := e])" for y k
    using that set_update_subset_insert [of es k e] by blast
  show ?case
  proof (cases i)
    case 0
    then show ?thesis using Cons.prems by (auto simp: image_iff)
  next
    case (Suc k)
    have "fst y = fst x \<longrightarrow> snd y = FAILED_ADDR" if "y \<in> set (es[k := e])" for y
      using sub [OF that] Cons.prems by auto
    then show ?thesis using Suc Cons.IH [of k] Cons.prems by simp
  qed
qed simp

text \<open>Either the first entry with the checksum gets the address, or there is no such entry.\<close>

lemma env_cache_loop_entries:
  "env_cache_loop crc addr i e m a t = (e', m', r, t') \<Longrightarrow>
    (if r then \<exists>pre x post. map entry_of t = pre @ (crc, x) # post \<and> crc \<notin> fst ` set pre \<and>
                 map entry_of t' = pre @ (crc, addr) # post
     else map entry_of t' = map entry_of t \<and> crc \<notin> fst ` set (map entry_of t) \<and>
       (addr = FAILED_ADDR \<longrightarrow> e' = e \<and> m' = m))"
proof (induction t arbitrary: i e m a e' m' r t')
  case (Cons n t)
  show ?case
  proof (cases "name_crc n = crc")
    case True
    then have "r" "map entry_of t' = (crc, addr) # map entry_of t"
      using Cons.prems by (auto simp: Let_def entry_of_def split: if_splits)
    then show ?thesis using True
      by (auto simp: entry_of_def intro!: exI [of _ "[]"])
  next
    case False
    obtain n' e1 m1 a1 t'' where t': "t' = n' # t''" "entry_of n' = entry_of n"
      and l: "env_cache_loop crc addr (Suc i) e1 m1 a1 t = (e', m', r, t'')"
      and f: "addr = FAILED_ADDR \<longrightarrow> e1 = e \<and> m1 = m"
      using Cons.prems False by (auto simp: Let_def entry_of_def split: if_splits prod.splits)
    show ?thesis
    proof (cases r)
      case True
      then obtain pre x post where "map entry_of t = pre @ (crc, x) # post" "crc \<notin> fst ` set pre"
        "map entry_of t'' = pre @ (crc, addr) # post"
        using Cons.IH [OF l] by auto
      then show ?thesis
        using True t' False by (auto simp: entry_of_def intro!: exI [of _ "entry_of n # pre"])
    next
      case r: False
      then show ?thesis using Cons.IH [OF l] t' f False by (auto simp: entry_of_def)
    qed
  qed
qed simp

lemma update_env_cache_entries:
  assumes "entries_once (entries s)"
  shows "entries_once (entries (update_env_cache key addr s))"
    "x \<in> set (entries (update_env_cache key addr s)) \<Longrightarrow>
      x = (env_name_crc key, addr) \<or> x \<in> set (entries s) \<and> (fst x = env_name_crc key \<longrightarrow> snd x = FAILED_ADDR)"
proof -
  let ?crc = "env_name_crc key" and ?s = "update_env_cache key addr s"
  obtain e m r t where l: "env_cache_loop ?crc addr 0 None None 0xFFFF (env_cache_table s) = (e, m, r, t)"
    by (metis prod_cases4)
  note h = env_cache_loop_entries [OF l]
  have "entries_once (entries ?s) \<and> (\<forall>x \<in> set (entries ?s).
      x = (?crc, addr) \<or> x \<in> set (entries s) \<and> (fst x = ?crc \<longrightarrow> snd x = FAILED_ADDR))"
  proof (cases r)
    case True
    then obtain pre x post where "entries s = pre @ (?crc, x) # post" "?crc \<notin> fst ` set pre"
      "entries ?s = pre @ (?crc, addr) # post"
      using h l by (auto simp: entries_def update_env_cache_def)
    then show ?thesis using assms by (auto simp: entries_once_append image_iff)
  next
    case False
    then have t: "map entry_of t = entries s" "?crc \<notin> fst ` set (entries s)" using h by (simp_all add: entries_def)
    obtain xs where xs: "entries ?s = xs" "xs = entries s \<or> (\<exists>i. xs = (entries s)[i := (?crc, addr)])"
      using l False t(1)
      by (cases e; cases m) (auto simp: entries_def update_env_cache_def Let_def map_update entry_of_def)
    have "y = (?crc, addr) \<or> y \<in> set (entries s)" if "y \<in> set xs" for y
      using xs(2) that set_update_subset_insert [of "entries s" _ "(?crc, addr)"] by blast
    moreover have "fst y \<noteq> ?crc" if "y \<in> set (entries s)" for y using that t(2) by force
    moreover have "entries_once xs" using xs(2) assms t(2) entries_once_update [of "entries s" "(?crc, addr)"] by auto
    ultimately show ?thesis unfolding xs(1) by blast
  qed
  then show "entries_once (entries ?s)"
    "x \<in> set (entries ?s) \<Longrightarrow> x = (?crc, addr) \<or> x \<in> set (entries s) \<and> (fst x = ?crc \<longrightarrow> snd x = FAILED_ADDR)"
    by auto
qed

lemma env_cache_ok_entries: "env_cache_ok s S \<longleftrightarrow> (\<forall>x \<in> set (entries s). entry_ok S x)"
  by (simp add: env_cache_ok_def entries_def)

lemma env_cache_ok_update:
  assumes "env_cache_ok s S" "store_lookup key S = Some (addr, value)" "entries_once (entries s)"
  shows "env_cache_ok (update_env_cache key addr s) S"
  unfolding env_cache_ok_entries
proof
  fix x assume "x \<in> set (entries (update_env_cache key addr s))"
  then consider "x = (env_name_crc key, addr)" | "x \<in> set (entries s)"
    using update_env_cache_entries(2) [OF assms(3)] by blast
  then show "entry_ok S x"
    using assms(1,2) by cases (auto simp: entry_ok_def env_cache_ok_entries)
qed

section \<open>The operations\<close>

text \<open>A store in flash, and caches that are right about it.\<close>

definition holds_store :: "easyflash \<Rightarrow> store \<Rightarrow> bool" where
  "holds_store s S \<longleftrightarrow> store_at (flash s) S \<and> sector_cache_ok s S \<and> env_cache_ok s S \<and> entries_once (entries s)"

lemma find_env_no_cache_lookup:
  assumes "store_at (flash s) S" "sector_cache_ok s S"
  shows "case store_lookup key S of
      None \<Rightarrow> \<exists>env'. find_env_no_cache w key env s = Some (False, env', s)
    | Some (p, value) \<Rightarrow> \<exists>env0. find_env_no_cache w key env s = Some (True, env_of env0 p ENV_WRITE key value, s)"
proof -
  have "\<forall>T \<in> set S. fst T = 1 \<longrightarrow> nodes T = []"
  proof (intro ballI impI)
    fix T assume "T \<in> set S" "fst T = 1"
    then obtain i where "i < 4" "T = S ! i" using assms(1) by (auto simp: store_at_def in_set_conv_nth)
    then have "sector_at (flash s) (sector_addr i) T" using assms(1) by (simp add: store_at_def)
    then show "nodes T = []" using \<open>fst T = 1\<close> by (auto simp: sector_at_def)
  qed
  then show ?thesis
    using visit_store_match [where S = S and key = key and i = 0 and env = env]
      env_iterator_store [where cb = "find_env_cb key" and g = "match_node key" and N = UNIV, OF find_env_cb_match assms]
    by (auto simp: find_env_no_cache_def store_lookup_def split: option.splits)
qed

lemma cached_key:
  assumes "env_cache_ok s S" "told_apart key S" "get_env_from_cache key s = Some (addr, s')"
  shows "\<exists>value t. store_lookup key S = Some (addr, value) \<and> s' = s\<lparr>env_cache_table := t\<rparr> \<and>
    env_cache_ok (s\<lparr>env_cache_table := t\<rparr>) S \<and> entries (s\<lparr>env_cache_table := t\<rparr>) = entries s"
proof -
  obtain t where t: "env_cache_search (\<lambda>n. saved_name_matches key n s) (env_name_crc key) (env_cache_table s) = Some (addr, t)"
    "s' = s\<lparr>env_cache_table := t\<rparr>"
    using assms(3) by (auto simp: get_env_from_cache_def)
  note h = env_cache_search_hit [OF t(1)]
  then have "set (map entry_of t) = set (map entry_of (env_cache_table s))" by simp
  then have all: "\<forall>e \<in> set (map entry_of t). entry_ok S e" using assms(1) by (auto simp: env_cache_ok_def)
  have "entry_ok S (env_name_crc key, addr)" using h assms(1) by (auto simp: env_cache_ok_def)
  then obtain k v where "store_lookup k S = Some (addr, v)" "env_name_crc k = env_name_crc key"
    using h by (auto simp: entry_ok_def)
  moreover from this have "k = key" using assms(2) by (auto simp: told_apart_def)
  moreover have "env_cache_ok (s\<lparr>env_cache_table := t\<rparr>) S" using all by (simp add: env_cache_ok_def)
  ultimately show ?thesis using t(2) h by (intro exI [of _ v] exI [of _ t]) (simp add: entries_def)
qed

lemma find_env_lookup:
  assumes "holds_store s S" "told_apart key S"
  shows "case store_lookup key S of
      None \<Rightarrow> \<exists>env'. find_env w key env s = Some (False, env', s)
    | Some (p, value) \<Rightarrow> \<exists>env0 t. find_env w key env s =
        Some (True, env_of env0 p ENV_WRITE key value, s\<lparr>env_cache_table := t\<rparr>) \<and> holds_store (s\<lparr>env_cache_table := t\<rparr>) S"
proof (cases "get_env_from_cache key s")
  case None
  show ?thesis
  proof (cases "store_lookup key S")
    case (Some q)
    obtain p v where q: "q = (p, v)" by (cases q)
    have p: "p \<noteq> FAILED_ADDR" using store_lookup_node [of key S p v] assms(1) Some q by (auto simp: holds_store_def)
    have "env_cache_ok (update_env_cache key p s) S" "entries_once (entries (update_env_cache key p s))"
      using env_cache_ok_update [of s S key p v] update_env_cache_entries(1) [of s key p] assms(1) Some q
      by (simp_all add: holds_store_def)
    moreover obtain t where "update_env_cache key p s = s\<lparr>env_cache_table := t\<rparr>"
      by (auto simp: update_env_cache_def Let_def case_prod_beta)
    ultimately show ?thesis
      using None Some q find_env_no_cache_lookup [where s = s and S = S and key = key and w = w and env = env] assms(1)
      by (auto simp: find_env_def holds_store_def sector_cache_ok_def)
  qed (use None find_env_no_cache_lookup [where s = s and S = S and key = key and w = w and env = env] assms(1) in \<open>auto simp: find_env_def holds_store_def\<close>)
next
  case (Some h)
  obtain addr s' where h: "h = (addr, s')" by (cases h)
  then obtain v t where k: "store_lookup key S = Some (addr, v)" "s' = s\<lparr>env_cache_table := t\<rparr>"
    "env_cache_ok (s\<lparr>env_cache_table := t\<rparr>) S" "entries (s\<lparr>env_cache_table := t\<rparr>) = entries s"
    using cached_key [of s S key addr s'] assms Some by (auto simp: holds_store_def)
  have "node_at (flash s') addr 2 key v" using store_lookup_node(1) [OF k(1)] assms(1) k(2) by (simp add: holds_store_def)
  then show ?thesis
    using k assms(1) Some h read_env_node [of s' addr 2 key v w env]
    by (auto simp: find_env_def holds_store_def sector_cache_ok_def)
qed

end
