(* ===== verification/EnvAlloc.thy ===== *)
theory EnvAlloc
  imports EnvLookup
begin

text \<open>
  Allocation: which sector \<open>alloc_env\<close> takes, that it changes nothing but the sector cache, and how the
  sector cache follows its sectors.
\<close>

section \<open>Keeping the sector cache\<close>

text \<open>No sector has two entries.\<close>

definition sectors_once :: "sector_cache_node list \<Rightarrow> bool" where
  "sectors_once t \<longleftrightarrow> distinct (filter (\<lambda>a. a \<noteq> FAILED_ADDR) (map sc_addr t))"

lemma sectors_once_Cons [simp]: "sectors_once (n # t) \<longleftrightarrow>
    (sc_addr n \<noteq> FAILED_ADDR \<longrightarrow> sc_addr n \<notin> sc_addr ` set t) \<and> sectors_once t"
  by (auto simp: sectors_once_def)

lemma sectors_once_Nil [simp]: "sectors_once []"
  by (simp add: sectors_once_def)

text \<open>The loop of \<open>update_sector_cache\<close>.\<close>

lemma sector_cache_loop_inside:
  assumes "a \<noteq> FAILED_ADDR" "a < e" "e < a + SECTOR_SIZE"
  shows "sectors_once t \<Longrightarrow> sector_cache_loop a e i x t = (x', r, t') \<Longrightarrow>
    (if a \<in> sc_addr ` set t then r \<and> sectors_once t' \<and> sc_addr ` set t' = sc_addr ` set t \<and>
        set t' \<subseteq> insert \<lparr>sc_addr = a, empty_addr = e\<rparr> {n \<in> set t. sc_addr n \<noteq> a}
     else \<not> r \<and> t' = t \<and> (\<forall>k. x' = Some k \<longrightarrow> x = Some k \<or> i \<le> k \<and> k < i + length t \<and> sc_addr (t ! (k - i)) = FAILED_ADDR))"
proof (induction t arbitrary: i x x' r t')
  case (Cons n t)
  show ?case
  proof (cases "sc_addr n = a")
    case True
    then show ?thesis using Cons.prems assms by (auto simp: Let_def image_iff) metis
  next
    case False
    obtain e1 r1 t1 where l: "sector_cache_loop a e (Suc i)
        (if sc_addr n = FAILED_ADDR \<and> x = None then Some i else x) t = (e1, r1, t1)"
      by (metis prod_cases3)
    note IH = Cons.IH [OF _ l]
    show ?thesis
      using Cons.prems assms False l IH
      by (auto simp: Let_def nth_Cons' split: if_splits)
  qed
qed simp

text \<open>
  After an update with an address inside the sector every entry of that sector is the new one; with an
  address outside, none is left.
\<close>

lemma update_sector_cache_inside:
  assumes "sectors_once (sector_cache_table s)" "a \<noteq> FAILED_ADDR" "a < e" "e < a + SECTOR_SIZE"
    "n \<in> set (sector_cache_table (update_sector_cache a e s))" "sc_addr n \<noteq> FAILED_ADDR"
  shows "n = \<lparr>sc_addr = a, empty_addr = e\<rparr> \<or> n \<in> set (sector_cache_table s) \<and> sc_addr n \<noteq> a"
proof -
  obtain x r t where l: "sector_cache_loop a e 0 None (sector_cache_table s) = (x, r, t)" by (metis prod_cases3)
  note h = sector_cache_loop_inside [OF assms(2-4,1) l]
  show ?thesis
  proof (cases "a \<in> sc_addr ` set (sector_cache_table s)")
    case True
    then have "set t \<subseteq> insert \<lparr>sc_addr = a, empty_addr = e\<rparr> {n \<in> set (sector_cache_table s). sc_addr n \<noteq> a}" and r
      using h by simp_all
    then show ?thesis
      using assms(5) l by (cases x) (auto simp: update_sector_cache_def)
  next
    case False
    then have "\<not> r" "t = sector_cache_table s" using h by simp_all
    then show ?thesis
      using False assms(5) l set_update_subset_insert [of t _ "\<lparr>sc_addr = a, empty_addr = e\<rparr>"]
      by (cases x) (auto simp: update_sector_cache_def dest!: subsetD)
  qed
qed

lemma sectors_once_replace:
  assumes "sectors_once t" "k < length t" "sc_addr (t ! k) = FAILED_ADDR" "a \<notin> sc_addr ` set t"
  shows "sectors_once (t[k := \<lparr>sc_addr = a, empty_addr = e\<rparr>])"
proof -
  have t: "t = take k t @ t ! k # drop (Suc k) t" using assms(2) by (rule id_take_nth_drop)
  have "map sc_addr (t[k := \<lparr>sc_addr = a, empty_addr = e\<rparr>]) = map sc_addr (take k t) @ a # map sc_addr (drop (Suc k) t)"
    using assms(2) by (simp add: upd_conv_take_nth_drop)
  moreover have "filter (\<lambda>a. a \<noteq> FAILED_ADDR) (map sc_addr t) =
      filter (\<lambda>a. a \<noteq> FAILED_ADDR) (map sc_addr (take k t)) @ filter (\<lambda>a. a \<noteq> FAILED_ADDR) (map sc_addr (drop (Suc k) t))"
    by (subst t) (simp add: assms(3))
  moreover have "a \<notin> set (map sc_addr (take k t)) \<union> set (map sc_addr (drop (Suc k) t))"
    using assms(4) by (auto dest: in_set_takeD in_set_dropD)
  ultimately show ?thesis using assms(1) by (auto simp: sectors_once_def)
qed

lemma sectors_once_inside:
  assumes "sectors_once (sector_cache_table s)" "a \<noteq> FAILED_ADDR" "a < e" "e < a + SECTOR_SIZE"
  shows "sectors_once (sector_cache_table (update_sector_cache a e s))"
proof -
  obtain x r t where l: "sector_cache_loop a e 0 None (sector_cache_table s) = (x, r, t)" by (metis prod_cases3)
  note h = sector_cache_loop_inside [OF assms(2-4,1) l]
  show ?thesis
    using h l assms(1) sectors_once_replace [of "sector_cache_table s" _ a e]
    by (cases x) (auto simp: update_sector_cache_def split: if_splits bool.split)
qed

lemma sector_cache_loop_outside:
  assumes "a \<noteq> FAILED_ADDR" "\<not> (a < e \<and> e < a + SECTOR_SIZE)"
  shows "sectors_once t \<Longrightarrow> \<exists>r t'. sector_cache_loop a e i None t = (None, r, t') \<and> sectors_once t' \<and>
    set t' \<subseteq> {n. sc_addr n = FAILED_ADDR} \<union> {n \<in> set t. sc_addr n \<noteq> a}"
proof (induction t arbitrary: i)
  case (Cons n t)
  show ?case
  proof (cases "sc_addr n = a")
    case True
    then show ?thesis using Cons.prems assms by (auto simp: Let_def image_iff)
  next
    case False
    obtain r t' where l: "sector_cache_loop a e (Suc i) None t = (None, r, t')" "sectors_once t'"
      "set t' \<subseteq> {n. sc_addr n = FAILED_ADDR} \<union> {n \<in> set t. sc_addr n \<noteq> a}"
      using Cons.IH [of "Suc i"] Cons.prems unfolding sectors_once_Cons by blast
    then have "sc_addr n \<noteq> FAILED_ADDR \<longrightarrow> sc_addr n \<notin> sc_addr ` set t'" using Cons.prems by auto
    then show ?thesis
      using False assms Cons.prems l by (intro exI [of _ r] exI [of _ "n # t'"]) (auto simp: Let_def)
  qed
qed (auto intro: exI [of _ False])

lemma update_sector_cache_outside:
  assumes "sectors_once (sector_cache_table s)" "a \<noteq> FAILED_ADDR" "\<not> (a < e \<and> e < a + SECTOR_SIZE)"
  shows "sectors_once (sector_cache_table (update_sector_cache a e s))"
    "n \<in> set (sector_cache_table (update_sector_cache a e s)) \<Longrightarrow> sc_addr n \<noteq> FAILED_ADDR \<Longrightarrow>
      n \<in> set (sector_cache_table s) \<and> sc_addr n \<noteq> a"
  using sector_cache_loop_outside [OF assms(2,3,1), of 0] by (auto simp: update_sector_cache_def)

lemma update_sector_cache_only: "\<exists>t. update_sector_cache a e s = s\<lparr>sector_cache_table := t\<rparr>"
  by (auto simp: update_sector_cache_def split: prod.split option.split bool.split)

section \<open>Choosing a sector\<close>

definition tidy :: "easyflash \<Rightarrow> store \<Rightarrow> bool" where
  "tidy s S \<longleftrightarrow> store_at (flash s) S \<and> sector_cache_ok s S \<and> sectors_once (sector_cache_table s)"

lemma tidy_learned:
  assumes "tidy s S" "i < 4"
  shows "\<exists>t. learned (sector_addr i) (S ! i) s = s\<lparr>sector_cache_table := t\<rparr> \<and> tidy (s\<lparr>sector_cache_table := t\<rparr>) S"
proof (cases "fst (S ! i) = SECTOR_STORE_USING \<and> get_sector_from_cache (sector_addr i) s = None")
  case True
  let ?a = "sector_addr i" and ?e = "free_addr i (S ! i)"
  have a: "?a \<noteq> FAILED_ADDR" and e: "?a < ?e"
    using sector_addr_small [of i] assms(2) log_end_ge [of "?a + 16" "nodes (S ! i)"] by (simp_all add: free_addr_def)
  obtain t where t: "update_sector_cache ?a ?e s = s\<lparr>sector_cache_table := t\<rparr>" using update_sector_cache_only by blast
  have once: "sectors_once (sector_cache_table s)" and old: "sector_cache_ok s S" using assms(1) by (simp_all add: tidy_def)
  have new: "n = \<lparr>sc_addr = ?a, empty_addr = ?e\<rparr> \<or> n \<in> set (sector_cache_table s)" "sectors_once t"
    if "n \<in> set t" "sc_addr n \<noteq> FAILED_ADDR" for n
  proof -
    have n: "n \<in> set (sector_cache_table (update_sector_cache ?a ?e s))" using that(1) t by simp
    show "n = \<lparr>sc_addr = ?a, empty_addr = ?e\<rparr> \<or> n \<in> set (sector_cache_table s)"
      using update_sector_cache_inside [OF once a e _ n that(2)] update_sector_cache_outside(2) [OF once a _ n that(2)]
      by blast
  qed (use sectors_once_inside [OF once a e] update_sector_cache_outside(1) [OF once a, of ?e] t in
      \<open>cases "?e < ?a + SECTOR_SIZE"; simp\<close>)
  have "sectors_once t"
    using sectors_once_inside [OF once a e] update_sector_cache_outside(1) [OF once a, of ?e] t
    by (cases "?e < ?a + SECTOR_SIZE") simp_all
  moreover have "sector_cache_ok (s\<lparr>sector_cache_table := t\<rparr>) S"
    using new(1) old assms(2) unfolding sector_cache_ok_def by fastforce
  ultimately show ?thesis using True t assms(1) by (auto simp: learned_def tidy_def free_addr_def)
next
  case False
  then have "learned (sector_addr i) (S ! i) s = s\<lparr>sector_cache_table := sector_cache_table s\<rparr>"
    by (auto simp: learned_def)
  then show ?thesis using assms(1) by (intro exI [of _ "sector_cache_table s"]) simp
qed

definition has_room :: "nat \<Rightarrow> sector \<Rightarrow> bool" where
  "has_room size' T \<longleftrightarrow> fst (snd T) \<in> {SECTOR_DIRTY_FALSE, SECTOR_DIRTY_TRUE} \<and> size' < SECTOR_SIZE - log_end 16 (nodes T)"

lemma alloc_cb_traversed:
  "\<not> gc_request s \<Longrightarrow> fst T \<noteq> SECTOR_STORE_FULL \<Longrightarrow> alloc_env_cb size' (traversed m (sector_addr i) T) x s =
    Some (if has_room size' T then (True, free_addr i T, s) else (False, x, s))"
  by (auto simp: alloc_env_cb_def traversed_def has_room_def free_addr_def)

lemma next_sector_traversed:
  "i < 4 \<Longrightarrow> get_next_sector_addr (traversed m (sector_addr i) T) = (if Suc i < 4 then sector_addr (Suc i) else FAILED_ADDR)"
proof -
  have "get_next_sector_addr (traversed m (sector_addr i) T) = get_next_sector_addr (meta_of m (sector_addr i) T)"
    by (simp add: get_next_sector_addr_def traversed_def)
  then show "i < 4 \<Longrightarrow> ?thesis" by (simp only: next_sector)
qed

lemma find_upt_step:
  "i < (n :: nat) \<Longrightarrow> find P [i..<n] = (if P i then Some i else find P [Suc i..<n])"
  by (simp add: upt_conv_Cons)

lemma sector_loop_alloc:
  assumes "status = SECTOR_STORE_USING \<or> status = SECTOR_STORE_EMPTY"
  shows "tidy s S \<Longrightarrow> \<not> gc_request s \<Longrightarrow> i \<le> 4 \<Longrightarrow>
    get_next_sector_addr m = (if i < 4 then sector_addr i else FAILED_ADDR) \<Longrightarrow>
    \<exists>m' t. tidy (s\<lparr>sector_cache_table := t\<rparr>) S \<and>
      sector_loop w status (alloc_env_cb size') True m x s =
        (case find (\<lambda>j. fst (S ! j) = status \<and> has_room size' (S ! j)) [i..<4] of
           Some j \<Rightarrow> Some (traversed m' (sector_addr j) (S ! j), free_addr j (S ! j), s\<lparr>sector_cache_table := t\<rparr>)
         | None \<Rightarrow> Some (m', x, s\<lparr>sector_cache_table := t\<rparr>))"
proof (induction "4 - i" arbitrary: i m s)
  case 0
  then have "s\<lparr>sector_cache_table := sector_cache_table s\<rparr> = s" "\<not> i < 4" by simp_all
  then show ?case
    using 0 by (subst sector_loop.simps) (intro exI [of _ m] exI [of _ "sector_cache_table s"], simp)
next
  case (Suc n)
  then have i: "i < 4" "n = 4 - Suc i" "Suc i \<le> 4" by simp_all
  note IH = Suc.hyps(1) [OF i(2) _ _ i(3)]
  let ?T = "S ! i" and ?a = "sector_addr i" and ?P = "\<lambda>j. fst (S ! j) = status \<and> has_room size' (S ! j)"
  have T: "sector_at (flash s) ?a ?T" and a: "?a \<noteq> FAILED_ADDR"
    using Suc.prems(1) i(1) sector_addr_small(1) by (simp_all add: tidy_def store_at_def)
  note step = sector_loop.simps [of w status "alloc_env_cb size'" True m x s]
  show ?case
  proof (cases "fst ?T = status")
    case False
    have "status \<noteq> 0" using assms by auto
    then have "sector_loop w status (alloc_env_cb size') True m x s =
        sector_loop w status (alloc_env_cb size') True (meta_of m ?a ?T) x s"
      using False Suc.prems(4) i(1) a by (simp add: step read_sector [OF T])
    then show ?thesis
      using IH [OF Suc.prems(1,2) next_sector(1) [OF i(1)]] False i(1) by (simp add: find_upt_step)
  next
    case True
    then have full: "fst ?T \<noteq> SECTOR_STORE_FULL" using assms by auto
    obtain t where t: "learned ?a ?T s = s\<lparr>sector_cache_table := t\<rparr>" "tidy (s\<lparr>sector_cache_table := t\<rparr>) S"
      using tidy_learned [OF Suc.prems(1) i(1)] by blast
    have "cache_right s ?a (log_end (?a + 16) (nodes ?T))"
      using cache_right_sector [of s S i] Suc.prems(1) i(1) by (simp add: tidy_def free_addr_def)
    note rd = read_sector_traversal [OF T this]
    show ?thesis
    proof (cases "has_room size' ?T")
      case True
      then have "sector_loop w status (alloc_env_cb size') True m x s =
          Some (traversed (meta_of m ?a ?T) ?a ?T, free_addr i ?T, s\<lparr>sector_cache_table := t\<rparr>)"
        using \<open>fst ?T = status\<close> Suc.prems(2,4) i(1) a full t(1)
        by (simp add: step read_sector [OF T] rd alloc_cb_traversed Let_def)
      then show ?thesis using True \<open>fst ?T = status\<close> i(1) t(2) by (simp add: find_upt_step) blast
    next
      case False
      then have "sector_loop w status (alloc_env_cb size') True m x s =
          sector_loop w status (alloc_env_cb size') True (traversed (meta_of m ?a ?T) ?a ?T) x (s\<lparr>sector_cache_table := t\<rparr>)"
        using \<open>fst ?T = status\<close> Suc.prems(2,4) i(1) a full t(1)
        by (simp add: step read_sector [OF T] rd alloc_cb_traversed Let_def)
      moreover have e: "s\<lparr>sector_cache_table := t, sector_cache_table := ta\<rparr> = s\<lparr>sector_cache_table := ta\<rparr>" for ta by simp
      have g: "\<not> gc_request (s\<lparr>sector_cache_table := t\<rparr>)" using Suc.prems(2) by simp
      moreover obtain m' ta where "tidy (s\<lparr>sector_cache_table := ta\<rparr>) S"
        "sector_loop w status (alloc_env_cb size') True (traversed (meta_of m ?a ?T) ?a ?T) x (s\<lparr>sector_cache_table := t\<rparr>) =
          (case find ?P [Suc i..<4] of
             Some j \<Rightarrow> Some (traversed m' (sector_addr j) (S ! j), free_addr j (S ! j), s\<lparr>sector_cache_table := ta\<rparr>)
           | None \<Rightarrow> Some (m', x, s\<lparr>sector_cache_table := ta\<rparr>))"
        using IH [OF t(2) g next_sector_traversed [OF i(1), of "meta_of m ?a ?T" ?T]] unfolding e by blast
      ultimately show ?thesis using False i(1) by (auto simp: find_upt_step)
    qed
  qed
qed

section \<open>Counting sectors\<close>

lemma store_headers: "store_at f S \<Longrightarrow> length S = 4 \<and> (\<forall>i < 4. header_at f (sector_addr i) (S ! i))"
  by (simp add: store_at_def sector_header)

lemma sector_loop_count:
  assumes S: "length S = 4" "\<forall>i < 4. header_at (flash s) (sector_addr i) (S ! i)"
    and cb: "\<And>m a T x. T \<in> set S \<Longrightarrow> cb (meta_of m a T) x s = Some (False, h T x, s)"
  shows "i \<le> 4 \<Longrightarrow> get_next_sector_addr m = (if i < 4 then sector_addr i else FAILED_ADDR) \<Longrightarrow>
    \<exists>m'. sector_loop w status cb False m x s =
      Some (m', fold h (filter (\<lambda>T. status = SECTOR_STORE_UNUSED \<or> status = fst T) (drop i S)) x, s)"
proof (induction "4 - i" arbitrary: i m x)
  case 0
  then show ?case using S by (subst sector_loop.simps) simp
next
  case (Suc n)
  then have i: "i < 4" "n = 4 - Suc i" "Suc i \<le> 4" by simp_all
  have T: "header_at (flash s) (sector_addr i) (S ! i)" and d: "drop i S = S ! i # drop (Suc i) S"
    using S i(1) by (simp_all add: drop_nth_Suc)
  have here: "S ! i \<in> set S" using S i(1) by simp
  have "sector_loop w status cb False m x s = sector_loop w status cb False (meta_of m (sector_addr i) (S ! i))
      (if status = 0 \<or> status = fst (S ! i) then h (S ! i) x else x) s"
    using Suc.prems(2) i(1) sector_addr_small(1) [OF i(1)]
    by (subst sector_loop.simps) (simp add: read_header [OF T] cb [OF here] Let_def)
  then show ?case
    using Suc.hyps(1) [OF i(2,3) next_sector(1) [OF i(1)]] by (cases "status = 0 \<or> status = fst (S ! i)") (simp_all add: d)
qed

definition empties :: "store \<Rightarrow> nat" where
  "empties S = length (filter (\<lambda>T. fst T = SECTOR_STORE_EMPTY) S)"

definition count_sector :: "sector \<Rightarrow> nat \<times> nat \<Rightarrow> nat \<times> nat" where
  "count_sector T = (\<lambda>(e, u). if fst T = SECTOR_STORE_EMPTY then (Suc e, u)
     else if fst T = SECTOR_STORE_USING then (e, Suc u) else (e, u))"

lemma fold_count_sector: "fold count_sector S (e, u) = (e + empties S, u + length (filter (\<lambda>T. fst T = 2) S))"
  by (induction S arbitrary: e u) (auto simp: count_sector_def empties_def)

lemma statistics_count: "sector_statistics_cb (meta_of m a T) x s = Some (False, count_sector T x, s)"
  by (auto simp: sector_statistics_cb_def count_sector_def split: prod.split)

section \<open>Allocation\<close>

text \<open>
  The sector that is taken: the first one in use that has room, or else the first empty one, if another
  empty one remains.
\<close>

definition chosen :: "store \<Rightarrow> nat \<Rightarrow> nat option" where
  "chosen S size' =
     (case find (\<lambda>j. fst (S ! j) = SECTOR_STORE_USING \<and> has_room size' (S ! j)) [0..<4] of
        Some j \<Rightarrow> Some j
      | None \<Rightarrow> if 1 < empties S then find (\<lambda>j. fst (S ! j) = SECTOR_STORE_EMPTY \<and> has_room size' (S ! j)) [0..<4]
                else None)"

lemma chosen_Some:
  "chosen S size' = Some j \<Longrightarrow> j < 4 \<and> has_room size' (S ! j) \<and>
    (fst (S ! j) = SECTOR_STORE_USING \<or> fst (S ! j) = SECTOR_STORE_EMPTY \<and> 1 < empties S)"
proof -
  have up: "[0..<4] ! k = k" if "k < 4" for k :: nat using that by simp
  show "chosen S size' = Some j \<Longrightarrow> ?thesis"
    using up by (auto simp: chosen_def find_Some_iff split: option.splits if_splits)
qed

lemma free_addr_small: "store_at f S \<Longrightarrow> j < 4 \<Longrightarrow> free_addr j (S ! j) \<le> ENV_AREA_SIZE"
  using store_at_log [of f S j] sector_addr_small(2) [of j]
  by (simp add: sector_log_def free_addr_def sector_addr_def SECTOR_SIZE_def ENV_AREA_SIZE_def)

lemma free_addr_not_failed: "store_at f S \<Longrightarrow> j < 4 \<Longrightarrow> free_addr j (S ! j) \<noteq> FAILED_ADDR"
  using free_addr_small [of f S j] by (auto simp: FAILED_ADDR_def ENV_AREA_SIZE_def)

lemma alloc_env_chosen:
  assumes "tidy s S" "\<not> gc_request s" "chosen S size' = Some j"
  shows "\<exists>m t. tidy (s\<lparr>sector_cache_table := t\<rparr>) S \<and> alloc_env w sector size' s =
    Some (free_addr j (S ! j), traversed m (sector_addr j) (S ! j), s\<lparr>sector_cache_table := t\<rparr>)"
proof -
  have S: "store_at (flash s) S" using assms(1) by (simp add: tidy_def)
  note first = next_sector(2)
  obtain m1 where 1: "sector_iterator w sector SECTOR_STORE_UNUSED sector_statistics_cb False (0, 0) s =
      Some (m1, (empties S, length (filter (\<lambda>T. fst T = 2) S)), s)"
    using sector_loop_count [where cb = sector_statistics_cb and h = count_sector, OF conjunct1 [OF store_headers [OF S]] conjunct2 [OF store_headers [OF S]] statistics_count, of 0 "sector\<lparr>sec_addr := FAILED_ADDR\<rparr>" w 0 "(0, 0)"] first
    by (auto simp: sector_iterator_def fold_count_sector)
  let ?U = "find (\<lambda>j. fst (S ! j) = 2 \<and> has_room size' (S ! j)) [0..<4]"
  let ?E = "find (\<lambda>j. fst (S ! j) = 1 \<and> has_room size' (S ! j)) [0..<4]"
  have loop: "\<exists>m' t. tidy (s'\<lparr>sector_cache_table := t\<rparr>) S \<and> sector_iterator w m status (alloc_env_cb size') True x s' =
        (case find (\<lambda>j. fst (S ! j) = status \<and> has_room size' (S ! j)) [0..<4] of
           Some j \<Rightarrow> Some (traversed m' (sector_addr j) (S ! j), free_addr j (S ! j), s'\<lparr>sector_cache_table := t\<rparr>)
         | None \<Rightarrow> Some (m', x, s'\<lparr>sector_cache_table := t\<rparr>))"
    if "status = 2 \<or> status = 1" "tidy s' S" "\<not> gc_request s'" for s' status m x
    using sector_loop_alloc [OF that, where i = 0 and m = "m\<lparr>sec_addr := FAILED_ADDR\<rparr>" and size' = size' and w = w and x = x] first
    by (simp add: sector_iterator_def)
  have fst_using: "0 < length (filter (\<lambda>T. fst T = 2) S)" if "?U = Some k" for k
  proof -
    have "k < 4" "fst (S ! k) = 2" using that by (auto simp: find_Some_iff)
    then have "S ! k \<in> set (filter (\<lambda>T. fst T = 2) S)" using S by (simp add: store_at_def)
    then show ?thesis by (metis length_pos_if_in_set)
  qed
  show ?thesis
  proof (cases ?U)
    case (Some k)
    then have k: "k = j" "j < 4" using assms(3) chosen_Some [OF assms(3)] by (simp_all add: chosen_def)
    obtain m' t where t: "tidy (s\<lparr>sector_cache_table := t\<rparr>) S"
      "sector_iterator w m1 2 (alloc_env_cb size') True FAILED_ADDR s =
        Some (traversed m' (sector_addr j) (S ! j), free_addr j (S ! j), s\<lparr>sector_cache_table := t\<rparr>)"
      using loop [of 2 s m1 FAILED_ADDR] assms(1,2) Some k(1) by auto
    then have "alloc_env w sector size' s =
        Some (free_addr j (S ! j), traversed m' (sector_addr j) (S ! j), s\<lparr>sector_cache_table := t\<rparr>)"
      using fst_using [OF Some] free_addr_not_failed [OF S k(2)] by (simp add: alloc_env_def 1)
    then show ?thesis using t(1) by blast
  next
    case None
    then have e: "1 < empties S" "?E = Some j" using assms(3) by (auto simp: chosen_def split: if_splits)
    obtain m2 t where t: "tidy (s\<lparr>sector_cache_table := t\<rparr>) S"
      "(if 0 < length (filter (\<lambda>T. fst T = 2) S) then sector_iterator w m1 2 (alloc_env_cb size') True FAILED_ADDR s
        else Some (m1, FAILED_ADDR, s)) = Some (m2, FAILED_ADDR, s\<lparr>sector_cache_table := t\<rparr>)"
    proof (cases "0 < length (filter (\<lambda>T. fst T = 2) S)")
      case True
      then show ?thesis using loop [of 2 s m1 FAILED_ADDR] assms(1,2) None that by auto
    next
      case False
      then show ?thesis using assms(1) that [of "sector_cache_table s" m1] by simp
    qed
    let ?s = "s\<lparr>sector_cache_table := t\<rparr>"
    obtain m3 t' where t': "tidy (?s\<lparr>sector_cache_table := t'\<rparr>) S"
      "sector_iterator w m2 1 (alloc_env_cb size') True FAILED_ADDR ?s =
        Some (traversed m3 (sector_addr j) (S ! j), free_addr j (S ! j), ?s\<lparr>sector_cache_table := t'\<rparr>)"
      using loop [of 1 ?s m2 FAILED_ADDR] t(1) assms(2) e(2) by auto
    then have "alloc_env w sector size' s =
        Some (free_addr j (S ! j), traversed m3 (sector_addr j) (S ! j), s\<lparr>sector_cache_table := t'\<rparr>)"
      using t(2) e(1) by (simp add: alloc_env_def 1)
    then show ?thesis using t'(1) by auto
  qed
qed

end
