(* ===== verification/EnvUpdate.thy ===== *)
theory EnvUpdate
  imports EnvAlloc
begin

text \<open>
  Changes of the store. \<open>ef_set_env_blob\<close> with a value updates the abstract map at its key, with the null
  pointer it removes the key; in between the old node goes through its stages and the new one is appended
  to the sector that \<open>alloc_env\<close> takes.
\<close>

section \<open>Flash contents\<close>

lemma erased_cong: "(\<And>x. a \<le> x \<Longrightarrow> x < b \<Longrightarrow> f x = g x) \<Longrightarrow> erased f a b \<longleftrightarrow> erased g a b"
  by (auto simp: erased_def)

lemma sector_log_cong:
  assumes "\<And>x. a + 16 \<le> x \<Longrightarrow> x < a + SECTOR_SIZE \<Longrightarrow> f x = g x" "sector_log f a ns"
  shows "sector_log g a ns"
proof -
  have e: "log_end (a + 16) ns \<le> a + SECTOR_SIZE" and g: "a + 16 \<le> log_end (a + 16) ns"
    using assms(2) log_end_ge by (simp_all add: sector_log_def)
  have "log_at f (a + 16) ns \<longleftrightarrow> log_at g (a + 16) ns" using e by (intro log_at_cong assms(1)) simp_all
  moreover have "erased f (log_end (a + 16) ns) (a + SECTOR_SIZE) \<longleftrightarrow> erased g (log_end (a + 16) ns) (a + SECTOR_SIZE)"
    using g by (intro erased_cong assms(1)) simp_all
  ultimately show ?thesis using assms(2) by (simp add: sector_log_def)
qed

lemma sector_at_cong:
  assumes "\<And>x. a \<le> x \<Longrightarrow> x < a + SECTOR_SIZE \<Longrightarrow> f x = g x" "sector_at f a T"
  shows "sector_at g a T"
proof -
  have h: "f (a + i) = g (a + i)" if "i < 16" for i using that by (intro assms(1)) (simp_all add: SECTOR_SIZE_def)
  have "bytes_at f (a + 4) bs \<longleftrightarrow> bytes_at g (a + 4) bs" if "length bs = 8" for bs
    using that h [of "4 + i" for i] by (auto simp: bytes_at_nth add.assoc)
  moreover obtain store dirty ns where "T = (store, dirty, ns)" by (cases T)
  moreover have "sector_log g a ns" if "sector_log f a ns" for ns
    using that by (rule sector_log_cong [rotated]) (intro assms(1); simp)
  ultimately show ?thesis
    using assms(2) h [of 0] h [of 1] by (simp add: sector_at_def)
qed

text \<open>A change of one sector.\<close>

lemma store_at_update:
  assumes "store_at f S" "j < 4" "sector_at g (sector_addr j) T"
    "\<And>x. x < sector_addr j \<or> sector_addr j + SECTOR_SIZE \<le> x \<Longrightarrow> g x = f x"
  shows "store_at g (S[j := T])"
  unfolding store_at_def
proof (intro conjI allI impI)
  show "length (S[j := T]) = 4" using assms(1) by (simp add: store_at_def)
  fix i :: nat assume i: "i < 4"
  show "sector_at g (sector_addr i) (S[j := T] ! i)"
  proof (cases "i = j")
    case True
    then show ?thesis using assms(1-3) by (simp add: store_at_def)
  next
    case False
    have "sector_at f (sector_addr i) (S ! i)" using assms(1) i by (simp add: store_at_def)
    moreover have "f x = g x" if "sector_addr i \<le> x" "x < sector_addr i + SECTOR_SIZE" for x
      using that False assms(4) [of x] by (cases "i < j") (auto simp: sector_addr_def SECTOR_SIZE_def)
    ultimately have "sector_at g (sector_addr i) (S ! i)" using sector_at_cong by blast
    then show ?thesis using False by simp
  qed
qed

section \<open>A new stage of a node\<close>

lemma stage_status:
  "get_status [x] 6 = st \<Longrightarrow> st < st' \<Longrightarrow> st' \<in> {3, 4} \<Longrightarrow> get_status [x AND stage_byte st'] 6 = st'"
  "get_status [x] 4 = st \<Longrightarrow> st < st' \<Longrightarrow> st' \<in> {2, 3} \<Longrightarrow> get_status [x AND stage_byte st'] 4 = st'"
  by (auto simp: get_status_env get_status_sector bit_simps bit_stage_byte split: if_splits)

lemma log_at_status:
  assumes "log_at f a (pre @ (st, k, v) # post)" "get_status [g (log_end a pre)] 6 = st'"
    "\<And>x. a \<le> x \<Longrightarrow> x < log_end a (pre @ (st, k, v) # post) \<Longrightarrow> x \<noteq> log_end a pre \<Longrightarrow> g x = f x"
  shows "log_at g a (pre @ (st', k, v) # post)"
proof -
  let ?p = "log_end a pre" and ?q = "log_end a pre + env_size_of k v"
  have q: "a \<le> ?p" "?q \<le> log_end ?q post" "?p + 24 \<le> ?q" using log_end_ge by (simp_all add: env_size_of_def)
  have e: "log_end a (pre @ (st, k, v) # post) = log_end ?q post" by simp
  have "log_at f a pre \<longleftrightarrow> log_at g a pre" using q e by (intro log_at_cong assms(3) [symmetric]) auto
  moreover have "log_at f ?q post \<longleftrightarrow> log_at g ?q post" using q e by (intro log_at_cong assms(3) [symmetric]) auto
  moreover have "bytes_at f (?p + 4) (node_bytes k v) \<longleftrightarrow> bytes_at g (?p + 4) (node_bytes k v)"
    using q e by (intro bytes_at_cong assms(3) [symmetric]) (auto simp: length_node_bytes env_size_of_def)
  ultimately show ?thesis using assms(1,2) by (simp add: log_at_append node_at_def)
qed

definition dirtied :: "nat \<Rightarrow> nat" where
  "dirtied d = (if d = SECTOR_DIRTY_FALSE then SECTOR_DIRTY_TRUE else d)"

text \<open>A sector in which the status of one node and the dirty status have changed.\<close>

lemma sector_at_restaged:
  assumes "sector_at f a (store, dirty, pre @ (st, k, v) # post)" "p = log_end (a + 16) pre"
    "get_status [h p] 6 = st'" "get_status [h (a + 1)] 4 = d" "\<And>x. x \<noteq> p \<Longrightarrow> x \<noteq> a + 1 \<Longrightarrow> h x = f x"
  shows "sector_at h a (store, d, pre @ (st', k, v) # post)" "a + 16 \<le> p" "p < a + SECTOR_SIZE"
    "get_status [f p] 6 = st" "get_status [f (a + 1)] 4 = dirty"
proof -
  let ?ns = "pre @ (st, k, v) # post"
  have log: "sector_log f a ?ns" and d: "get_status [f (a + 1)] 4 = dirty" using assms(1) by (simp_all add: sector_at_def)
  show "get_status [f (a + 1)] 4 = dirty" by (rule d)
  have "node_at f p st k v" using log assms(2) by (simp add: sector_log_def log_at_append)
  then show "get_status [f p] 6 = st" by (simp add: node_at_def)
  show p: "a + 16 \<le> p" using assms(2) log_end_ge by simp
  have e: "p + 24 \<le> log_end (a + 16) ?ns"
    using log_end_ge [of "p + env_size_of k v" post] assms(2) by (simp add: env_size_of_def)
  then show "p < a + SECTOR_SIZE" using log by (simp add: sector_log_def)
  have "log_at h (a + 16) (pre @ (st', k, v) # post)"
    by (rule log_at_status [where f = f and st = st])
      (use log assms(2,3) in \<open>auto simp: sector_log_def intro!: assms(5)\<close>)
  moreover have "log_end (a + 16) (pre @ (st', k, v) # post) = log_end (a + 16) ?ns" by simp
  moreover have "erased h (log_end (a + 16) ?ns) (a + SECTOR_SIZE)"
    using log e p assms(5) by (auto simp: sector_log_def erased_def)
  ultimately have "sector_log h a (pre @ (st', k, v) # post)" using log unfolding sector_log_def by simp
  moreover have "h a = f a" using p assms(5) by simp
  moreover have "bytes_at h (a + 4) bs \<longleftrightarrow> bytes_at f (a + 4) bs" if "length bs = 8" for bs
    using that p by (intro bytes_at_cong assms(5)) auto
  ultimately show "sector_at h a (store, d, pre @ (st', k, v) # post)"
    using assms(1,4) by (simp add: sector_at_def)
qed

text \<open>The sector after \<open>del_env\<close> has marked a node of it.\<close>

lemma sector_at_marked:
  assumes "sector_at f a (store, dirty, pre @ (st, k, v) # post)" "st < st'" "st' = 3 \<or> st' = 4"
    "p = log_end (a + 16) pre" "g = program (\<lambda>_. 0) p [stage_byte st'] f"
    "h = (if dirty = 1 then program (\<lambda>_. 0) (a + 1) [stage_byte 2] g else g)"
  shows "sector_at h a (store, dirtied dirty, pre @ (st', k, v) # post)"
    "get_status [g (a + 1)] 4 = dirty" "a + 16 \<le> p" "p < a + SECTOR_SIZE"
    "x < a \<or> a + SECTOR_SIZE \<le> x \<Longrightarrow> h x = f x"
proof -
  note old = sector_at_restaged(2-5) [OF assms(1,4) refl refl]
  have old: "a + 16 \<le> p" "p < a + SECTOR_SIZE" "get_status [f p] 6 = st" "get_status [f (a + 1)] 4 = dirty"
    using old [of f] by simp_all
  then show "a + 16 \<le> p" "p < a + SECTOR_SIZE" by simp_all
  have g: "g x = (if x = p then f x AND stage_byte st' else f x)" for x using assms(5) by (auto simp: program_def)
  show "get_status [g (a + 1)] 4 = dirty" using old g by simp
  have h: "h x = (if x = p then f x AND stage_byte st' else if x = a + 1 \<and> dirty = 1 then f x AND stage_byte 2 else f x)" for x
    using assms(6) g old(1) by (auto simp: program_def)
  show "x < a \<or> a + SECTOR_SIZE \<le> x \<Longrightarrow> h x = f x" using h old by (auto simp: SECTOR_SIZE_def)
  show "sector_at h a (store, dirtied dirty, pre @ (st', k, v) # post)"
  proof (rule sector_at_restaged(1) [OF assms(1,4)])
    show "get_status [h p] 6 = st'" using stage_status(1) [OF old(3) assms(2)] assms(3) h by auto
    show "get_status [h (a + 1)] 4 = dirtied dirty"
      using old h stage_status(2) [of "f (a + 1)" 1 2] by (simp add: dirtied_def)
  qed (use h in simp)
qed

text \<open>The store after one stage of a node, and what else \<open>del_env\<close> does.\<close>

definition marked :: "store \<Rightarrow> nat \<Rightarrow> node list \<Rightarrow> node \<Rightarrow> node list \<Rightarrow> store" where
  "marked S i pre n post = S[i := (fst (S ! i), dirtied (fst (snd (S ! i))), pre @ n # post)]"

lemma sector_of_inside: "i < 4 \<Longrightarrow> sector_addr i \<le> p \<Longrightarrow> p < sector_addr i + SECTOR_SIZE \<Longrightarrow> sector_of p = sector_addr i"
  by (rule sector_of_in) (simp_all add: sector_addr_small)

lemma update_env_cache_table:
  "env_cache_table (update_env_cache key p (s\<lparr>flash := f, chip_ops := n\<rparr>)) = env_cache_table (update_env_cache key p s)"
  "env_cache_table (update_env_cache key p (update_sector_cache b e s)) = env_cache_table (update_env_cache key p s)"
  by (simp_all add: update_env_cache_def Let_def case_prod_beta)

lemma mark_deleted_store:
  assumes w: "good_chip w" and S: "store_at (flash s) S" and i: "i < 4" "nodes (S ! i) = pre @ (st, k, v) # post"
    and p: "env_start env = log_end (sector_addr i + 16) pre" and st: "st < st'" "st' = (if complete then 4 else 3)"
  shows "\<exists>s'. mark_deleted w (Some key) env complete s = (EF_NO_ERR, s') \<and>
    store_at (flash s') (marked S i pre (st', k, v) post) \<and>
    sector_cache_table s' = sector_cache_table s \<and> gc_request s' = gc_request s \<and> env_init_ok s' = env_init_ok s \<and>
    last_is_complete_del s' = (\<not> complete) \<and>
    entries s' = (if complete \<and> \<not> last_is_complete_del s then entries (update_env_cache key FAILED_ADDR s) else entries s)"
proof -
  let ?a = "sector_addr i" and ?p = "env_start env" and ?d = "fst (snd (S ! i))"
  let ?g = "program (\<lambda>_. 0) ?p [stage_byte st'] (flash s)"
  let ?h = "if ?d = 1 then program (\<lambda>_. 0) (?a + 1) [stage_byte 2] ?g else ?g"
  have "sector_at (flash s) ?a (fst (S ! i), ?d, pre @ (st, k, v) # post)"
    using S i by (metis prod.collapse store_at_def)
  note m = sector_at_marked [OF this st(1) _ p refl refl]
  have st': "st' = 3 \<or> st' = 4" using st(2) by auto
  note m = m [OF st']
  have store: "store_at ?h (marked S i pre (st', k, v) post)"
    unfolding marked_def using S i(1) m(1,5) by (rule store_at_update)
  have a: "sector_of ?p = ?a" using i(1) m(3,4) by (intro sector_of_inside) simp_all
  have rd: "read_status (?a + 1) 4 s' = ?d" if "flash s' = ?g" for s' :: easyflash
  proof -
    have "ef_port_read (?a + 1) 1 s' = [?g (?a + 1)]" using that by (intro nth_equalityI) simp_all
    then show ?thesis using m(2) by (simp add: read_status_def STATUS_TABLE_SIZE_def)
  qed
  show ?thesis
  proof (cases complete)
    case True
    then show ?thesis
      using st(2) w a rd store
      by (cases "?d = 1") (auto simp: mark_deleted_def write_status_simps Let_def entries_def update_env_cache_table)
  next
    case False
    then show ?thesis
      using st(2) w a rd store by (cases "?d = 1") (auto simp: mark_deleted_def write_status_simps Let_def entries_def)
  qed
qed

section \<open>A new node\<close>

lemma update_sector_cache_table:
  "sector_cache_table (update_sector_cache p q (s\<lparr>flash := f, chip_ops := n\<rparr>)) = sector_cache_table (update_sector_cache p q s)"
  by (simp add: update_sector_cache_def split: prod.split option.split bool.split)

text \<open>On a chip that works the statements of \<open>write_node\<close> all run.\<close>

lemma align_write_good:
  "good_chip w \<Longrightarrow> align_write w a bs s = (EF_NO_ERR, s\<lparr>flash := program (\<lambda>_. 0) a bs (flash s),
      chip_ops := (if bs = [] then chip_ops s else Suc (chip_ops s))\<rparr>)"
  by (simp add: align_write_def)

lemma write_node_runs:
  assumes w: "good_chip w" and u: "update_sec_status w sector (env_size_of key value) s = (is_full, EF_NO_ERR, s0)"
    and a: "sec_addr sector < a" and r: "r = write_node w sector a key value s"
  shows "fst r = EF_NO_ERR" "flash (snd r) (sec_addr sector) = flash s0 (sec_addr sector)"
    "sector_cache_table (snd r) =
      sector_cache_table (if is_full then s0 else update_sector_cache (sec_addr sector) (a + env_size_of key value) s0)"
    "entries (snd r) = entries (update_env_cache key a s0)" "gc_request (snd r) = (is_full \<or> gc_request s0)"
    "env_init_ok (snd r) = env_init_ok s0" "last_is_complete_del (snd r) = last_is_complete_del s0"
proof -
  have e: "a + 24 + length key + length value = a + env_size_of key value" by (simp add: env_size_of_def)
  note run = write_node_def write_env_hdr_def write_status_pre_write write_status_simps align_write_good [OF w]
    Let_def u e entries_def
  have *: "x < b \<Longrightarrow> program m b bs f x = f x" for x b m bs f by (simp add: program_other)
  show "fst r = EF_NO_ERR" using w unfolding r by (simp add: run)
  show "flash (snd r) (sec_addr sector) = flash s0 (sec_addr sector)" using w a unfolding r by (simp add: run *)
  show "sector_cache_table (snd r) =
      sector_cache_table (if is_full then s0 else update_sector_cache (sec_addr sector) (a + env_size_of key value) s0)"
    using w unfolding r by (simp add: run update_sector_cache_table)
  show "entries (snd r) = entries (update_env_cache key a s0)"
    using w unfolding r by (simp add: run update_env_cache_table)
  show "gc_request (snd r) = (is_full \<or> gc_request s0)" "env_init_ok (snd r) = env_init_ok s0"
    "last_is_complete_del (snd r) = last_is_complete_del s0"
    using w unfolding r by (simp_all add: run)
qed

text \<open>A sector is full when too little of it is left.\<close>

definition fills :: "nat \<Rightarrow> sector \<Rightarrow> bool" where
  "fills size' T \<longleftrightarrow> fst T = SECTOR_STORE_USING \<and> SECTOR_SIZE - log_end 16 (nodes T) - size' < EF_SEC_REMAIN_THRESHOLD"

definition grown :: "sector \<Rightarrow> uint8 list \<Rightarrow> uint8 list \<Rightarrow> sector" where
  "grown T key value = (if fills (env_size_of key value) T then SECTOR_STORE_FULL else SECTOR_STORE_USING,
     fst (snd T), nodes T @ [(ENV_WRITE, key, value)])"

text \<open>What a sector that was read with traversal says of itself.\<close>

definition known_sector :: "sector_meta_data \<Rightarrow> nat \<Rightarrow> sector \<Rightarrow> bool" where
  "known_sector m b T \<longleftrightarrow> sec_addr m = b \<and> sec_store m = fst T \<and> remain m = SECTOR_SIZE - log_end 16 (nodes T)"

lemma update_sec_status_sector:
  assumes w: "good_chip w" and T: "sector_at (flash s) b T" "fst T \<noteq> SECTOR_STORE_FULL" "has_room n T"
    and m: "known_sector m b T"
  shows "\<exists>s0. update_sec_status w m n s = (fills n T, EF_NO_ERR, s0) \<and>
    get_status [flash s0 b] 4 = (if fills n T then 3 else 2) \<and> (\<forall>x. x \<noteq> b \<longrightarrow> flash s0 x = flash s x) \<and>
    sector_cache_table s0 = sector_cache_table (if fills n T then update_sector_cache b (b + SECTOR_SIZE) s else s) \<and>
    env_cache_table s0 = env_cache_table s \<and> gc_request s0 = gc_request s \<and> env_init_ok s0 = env_init_ok s \<and>
    last_is_complete_del s0 = last_is_complete_del s"
proof -
  obtain store dirty ns where U: "T = (store, dirty, ns)" by (cases T)
  have st: "get_status [flash s b] 4 = store" "store = 1 \<or> store = 2" using T(1,2) U by (auto simp: sector_at_def)
  let ?r = "SECTOR_SIZE - log_end 16 ns"
  have room: "n < ?r" using T(3) U by (simp add: has_room_def)
  have "sub32 ?r n = ?r - n" using room by (intro sub32_le) (simp_all add: SECTOR_SIZE_def)
  then have full: "(?r < 56 \<or> sub32 ?r n < 56) = (?r - n < 56)" by auto
  have 1: "get_status [flash s b AND stage_byte 2] 4 = 2" if "store = 1" using st that by (intro stage_status) auto
  have 2: "get_status [flash s b AND stage_byte 3] 4 = 3" if "store = 2" using st that by (intro stage_status) auto
  have p: "program (\<lambda>_. 0) b [y] f x = (if x = b then f x AND y else f x)" for x y f by (auto simp: program_def)
  show ?thesis
    using st(2)
  proof
    assume "store = 1"
    then show ?thesis
      using w 1 U m by (simp add: update_sec_status_def known_sector_def fills_def write_status_simps p)
  next
    assume "store = 2"
    then show ?thesis
      using w 2 U m full st(1)
      by (cases "?r - n < 56")
        (simp_all add: update_sec_status_def known_sector_def fills_def write_status_simps p update_sector_cache_table Let_def)
  qed
qed

lemma write_node_store:
  assumes w: "good_chip w" and fit: "env_fits key value" and S: "store_at (flash s) S" and j: "j < 4"
    and T: "fst (S ! j) \<noteq> SECTOR_STORE_FULL" "has_room (env_size_of key value) (S ! j)"
    and m: "known_sector m (sector_addr j) (S ! j)"
  defines "full \<equiv> fills (env_size_of key value) (S ! j)"
  shows "\<exists>s'. write_node w m (free_addr j (S ! j)) key value s = (EF_NO_ERR, s') \<and>
    store_at (flash s') (S[j := grown (S ! j) key value]) \<and>
    sector_cache_table s' = sector_cache_table (update_sector_cache (sector_addr j)
      (if full then sector_addr j + SECTOR_SIZE else free_addr j (S ! j) + env_size_of key value) s) \<and>
    entries s' = entries (update_env_cache key (free_addr j (S ! j)) s) \<and> gc_request s' = (full \<or> gc_request s) \<and>
    env_init_ok s' = env_init_ok s \<and> last_is_complete_del s' = last_is_complete_del s"
proof -
  let ?b = "sector_addr j" and ?n = "env_size_of key value" and ?a = "free_addr j (S ! j)"
  obtain store dirty ns where U: "S ! j = (store, dirty, ns)" by (cases "S ! j")
  have at: "sector_at (flash s) ?b (store, dirty, ns)" using S j U by (metis store_at_def)
  have log: "sector_log (flash s) ?b ns" using at by (simp add: sector_at_def)
  have a: "?a = log_end (?b + 16) ns" "?a = ?b + log_end 16 ns" using U by (simp_all add: free_addr_def log_end_add)
  have ba: "?b + 16 \<le> ?a" using a(1) log_end_ge by simp
  have e: "?a + ?n < ?b + SECTOR_SIZE" using T(2) U a(2) by (simp add: has_room_def less_diff_conv add.commute)
  have free: "erased (flash s) ?a (?b + SECTOR_SIZE)" using log a(1) by (simp add: sector_log_def)
  obtain s0 where u: "update_sec_status w m ?n s = (full, EF_NO_ERR, s0)"
    "get_status [flash s0 ?b] 4 = (if full then 3 else 2)"
    "sector_cache_table s0 = sector_cache_table (if full then update_sector_cache ?b (?b + SECTOR_SIZE) s else s)"
    "env_cache_table s0 = env_cache_table s" "gc_request s0 = gc_request s" "env_init_ok s0 = env_init_ok s"
    "last_is_complete_del s0 = last_is_complete_del s"
    using update_sec_status_sector [OF w _ T(1,2) m] at U unfolding full_def by auto
  have ad: "sec_addr m = ?b" using m by (simp add: known_sector_def)
  define r where "r = write_node w m ?a key value s"
  note runs = write_node_runs [OF w u(1) _ r_def, unfolded ad]
  have lt: "?b < ?a" using ba by simp
  note runs = runs [OF lt]
  have er: "erased (flash s) ?a (?a + ?n)" using free e by (auto intro: erased_sub)
  have "outcome (\<lambda>s'. node_at (flash s') ?a 2 key value \<and> same_outside ?b ?a (?a + ?n) (flash s) (flash s'))
      (\<lambda>s'. torn_or_whole (flash s') ?a key value \<and> same_outside ?b ?a (?a + ?n) (flash s) (flash s')) r"
    using write_node_outcome [OF fit er, of m w] lt unfolding r_def ad by simp
  then have node: "node_at (flash (snd r)) ?a 2 key value"
    and same: "flash (snd r) x = flash s x" if "x \<noteq> ?b" "x < ?a \<or> ?a + ?n \<le> x" for x
    using runs(1) that by (auto simp: outcome_def same_outside_def)
  have node: "node_at (flash (snd r)) ?a 2 key value"
    using \<open>outcome _ _ r\<close> runs(1) by (auto simp: outcome_def)
  let ?f = "flash (snd r)" and ?T = "grown (S ! j) key value"
  have "log_at ?f (?b + 16) ns \<longleftrightarrow> log_at (flash s) (?b + 16) ns"
    using a(1) by (intro log_at_cong same) auto
  moreover have "erased ?f (?a + ?n) (?b + SECTOR_SIZE)" using free same lt by (auto simp: erased_def)
  ultimately have "sector_log ?f ?b (ns @ [(2, key, value)])"
    using log node a(1) e by (simp add: sector_log_def log_at_append)
  moreover have "bytes_at ?f (?b + 4) bs \<longleftrightarrow> bytes_at (flash s) (?b + 4) bs" if "length bs = 8" for bs
    using that ba by (intro bytes_at_cong same) auto
  moreover have "?f (?b + 1) = flash s (?b + 1)" using ba by (intro same) auto
  moreover have "get_status [?f ?b] 4 = (if full then 3 else 2)" using runs(2) u(2) by simp
  ultimately have "sector_at ?f ?b ?T" using at U unfolding full_def by (simp add: sector_at_def grown_def)
  moreover have "?f x = flash s x" if "x < ?b \<or> ?b + SECTOR_SIZE \<le> x" for x
    using that lt e by (intro same) (auto simp: SECTOR_SIZE_def)
  ultimately have "store_at ?f (S[j := ?T])" by (rule store_at_update [OF S j])
  moreover have "entries (snd r) = entries (update_env_cache key ?a s)"
    using runs(4) u(4) by (simp add: entries_def update_env_cache_def Let_def case_prod_beta)
  moreover have "sector_cache_table (snd r) = sector_cache_table (update_sector_cache ?b
      (if full then ?b + SECTOR_SIZE else ?a + ?n) s)"
    using runs(3) u(3) by (cases full) (simp_all add: update_sector_cache_def split: prod.split option.split bool.split)
  ultimately show ?thesis
    using runs u unfolding r_def [symmetric] by (intro exI [of _ "snd r"] conjI prod_eqI) simp_all
qed

section \<open>The look-up in a changed store\<close>

definition live_of :: "node list \<Rightarrow> uint8 list list" where
  "live_of ns = map (\<lambda>n. fst (snd n)) (filter (\<lambda>n. fst n = ENV_WRITE) ns)"

definition live_keys :: "store \<Rightarrow> uint8 list list" where
  "live_keys S = concat (map (\<lambda>T. live_of (nodes T)) S)"

text \<open>No key has two valid nodes.\<close>

definition live_once :: "store \<Rightarrow> bool" where
  "live_once S \<longleftrightarrow> distinct (live_keys S)"

lemma live_of_simps [simp]: "live_of [] = []" "live_of (ns @ ms) = live_of ns @ live_of ms"
  "live_of ((st, k, v) # ns) = (if st = 2 then [k] else []) @ live_of ns"
  by (simp_all add: live_of_def)

lemma log_lookup_None: "log_lookup key a ns = None \<longleftrightarrow> key \<notin> set (live_of ns)"
  by (induction key a ns rule: log_lookup.induct) auto

lemma lookup_from_None: "lookup_from key i S = None \<longleftrightarrow> key \<notin> set (live_keys S)"
proof (induction S arbitrary: i)
  case (Cons T S)
  show ?case
    using Cons.IH [of "Suc i"] log_lookup_None [of key "sector_addr i + 16" "nodes T"]
    by (cases "log_lookup key (sector_addr i + 16) (nodes T)") (auto simp: live_keys_def)
qed (simp add: live_keys_def)

lemma store_lookup_None: "store_lookup key S = None \<longleftrightarrow> key \<notin> set (live_keys S)"
  by (simp add: store_lookup_def lookup_from_None)

lemma log_lookup_append: "log_lookup key a (ns @ ms) =
    (case log_lookup key a ns of Some p \<Rightarrow> Some p | None \<Rightarrow> log_lookup key (log_end a ns) ms)"
  by (induction key a ns rule: log_lookup.induct) (auto split: option.split)

lemma lookup_from_update:
  "j < length S \<Longrightarrow> log_lookup key (sector_addr (i + j) + 16) (nodes T) = log_lookup key (sector_addr (i + j) + 16) (nodes (S ! j)) \<Longrightarrow>
    lookup_from key i (S[j := T]) = lookup_from key i S"
proof (induction S arbitrary: i j)
  case (Cons U S)
  show ?case
  proof (cases j)
    case (Suc k)
    then show ?thesis
      using Cons.IH [of k "Suc i"] Cons.prems by (cases "log_lookup key (sector_addr i + 16) (nodes U)") simp_all
  qed (use Cons.prems in simp)
qed simp

lemma store_lookup_update:
  "j < length S \<Longrightarrow> log_lookup key (sector_addr j + 16) (nodes T) = log_lookup key (sector_addr j + 16) (nodes (S ! j)) \<Longrightarrow>
    store_lookup key (S[j := T]) = store_lookup key S"
  by (simp add: store_lookup_def lookup_from_update)

lemma lookup_from_first:
  "j < length S \<Longrightarrow> log_lookup key (sector_addr (i + j) + 16) (nodes (S ! j)) = Some p \<Longrightarrow>
    \<forall>h < j. log_lookup key (sector_addr (i + h) + 16) (nodes (S ! h)) = None \<Longrightarrow> lookup_from key i S = Some p"
proof (induction S arbitrary: i j)
  case (Cons U S)
  show ?case
  proof (cases j)
    case (Suc k)
    have "log_lookup key (sector_addr i + 16) (nodes U) = None" using Cons.prems(3) Suc by force
    moreover have "\<forall>h < k. log_lookup key (sector_addr (Suc i + h) + 16) (nodes (S ! h)) = None"
      using Cons.prems(3) Suc by (metis Suc_less_eq add_Suc_shift nth_Cons_Suc)
    ultimately show ?thesis using Cons.IH [of k "Suc i"] Cons.prems Suc by simp
  qed (use Cons.prems in simp)
qed simp

lemma live_keys_split:
  assumes "j < length S"
  obtains xs ys where "live_keys S = xs @ live_of (nodes (S ! j)) @ ys"
    "\<And>T. live_keys (S[j := T]) = xs @ live_of (nodes T) @ ys"
proof
  have "live_keys (take j S @ S ! j # drop (Suc j) S) =
      live_keys (take j S) @ live_of (nodes (S ! j)) @ live_keys (drop (Suc j) S)"
    by (simp add: live_keys_def)
  then show "live_keys S = live_keys (take j S) @ live_of (nodes (S ! j)) @ live_keys (drop (Suc j) S)"
    unfolding id_take_nth_drop [OF assms, symmetric] .
  show "live_keys (S[j := T]) = live_keys (take j S) @ live_of (nodes T) @ live_keys (drop (Suc j) S)" for T
    using assms by (simp add: live_keys_def upd_conv_take_nth_drop)
qed

lemma live_in_sector: "j < length S \<Longrightarrow> set (live_of (nodes (S ! j))) \<subseteq> set (live_keys S)"
  by (auto simp: live_keys_def intro!: bexI [of _ "S ! j"])

text \<open>A stage of a node other than the valid one hides its key; one of an invalid node changes nothing.\<close>

lemma marked_lookup:
  assumes "i < length S" "nodes (S ! i) = pre @ (st, k, v) # post" "st' \<noteq> ENV_WRITE"
  shows "key \<noteq> k \<or> st \<noteq> ENV_WRITE \<Longrightarrow> store_lookup key (marked S i pre (st', k, v) post) = store_lookup key S"
    "live_once S \<Longrightarrow> live_once (marked S i pre (st', k, v) post)"
    "live_once S \<Longrightarrow> st = ENV_WRITE \<Longrightarrow> store_lookup k (marked S i pre (st', k, v) post) = None"
proof -
  obtain xs ys where l: "live_keys S = xs @ live_of (nodes (S ! i)) @ ys"
    "\<And>T. live_keys (S[i := T]) = xs @ live_of (nodes T) @ ys"
    using live_keys_split [OF assms(1)] by blast
  show "key \<noteq> k \<or> st \<noteq> ENV_WRITE \<Longrightarrow> store_lookup key (marked S i pre (st', k, v) post) = store_lookup key S"
    using assms unfolding marked_def by (intro store_lookup_update) (auto simp: log_lookup_append split: option.split)
  show "live_once S \<Longrightarrow> live_once (marked S i pre (st', k, v) post)"
    using assms l by (auto simp: live_once_def marked_def)
  show "live_once S \<Longrightarrow> st = ENV_WRITE \<Longrightarrow> store_lookup k (marked S i pre (st', k, v) post) = None"
    using assms l by (auto simp: live_once_def marked_def store_lookup_None)
qed

lemma marked_nth: "marked S i pre n post ! h =
    (if h = i \<and> i < length S then (fst (S ! i), dirtied (fst (snd (S ! i))), pre @ n # post) else S ! h)"
  by (cases "i < length S") (auto simp: marked_def nth_list_update list_update_beyond)

lemma marked_sectors:
  assumes "nodes (S ! i) = pre @ (st, k, v) # post"
  shows "length (marked S i pre (st', k, v) post) = length S"
    "fst (marked S i pre (st', k, v) post ! h) = fst (S ! h)"
    "log_end a (nodes (marked S i pre (st', k, v) post ! h)) = log_end a (nodes (S ! h))"
    "has_room n (S ! h) \<Longrightarrow> has_room n (marked S i pre (st', k, v) post ! h)"
proof -
  show "length (marked S i pre (st', k, v) post) = length S" by (simp add: marked_def)
  show "fst (marked S i pre (st', k, v) post ! h) = fst (S ! h)" by (simp add: marked_nth)
  show e: "log_end a (nodes (marked S i pre (st', k, v) post ! h)) = log_end a (nodes (S ! h))" for a
    using assms by (simp add: marked_nth)
  show "has_room n (S ! h) \<Longrightarrow> has_room n (marked S i pre (st', k, v) post ! h)"
    using e [of 16] by (auto simp: has_room_def marked_nth dirtied_def split: if_splits)
qed

lemma marked_map_fst: "map fst (marked S i pre n post) = map fst S"
  by (cases "i < length S") (simp_all add: marked_def map_update list_update_same_conv list_update_beyond)

lemma empties_map: "map fst S = map fst S' \<Longrightarrow> empties S = empties S'"
proof -
  have "empties S = length (filter (\<lambda>st. st = 1) (map fst S))" for S :: store
    by (simp add: empties_def filter_map comp_def)
  then show "map fst S = map fst S' \<Longrightarrow> ?thesis" by metis
qed

lemma empties_update: "fst (S ! j) = 2 \<Longrightarrow> fst T \<noteq> 1 \<Longrightarrow> empties (S[j := T]) = empties S"
proof (induction S arbitrary: j)
  case (Cons U S)
  then show ?case by (cases j) (simp_all add: empties_def)
qed simp

text \<open>The new node is the valid one of its key.\<close>

lemma grown_lookup:
  assumes "j < length S" "store_lookup key S = None"
  shows "k \<noteq> key \<Longrightarrow> store_lookup k (S[j := grown (S ! j) key value]) = store_lookup k S"
    "store_lookup key (S[j := grown (S ! j) key value]) = Some (free_addr j (S ! j), value)"
    "live_once S \<Longrightarrow> live_once (S[j := grown (S ! j) key value])"
proof -
  let ?S = "S[j := grown (S ! j) key value]"
  obtain xs ys where l: "live_keys S = xs @ live_of (nodes (S ! j)) @ ys"
    "\<And>T. live_keys (S[j := T]) = xs @ live_of (nodes T) @ ys"
    using live_keys_split [OF assms(1)] by blast
  have none: "log_lookup key a (nodes (S ! h)) = None" if "h < length S" for a h
    using live_in_sector [OF that] assms(2) by (auto simp: log_lookup_None store_lookup_None)
  show "k \<noteq> key \<Longrightarrow> store_lookup k ?S = store_lookup k S"
    using assms(1) by (intro store_lookup_update) (auto simp: grown_def log_lookup_append split: option.split)
  show "live_once S \<Longrightarrow> live_once ?S"
    using l assms(2) by (auto simp: live_once_def grown_def store_lookup_None)
  show "store_lookup key ?S = Some (free_addr j (S ! j), value)"
    unfolding store_lookup_def
  proof (rule lookup_from_first)
    show "log_lookup key (sector_addr (0 + j) + 16) (nodes (?S ! j)) = Some (free_addr j (S ! j), value)"
      using none [of j] assms(1) by (simp add: grown_def log_lookup_append free_addr_def)
  qed (use assms(1) none in auto)
qed

end
