(* ===== verification/EnvMap.thy ===== *)
theory EnvMap
  imports EnvUpdate
begin

text \<open>
  The key/value store refines a map: \<open>ef_set_env_blob\<close> updates it at the key, or removes the key, and both
  caches stay right. The state is \<open>ready\<close> between two calls.
\<close>

section \<open>Both caches after a change\<close>

lemma sector_cache_grown:
  assumes "sector_cache_ok s S" "sectors_once (sector_cache_table s)" "j < 4"
    "\<And>i. i < 4 \<Longrightarrow> i \<noteq> j \<Longrightarrow> free_addr i (S' ! i) = free_addr i (S ! i)"
    "sector_addr j < e" "e < sector_addr j + SECTOR_SIZE \<Longrightarrow> e = free_addr j (S' ! j)"
  shows "sector_cache_ok (update_sector_cache (sector_addr j) e s) S'"
    "sectors_once (sector_cache_table (update_sector_cache (sector_addr j) e s))"
proof -
  let ?a = "sector_addr j" and ?s = "update_sector_cache (sector_addr j) e s"
  have a: "?a \<noteq> FAILED_ADDR" using assms(3) by (rule sector_addr_small)
  have old: "\<exists>i < 4. sc_addr n = sector_addr i \<and> empty_addr n = free_addr i (S' ! i)"
    if "n \<in> set (sector_cache_table s)" "sc_addr n \<noteq> FAILED_ADDR" "sc_addr n \<noteq> ?a" for n
    using that assms(1,4) unfolding sector_cache_ok_def by fastforce
  show "sectors_once (sector_cache_table ?s)"
    using sectors_once_inside [OF assms(2) a assms(5)] update_sector_cache_outside(1) [OF assms(2) a, of e]
    by blast
  show "sector_cache_ok ?s S'"
    unfolding sector_cache_ok_def
  proof (intro ballI impI)
    fix n assume n: "n \<in> set (sector_cache_table ?s)" "sc_addr n \<noteq> FAILED_ADDR"
    show "\<exists>i < 4. sc_addr n = sector_addr i \<and> empty_addr n = free_addr i (S' ! i)"
    proof (cases "e < ?a + SECTOR_SIZE")
      case True
      then show ?thesis
        using update_sector_cache_inside [OF assms(2) a assms(5) True n] old n(2) assms(3,6) by auto
    next
      case False
      then show ?thesis using update_sector_cache_outside(2) [OF assms(2) a _ n] old n(2) by auto
    qed
  qed
qed

lemma entries_set:
  assumes "\<forall>x \<in> set (entries s). entry_ok S x" "entries_once (entries s)" "told_apart key S"
    "\<And>k. k \<noteq> key \<Longrightarrow> store_lookup k S' = store_lookup k S"
    "p \<noteq> FAILED_ADDR \<Longrightarrow> \<exists>value. store_lookup key S' = Some (p, value)"
    "x \<in> set (entries (update_env_cache key p s))"
  shows "entry_ok S' x"
proof -
  consider "x = (env_name_crc key, p)" | "x \<in> set (entries s)" "fst x = env_name_crc key \<longrightarrow> snd x = FAILED_ADDR"
    using update_env_cache_entries(2) [OF assms(2,6)] by blast
  then show ?thesis
  proof cases
    case 1
    then show ?thesis using assms(5) by (auto simp: entry_ok_def)
  next
    case 2
    show ?thesis
    proof (cases "snd x = FAILED_ADDR")
      case False
      have "entry_ok S x" using assms(1) 2(1) by blast
      then obtain k v where k: "store_lookup k S = Some (snd x, v)" "env_name_crc k = fst x"
        using False by (cases x) (auto simp: entry_ok_def)
      then have "k \<noteq> key" using 2(2) False by auto
      then have "store_lookup k S' = Some (snd x, v)" using assms(4) k(1) by simp
      then show ?thesis using k(2) by (cases x) (simp add: entry_ok_def, blast)
    qed (auto simp: entry_ok_def)
  qed
qed

section \<open>Between two calls\<close>

text \<open>No node is half way through a change, and no sector through a garbage collection.\<close>

definition settled :: "store \<Rightarrow> bool" where
  "settled S \<longleftrightarrow> (\<forall>T \<in> set S. fst (snd T) \<noteq> SECTOR_DIRTY_GC \<and> fst ` set (nodes T) \<subseteq> {ENV_WRITE, ENV_DELETED})"

lemma settled_update:
  assumes "settled S" "fst (snd T) \<noteq> SECTOR_DIRTY_GC" "fst ` set (nodes T) \<subseteq> {ENV_WRITE, ENV_DELETED}"
  shows "settled (S[i := T])"
  using assms set_update_subset_insert [of S i T] unfolding settled_def by blast

lemma settled_grown: "settled S \<Longrightarrow> j < length S \<Longrightarrow> settled (S[j := grown (S ! j) key value])"
  by (rule settled_update) (auto simp: settled_def grown_def)

lemma settled_marked:
  assumes "settled S" "i < length S" "nodes (S ! i) = pre @ n # post" "n' = (ENV_DELETED, k, v)"
  shows "settled (marked S i pre n' post)"
proof -
  have "S ! i \<in> set S" using assms(2) by simp
  then have "fst (snd (S ! i)) \<noteq> 3 \<and> fst ` set (nodes (S ! i)) \<subseteq> {2, 4}" using assms(1) unfolding settled_def by blast
  then show ?thesis
    using assms unfolding marked_def by (intro settled_update) (auto simp: dirtied_def)
qed

definition ready :: "easyflash \<Rightarrow> store \<Rightarrow> bool" where
  "ready s S \<longleftrightarrow> tidy s S \<and> env_cache_ok s S \<and> entries_once (entries s) \<and> live_once S \<and> settled S \<and>
     \<not> gc_request s \<and> env_init_ok s \<and> \<not> last_is_complete_del s"

lemma ready_holds: "ready s S \<Longrightarrow> holds_store s S"
  by (simp add: ready_def tidy_def holds_store_def)

text \<open>There is a place for a new node, and no garbage collection is due after it.\<close>

definition room_for :: "store \<Rightarrow> uint8 list \<Rightarrow> uint8 list \<Rightarrow> bool" where
  "room_for S key value \<longleftrightarrow> env_fits key value \<and>
     (case chosen S (env_size_of key value) of
        None \<Rightarrow> False
      | Some j \<Rightarrow> fills (env_size_of key value) (S ! j) \<longrightarrow> EF_GC_EMPTY_SEC_THRESHOLD < empties S)"

lemma gc_collect_idle:
  assumes "store_at (flash s) S" "1 < empties S"
  shows "gc_collect w s = Some (s\<lparr>gc_request := False\<rparr>)"
proof -
  have c: "gc_check_cb (meta_of m a T) x s = Some (False, Suc x, s)" for m a T x
    by (simp add: gc_check_cb_def)
  have "fold (\<lambda>T. Suc) (filter (\<lambda>T. fst T = 1) S) 0 = empties S" for S :: store
  proof -
    have "fold (\<lambda>T. Suc) xs n = n + length xs" for xs :: store and n by (induction xs arbitrary: n) simp_all
    then show ?thesis by (simp add: empties_def)
  qed
  moreover have "filter (\<lambda>T. SECTOR_STORE_EMPTY = SECTOR_STORE_UNUSED \<or> SECTOR_STORE_EMPTY = fst T) S = filter (\<lambda>T. fst T = 1) S"
    by (rule filter_cong) auto
  ultimately obtain m where "sector_iterator w (sector_uninit w) SECTOR_STORE_EMPTY gc_check_cb False 0 s = Some (m, empties S, s)"
    using sector_loop_count [where cb = gc_check_cb and h = "\<lambda>T. Suc" and i = 0 and s = s and status = 1 and w = w and x = 0
        and m = "(sector_uninit w)\<lparr>sec_addr := FAILED_ADDR\<rparr>",
        OF conjunct1 [OF store_headers [OF assms(1)]] conjunct2 [OF store_headers [OF assms(1)]] c] next_sector(2)
    by (auto simp: sector_iterator_def)
  then show ?thesis using assms(2) by (simp add: gc_collect_def)
qed

section \<open>Putting a node\<close>

lemma put_node:
  assumes w: "good_chip w" and s: "tidy s S" and fit: "env_fits key value" and j: "j < 4"
    and T: "fst (S ! j) \<noteq> SECTOR_STORE_FULL" "has_room (env_size_of key value) (S ! j)"
    and m: "known_sector m (sector_addr j) (S ! j)"
  obtains s' where "write_node w m (free_addr j (S ! j)) key value s = (EF_NO_ERR, s')"
    "tidy s' (S[j := grown (S ! j) key value])"
    "entries s' = entries (update_env_cache key (free_addr j (S ! j)) s)"
    "gc_request s' = (fills (env_size_of key value) (S ! j) \<or> gc_request s)" "env_init_ok s' = env_init_ok s"
    "last_is_complete_del s' = last_is_complete_del s"
proof -
  let ?b = "sector_addr j" and ?a = "free_addr j (S ! j)" and ?n = "env_size_of key value"
  let ?e = "if fills ?n (S ! j) then ?b + SECTOR_SIZE else ?a + ?n" and ?S = "S[j := grown (S ! j) key value]"
  have S: "store_at (flash s) S" "sector_cache_ok s S" "sectors_once (sector_cache_table s)"
    using s by (simp_all add: tidy_def)
  have len: "length S = 4" using S(1) by (simp add: store_at_def)
  obtain s' where s': "write_node w m ?a key value s = (EF_NO_ERR, s')" "store_at (flash s') ?S"
    "sector_cache_table s' = sector_cache_table (update_sector_cache ?b ?e s)"
    "entries s' = entries (update_env_cache key ?a s)" "gc_request s' = (fills ?n (S ! j) \<or> gc_request s)"
    "env_init_ok s' = env_init_ok s" "last_is_complete_del s' = last_is_complete_del s"
    using write_node_store [OF w fit S(1) j T m] by blast
  have ge: "?b + 16 \<le> ?a" using log_end_ge by (simp add: free_addr_def)
  have "free_addr j (?S ! j) = ?a + ?n" using j len by (simp add: free_addr_def grown_def)
  then have e: "?b < ?e" "?e < ?b + SECTOR_SIZE \<Longrightarrow> ?e = free_addr j (?S ! j)"
    using ge by (simp_all add: SECTOR_SIZE_def split: if_splits)
  have "sector_cache_ok (update_sector_cache ?b ?e s) ?S" "sectors_once (sector_cache_table (update_sector_cache ?b ?e s))"
    by (rule sector_cache_grown [OF S(2,3) j _ e]; simp)+
  then have "tidy s' ?S" using s'(2,3) by (simp add: tidy_def sector_cache_ok_def)
  then show ?thesis using s' that by blast
qed

lemma known_traversed: "fst T \<noteq> SECTOR_STORE_FULL \<Longrightarrow> known_sector (traversed m b T) b T"
  by (simp add: known_sector_def traversed_def)

lemma create_blob_known:
  assumes "env_fits key value" "empty_env m \<noteq> FAILED_ADDR"
  shows "create_env_blob w m key value s = (case write_node w m (empty_env m) key value s of (r, s') \<Rightarrow> Some (r, m, s'))"
  using assms by (simp add: create_env_blob_def env_fits_def)

lemma new_env_chosen:
  assumes "tidy s S" "\<not> gc_request s" "chosen S (env_size_of key value) = Some j"
  obtains m t where "tidy (s\<lparr>sector_cache_table := t\<rparr>) S" "empty_env m = free_addr j (S ! j)"
    "free_addr j (S ! j) \<noteq> FAILED_ADDR" "known_sector m (sector_addr j) (S ! j)"
    "new_env_by_kv w sector (length key) (length value) s = Some (free_addr j (S ! j), m, s\<lparr>sector_cache_table := t\<rparr>)"
proof -
  obtain m t where t: "tidy (s\<lparr>sector_cache_table := t\<rparr>) S" "alloc_env w sector (env_size_of key value) s =
      Some (free_addr j (S ! j), traversed m (sector_addr j) (S ! j), s\<lparr>sector_cache_table := t\<rparr>)"
    using alloc_env_chosen [OF assms] by blast
  have j: "j < 4" "fst (S ! j) \<noteq> 3" using chosen_Some [OF assms(3)] by auto
  have "free_addr j (S ! j) \<noteq> FAILED_ADDR" using free_addr_not_failed [of "flash s" S j] j(1) assms(1) by (simp add: tidy_def)
  then show ?thesis
    using t j(2) that [of t "traversed m (sector_addr j) (S ! j)"] known_traversed
    by (simp add: new_env_by_kv_def new_env_def env_size_of_def [symmetric] traversed_def free_addr_def)
qed

lemma gc_after:
  assumes "store_at (flash s) S" "gc_request s \<longrightarrow> 1 < empties S"
  shows "(if gc_request s then gc_collect w s else Some s) = Some (s\<lparr>gc_request := False\<rparr>)"
  using gc_collect_idle [OF assms(1)] assms(2) by simp

text \<open>The map of a store at one key.\<close>

lemma store_map_put:
  "store_lookup key S' = Some (p, value) \<Longrightarrow> (\<And>k. k \<noteq> key \<Longrightarrow> store_lookup k S' = store_lookup k S) \<Longrightarrow>
    store_map S' = (store_map S)(key \<mapsto> value)"
  by (rule ext) (simp add: store_map_def)

lemma store_map_remove:
  "store_lookup key S' = None \<Longrightarrow> (\<And>k. k \<noteq> key \<Longrightarrow> store_lookup k S' = store_lookup k S) \<Longrightarrow>
    store_map S' = (store_map S)(key := None)"
  by (rule ext) (simp add: store_map_def)

section \<open>Setting a key\<close>

lemma tidy_cong:
  "flash s' = flash s \<Longrightarrow> sector_cache_table s' = sector_cache_table s \<Longrightarrow> tidy s' S \<longleftrightarrow> tidy s S"
  by (simp add: tidy_def sector_cache_ok_def)

lemma set_env_new:
  assumes w: "good_chip w" and r: "ready s S" "told_apart key S" "room_for S key value" and none: "store_lookup key S = None"
  shows "\<exists>s' S'. set_env w key value s = Some (EF_NO_ERR, s') \<and> ready s' S' \<and> store_map S' = (store_map S)(key \<mapsto> value)"
proof -
  let ?n = "env_size_of key value"
  obtain j where j: "chosen S ?n = Some j" and fit: "env_fits key value" and gc: "fills ?n (S ! j) \<Longrightarrow> 1 < empties S"
    using r(3) by (auto simp: room_for_def split: option.splits)
  have j4: "j < 4" "fst (S ! j) \<noteq> 3" "has_room ?n (S ! j)" using chosen_Some [OF j] by auto
  let ?p = "free_addr j (S ! j)" and ?S = "S[j := grown (S ! j) key value]"
  have len: "j < length S" using r(1) j4(1) by (simp add: ready_def tidy_def store_at_def)
  have a: "tidy s S" "\<not> gc_request s" using r(1) by (simp_all add: ready_def)
  obtain m t where t: "tidy (s\<lparr>sector_cache_table := t\<rparr>) S" "empty_env m = ?p" "?p \<noteq> FAILED_ADDR"
    "known_sector m (sector_addr j) (S ! j)"
    "new_env_by_kv w (set_env_sector s) (length key) (length value) s = Some (?p, m, s\<lparr>sector_cache_table := t\<rparr>)"
    using new_env_chosen [OF a j, where w = w and sector = "set_env_sector s"] by blast
  let ?s = "s\<lparr>sector_cache_table := t\<rparr>"
  have h: "holds_store ?s S" "entries ?s = entries s"
    using r(1) t(1) by (simp_all add: ready_def holds_store_def tidy_def env_cache_ok_def entries_def)
  then obtain env where f: "find_env w key (set_env_env s) ?s = Some (False, env, ?s)"
    using find_env_lookup [OF h(1) r(2), where w = w and env = "set_env_env s"] none by auto
  obtain s' where s': "write_node w m ?p key value ?s = (EF_NO_ERR, s')" "tidy s' ?S"
    "entries s' = entries (update_env_cache key ?p ?s)" "gc_request s' = (fills ?n (S ! j) \<or> gc_request ?s)"
    "env_init_ok s' = env_init_ok ?s" "last_is_complete_del s' = last_is_complete_del ?s"
    using put_node [OF w t(1) fit j4 t(4)] by blast
  note look = grown_lookup [OF len none]
  have "\<forall>x \<in> set (entries ?s). entry_ok S x" "entries_once (entries ?s)"
    using h(1) by (simp_all add: holds_store_def env_cache_ok_entries)
  then have cache: "\<forall>x \<in> set (entries s'). entry_ok ?S x" "entries_once (entries s')"
    using entries_set [OF _ _ r(2), of ?s ?S ?p] look update_env_cache_entries(1) [of ?s key ?p] unfolding s'(3) by blast+
  have "empties ?S = empties S" if "fills ?n (S ! j)"
    using that by (intro empties_update) (auto simp: fills_def grown_def)
  then have g: "(if gc_request s' then gc_collect w s' else Some s') = Some (s'\<lparr>gc_request := False\<rparr>)"
    using s'(2,4) gc r(1) by (intro gc_after [of s' ?S]) (auto simp: tidy_def ready_def)
  let ?s' = "s'\<lparr>gc_request := False, set_env_env := env, set_env_sector := m\<rparr>"
  have "set_env w key value s = Some (EF_NO_ERR, ?s')"
    using t f s'(1) g create_blob_known [OF fit, of m w ?s] by (simp add: set_env_def)
  moreover have "ready ?s' ?S"
    using r(1) s' cache look(3) tidy_cong [of ?s' s' ?S] settled_grown [of S j] len
    by (simp add: ready_def env_cache_ok_entries) (simp add: entries_def)
  ultimately show ?thesis using store_map_put [OF look(2,1)] by blast
qed

text \<open>A key that is there: its old node goes through both stages, around the new one.\<close>

lemma tidy_marked:
  assumes "tidy s S" "nodes (S ! i) = pre @ (st, k, v) # post" "store_at (flash s') (marked S i pre (st', k, v) post)"
    "sector_cache_table s' = sector_cache_table s"
  shows "tidy s' (marked S i pre (st', k, v) post)"
proof -
  have "free_addr h (marked S i pre (st', k, v) post ! h) = free_addr h (S ! h)" for h
    using marked_sectors(3) [OF assms(2)] by (simp add: free_addr_def)
  then show ?thesis using assms(1,3,4) by (simp add: tidy_def sector_cache_ok_def)
qed

lemma marked_same:
  assumes "nodes (S ! i) = pre @ (st, k, v) # post"
  shows "free_addr j (marked S i pre (st', k, v) post ! h) = free_addr j (S ! h)"
    "known_sector m b (marked S i pre (st', k, v) post ! h) \<longleftrightarrow> known_sector m b (S ! h)"
    "fills n (marked S i pre (st', k, v) post ! h) \<longleftrightarrow> fills n (S ! h)"
  using marked_sectors(2,3) [OF assms] by (simp_all add: free_addr_def known_sector_def fills_def)

text \<open>The old node after the first stage and the new one.\<close>

lemma marked_grown_node:
  assumes "nodes (S ! i) = pre @ (st, k, v) # post" "i < length S"
  obtains post' where "nodes ((marked S i pre n post)[j := grown (marked S i pre n post ! j) key value] ! i) = pre @ n # post'"
  using assms by (cases "i = j") (auto simp: marked_nth grown_def marked_def)

text \<open>One stage of the node that \<open>find_env\<close> found.\<close>

lemma mark_stage:
  assumes w: "good_chip w" and s: "tidy s S" and i: "i < 4" "nodes (S ! i) = pre @ (st, k, v) # post"
    and p: "env_start env = log_end (sector_addr i + 16) pre" and st: "st < st'" "st' = (if complete then 4 else 3)"
  obtains s' where "mark_deleted w (Some key) env complete s = (EF_NO_ERR, s')" "tidy s' (marked S i pre (st', k, v) post)"
    "gc_request s' = gc_request s" "env_init_ok s' = env_init_ok s" "last_is_complete_del s' = (\<not> complete)"
    "entries s' = (if complete \<and> \<not> last_is_complete_del s then entries (update_env_cache key FAILED_ADDR s) else entries s)"
proof -
  have S: "store_at (flash s) S" using s by (simp add: tidy_def)
  obtain s' where s': "mark_deleted w (Some key) env complete s = (EF_NO_ERR, s')"
    "store_at (flash s') (marked S i pre (st', k, v) post)" "sector_cache_table s' = sector_cache_table s"
    "gc_request s' = gc_request s" "env_init_ok s' = env_init_ok s" "last_is_complete_del s' = (\<not> complete)"
    "entries s' = (if complete \<and> \<not> last_is_complete_del s then entries (update_env_cache key FAILED_ADDR s) else entries s)"
    using mark_deleted_store [OF w S i p st, of key] by blast
  show ?thesis using that [OF s'(1) tidy_marked [OF s i(2) s'(2,3)] s'(4-7)] .
qed

lemma find_ready:
  assumes "ready s S" "told_apart key S" "tidy (s\<lparr>sector_cache_table := t\<rparr>) S" "store_lookup key S = Some (p, v)"
  obtains env0 s2 where "find_env w key env (s\<lparr>sector_cache_table := t\<rparr>) = Some (True, env_of env0 p ENV_WRITE key v, s2)"
    "tidy s2 S" "\<forall>x \<in> set (entries s2). entry_ok S x" "entries_once (entries s2)" "gc_request s2 = gc_request s"
    "env_init_ok s2 = env_init_ok s" "last_is_complete_del s2 = last_is_complete_del s"
proof -
  have h: "holds_store (s\<lparr>sector_cache_table := t\<rparr>) S"
    using assms(1,3) by (simp add: ready_def holds_store_def tidy_def env_cache_ok_def entries_def)
  obtain env0 ta where f: "find_env w key env (s\<lparr>sector_cache_table := t\<rparr>) = Some (True, env_of env0 p ENV_WRITE key v,
      s\<lparr>sector_cache_table := t, env_cache_table := ta\<rparr>)" "holds_store (s\<lparr>sector_cache_table := t, env_cache_table := ta\<rparr>) S"
    using find_env_lookup [OF h assms(2), where w = w and env = env] assms(4) by auto
  have "tidy (s\<lparr>sector_cache_table := t, env_cache_table := ta\<rparr>) S"
    using assms(3) by (simp add: tidy_def sector_cache_ok_def)
  then show ?thesis using that [OF f(1)] f(2) by (simp add: holds_store_def env_cache_ok_entries)
qed

text \<open>The three steps of a replacement and the store they leave.\<close>

lemma replaced_store:
  assumes "nodes (S ! i) = pre @ (st, k, v) # post" "i < length S" "j < length S"
    "S2 = (marked S i pre (3, k, v) post)[j := grown (marked S i pre (3, k, v) post ! j) key value]"
    "nodes (S2 ! i) = pre @ (3, k, v) # post'"
  shows "marked S2 i pre (4, k, v) post' =
    (marked S i pre (4, k, v) post)[j := grown (marked S i pre (4, k, v) post ! j) key value]" (is "?l = ?r")
proof (rule nth_equalityI)
  show "length ?l = length ?r" by (simp add: marked_def assms(4))
  fix h assume "h < length ?l"
  then have h: "h < length S" by (simp add: marked_def assms(4))
  have post': "post' = (if i = j then post @ [(2, key, value)] else post)"
    using assms by (auto simp: marked_def grown_def)
  show "?l ! h = ?r ! h"
    using assms(1-3) h post' unfolding assms(4)
    by (cases "h = i"; cases "h = j"; cases "i = j") (auto simp: marked_def grown_def fills_def dirtied_def)
qed

lemma replace_steps:
  assumes w: "good_chip w" and s: "tidy s S" "live_once S" "\<not> last_is_complete_del s" "\<not> gc_request s"
    and look: "store_lookup key S = Some (p, v)" and p: "env_start env = p" and fit: "env_fits key value"
    and j: "j < 4" "fst (S ! j) \<noteq> SECTOR_STORE_FULL" "has_room (env_size_of key value) (S ! j)"
    and m: "known_sector m (sector_addr j) (S ! j)"
  obtains s3 s4 s5 S' where "mark_deleted w (Some key) env False s = (EF_NO_ERR, s3)"
    "write_node w m (free_addr j (S ! j)) key value s3 = (EF_NO_ERR, s4)"
    "mark_deleted w (Some key) env True s4 = (EF_NO_ERR, s5)" "tidy s5 S'" "live_once S'" "settled S \<Longrightarrow> settled S'"
    "store_lookup key S' = Some (free_addr j (S ! j), value)" "\<And>k. k \<noteq> key \<Longrightarrow> store_lookup k S' = store_lookup k S"
    "entries s5 = entries (update_env_cache key (free_addr j (S ! j)) s3)" "entries s3 = entries s" "\<not> last_is_complete_del s5"
    "gc_request s5 \<longleftrightarrow> fills (env_size_of key value) (S ! j)" "env_init_ok s5 = env_init_ok s"
    "fills (env_size_of key value) (S ! j) \<Longrightarrow> empties S' = empties S"
proof -
  let ?n = "env_size_of key value" and ?a = "free_addr j (S ! j)"
  have len: "length S = 4" using s(1) by (simp add: tidy_def store_at_def)
  obtain i pre post where i: "i < 4" "nodes (S ! i) = pre @ (2, key, v) # post" "p = log_end (sector_addr i + 16) pre"
    using store_lookup_at [OF look len] by blast
  let ?S1 = "marked S i pre (3, key, v) post" and ?S2 = "(marked S i pre (3, key, v) post)[j := grown (marked S i pre (3, key, v) post ! j) key value]"
  note same = marked_same [OF i(2), where st' = 3] and sec = marked_sectors [OF i(2), where st' = 3]
  obtain s3 where s3: "mark_deleted w (Some key) env False s = (EF_NO_ERR, s3)" "tidy s3 ?S1" "gc_request s3 = gc_request s"
    "env_init_ok s3 = env_init_ok s" "last_is_complete_del s3 = (\<not> False)" "entries s3 = entries s"
    using mark_stage [OF w s(1) i(1,2), of env 3 False key] p i(3) by auto
  obtain s4 where s4: "write_node w m ?a key value s3 = (EF_NO_ERR, s4)" "tidy s4 ?S2"
    "entries s4 = entries (update_env_cache key ?a s3)" "gc_request s4 = (fills ?n (S ! j) \<or> gc_request s3)"
    "env_init_ok s4 = env_init_ok s3" "last_is_complete_del s4 = last_is_complete_del s3"
    using put_node [OF w s3(2) fit j(1), of m] j m same sec by auto
  obtain post' where i2: "nodes (?S2 ! i) = pre @ (3, key, v) # post'"
    using marked_grown_node [OF i(2)] i(1) len by metis
  let ?S3 = "marked ?S2 i pre (4, key, v) post'"
  obtain s5 where s5: "mark_deleted w (Some key) env True s4 = (EF_NO_ERR, s5)" "tidy s5 ?S3" "gc_request s5 = gc_request s4"
    "env_init_ok s5 = env_init_ok s4" "last_is_complete_del s5 = (\<not> True)" "entries s5 = entries s4"
    using mark_stage [OF w s4(2) i(1) i2, of env 4 True key] p i(3) s4(6) s3(5) by auto
  have il: "i < length S" "j < length S" "i < length ?S2" "j < length ?S1" using i(1) j(1) len sec(1) by simp_all
  note k1 = marked_lookup [OF il(1) i(2), of 3, simplified] and k3 = marked_lookup [OF il(3) i2, of 4, simplified]
  note k2 = grown_lookup [OF il(4) k1(3) [OF s(2)]]
  have "live_once ?S3" using k3(2) k2(3) k1(2) s(2) by blast
  moreover have "settled ?S3" if "settled S"
    using settled_grown [OF settled_marked [OF that il(1) i(2) refl], of j] il(2) marked_sectors(1) [OF i(2)]
    unfolding replaced_store [OF i(2) il(1,2) refl i2] by simp
  moreover have "store_lookup key ?S3 = Some (?a, value)" using k3(1) k2(2) same(1) by simp
  moreover have "store_lookup k ?S3 = store_lookup k S" if "k \<noteq> key" for k using k3(1) k2(1) k1(1) that by simp
  moreover have "empties ?S3 = empties S" if "fills ?n (S ! j)"
  proof -
    have "empties ?S3 = empties ?S2" "empties ?S1 = empties S" by (intro empties_map marked_map_fst)+
    moreover have "empties ?S2 = empties ?S1"
      using that sec(2) by (intro empties_update) (auto simp: fills_def grown_def)
    ultimately show ?thesis by simp
  qed
  ultimately show ?thesis using that [OF s3(1) s4(1) s5(1,2)] s5 s4 s3 s(4) by simp
qed

lemma set_env_old:
  assumes w: "good_chip w" and r: "ready s S" "told_apart key S" "room_for S key value" and look: "store_lookup key S = Some (p, v)"
  shows "\<exists>s' S'. set_env w key value s = Some (EF_NO_ERR, s') \<and> ready s' S' \<and> store_map S' = (store_map S)(key \<mapsto> value)"
proof -
  let ?n = "env_size_of key value"
  obtain j where j: "chosen S ?n = Some j" and fit: "env_fits key value" and gc: "fills ?n (S ! j) \<Longrightarrow> 1 < empties S"
    using r(3) by (auto simp: room_for_def split: option.splits)
  have j4: "j < 4" "fst (S ! j) \<noteq> 3" "has_room ?n (S ! j)" using chosen_Some [OF j] by auto
  let ?p = "free_addr j (S ! j)"
  have a: "tidy s S" "\<not> gc_request s" using r(1) by (simp_all add: ready_def)
  obtain m t where t: "tidy (s\<lparr>sector_cache_table := t\<rparr>) S" "empty_env m = ?p" "?p \<noteq> FAILED_ADDR"
    "known_sector m (sector_addr j) (S ! j)"
    "new_env_by_kv w (set_env_sector s) (length key) (length value) s = Some (?p, m, s\<lparr>sector_cache_table := t\<rparr>)"
    using new_env_chosen [OF a j, where w = w and sector = "set_env_sector s"] by blast
  let ?s = "s\<lparr>sector_cache_table := t\<rparr>"
  obtain env0 s2 where f: "find_env w key (set_env_env ?s) ?s = Some (True, env_of env0 p 2 key v, s2)"
    "tidy s2 S" "\<forall>x \<in> set (entries s2). entry_ok S x" "entries_once (entries s2)" "gc_request s2 = gc_request s"
    "env_init_ok s2 = env_init_ok s" "last_is_complete_del s2 = last_is_complete_del s"
    using find_ready [OF r(1,2) t(1) look] by blast
  let ?env = "env_of env0 p 2 key v"
  have c: "live_once S" "\<not> last_is_complete_del s2" "\<not> gc_request s2" "env_start ?env = p"
    using r(1) f by (simp_all add: ready_def)
  obtain s3 s4 s5 S' where st: "mark_deleted w (Some key) ?env False s2 = (EF_NO_ERR, s3)"
    "write_node w m ?p key value s3 = (EF_NO_ERR, s4)" "mark_deleted w (Some key) ?env True s4 = (EF_NO_ERR, s5)"
    "tidy s5 S'" "live_once S'" "settled S \<Longrightarrow> settled S'" "store_lookup key S' = Some (?p, value)"
    "\<And>k. k \<noteq> key \<Longrightarrow> store_lookup k S' = store_lookup k S" "entries s5 = entries (update_env_cache key ?p s3)"
    "entries s3 = entries s2" "\<not> last_is_complete_del s5" "gc_request s5 = fills ?n (S ! j)" "env_init_ok s5 = env_init_ok s2"
    "fills ?n (S ! j) \<Longrightarrow> empties S' = empties S"
    using replace_steps [OF w f(2) c(1-3) look c(4) fit j4 t(4)] by blast
  have e3: "\<forall>x \<in> set (entries s3). entry_ok S x" "entries_once (entries s3)" using f(3,4) st(10) by simp_all
  then have cache: "\<forall>x \<in> set (entries s5). entry_ok S' x" "entries_once (entries s5)"
    using entries_set [OF e3 r(2), of S' ?p] st(7,8) update_env_cache_entries(1) [OF e3(2), of key ?p] unfolding st(9) by blast+
  have g: "(if gc_request s5 then gc_collect w s5 else Some s5) = Some (s5\<lparr>gc_request := False\<rparr>)"
    using st(4,12,14) gc by (intro gc_after [of s5 S']) (auto simp: tidy_def)
  let ?s' = "s5\<lparr>gc_request := False, set_env_env := ?env, set_env_sector := m\<rparr>"
  have "set_env w key value s = Some (EF_NO_ERR, ?s')"
    using t f(1) st(1-3) g create_blob_known [OF fit, of m w s3] by (simp add: set_env_def)
  moreover have "ready ?s' S'"
    using r(1) f(6) st cache tidy_cong [of ?s' s5 S']
    by (simp add: ready_def env_cache_ok_entries) (simp add: entries_def)
  ultimately show ?thesis using store_map_put [OF st(7,8)] by blast
qed

section \<open>Removing a key\<close>

lemma del_env_ready:
  assumes w: "good_chip w" and r: "ready s S" "told_apart key S"
  shows "\<exists>s' S'. del_env w key s = Some (if store_map S key = None then EF_ENV_NAME_ERR else EF_NO_ERR, s') \<and>
    ready s' S' \<and> store_map S' = (store_map S)(key := None)"
proof (cases "store_lookup key S")
  case None
  obtain env where "find_env w key (env_uninit w) s = Some (False, env, s)"
    using find_env_lookup [OF ready_holds [OF r(1)] r(2), where w = w and env = "env_uninit w"] None by auto
  then show ?thesis
    using None r(1) store_map_remove [of key S S] by (intro exI [of _ s] exI [of _ S]) (simp add: del_env_def store_map_def)
next
  case (Some q)
  obtain p v where look: "store_lookup key S = Some (p, v)" using Some by (cases q) simp
  have t: "tidy (s\<lparr>sector_cache_table := sector_cache_table s\<rparr>) S" and s: "s\<lparr>sector_cache_table := sector_cache_table s\<rparr> = s"
    using r(1) by (simp_all add: ready_def)
  obtain env0 s2 where f: "find_env w key (env_uninit w) s = Some (True, env_of env0 p 2 key v, s2)"
    "tidy s2 S" "\<forall>x \<in> set (entries s2). entry_ok S x" "entries_once (entries s2)" "gc_request s2 = gc_request s"
    "env_init_ok s2 = env_init_ok s" "last_is_complete_del s2 = last_is_complete_del s"
    using find_ready [OF r t look, where w = w and env = "env_uninit w"] unfolding s by blast
  have len: "length S = 4" using f(2) by (simp add: tidy_def store_at_def)
  obtain i pre post where i: "i < 4" "nodes (S ! i) = pre @ (2, key, v) # post" "p = log_end (sector_addr i + 16) pre"
    using store_lookup_at [OF look len] by blast
  let ?S = "marked S i pre (4, key, v) post" and ?env = "env_of env0 p 2 key v"
  obtain s3 where s3: "mark_deleted w (Some key) ?env True s2 = (EF_NO_ERR, s3)" "tidy s3 ?S" "gc_request s3 = gc_request s2"
    "env_init_ok s3 = env_init_ok s2" "last_is_complete_del s3 = (\<not> True)"
    "entries s3 = entries (update_env_cache key FAILED_ADDR s2)"
    using mark_stage [OF w f(2) i(1,2), of ?env 4 True key] i(3) r(1) f(7) by (auto simp: ready_def)
  have il: "i < length S" "live_once S" using i(1) len r(1) by (simp_all add: ready_def)
  note k = marked_lookup [OF il(1) i(2), of 4, simplified]
  have "\<forall>x \<in> set (entries s3). entry_ok ?S x" "entries_once (entries s3)"
    using entries_set [OF f(3,4) r(2), of ?S FAILED_ADDR] k(1) update_env_cache_entries(1) [OF f(4), of key FAILED_ADDR]
    unfolding s3(6) by blast+
  then have "ready s3 ?S"
    using r(1) f s3 k(2) il settled_marked [OF _ il(1) i(2) refl] by (simp add: ready_def env_cache_ok_entries)
  moreover have "del_env w key s = Some (EF_NO_ERR, s3)" using f(1) s3(1) by (simp add: del_env_def)
  moreover have "store_map S key \<noteq> None" using look by (simp add: store_map_def)
  ultimately show ?thesis using store_map_remove [OF k(3) [OF il(2)] k(1)] by auto
qed

end
