(* ===== verification/EnvRestart.thy ===== *)
theory EnvRestart
  imports EnvMap
begin

text \<open>
  Starting the store: \<open>ef_env_init\<close> on a flash that holds a settled store finds it again, with nothing
  in its caches, and formatting a flash leaves an empty store. With these, the properties of the store
  apply to a concrete one.
\<close>

section \<open>Loading a settled store\<close>

text \<open>The static variables after a reset. The caches may hold anything, \<open>ef_env_init\<close> clears them.\<close>

definition fresh_ram :: "easyflash \<Rightarrow> bool" where
  "fresh_ram s \<longleftrightarrow> \<not> env_init_ok s \<and> \<not> gc_request s \<and> \<not> last_is_complete_del s"

definition caches_cleared :: "easyflash \<Rightarrow> easyflash" where
  "caches_cleared s = s\<lparr>sector_cache_table := map (sc_addr_update (\<lambda>_. FAILED_ADDR)) (sector_cache_table s),
     env_cache_table := map (cache_addr_update (\<lambda>_. FAILED_ADDR)) (env_cache_table s)\<rparr>"

lemma caches_cleared_ok:
  "sector_cache_ok (caches_cleared s) S" "sectors_once (sector_cache_table (caches_cleared s))"
  "env_cache_ok (caches_cleared s) S" "entries_once (entries (caches_cleared s))"
proof -
  show "sector_cache_ok (caches_cleared s) S" by (auto simp: sector_cache_ok_def caches_cleared_def)
  show "sectors_once (sector_cache_table (caches_cleared s))" by (auto simp: sectors_once_def caches_cleared_def)
  show "env_cache_ok (caches_cleared s) S"
    by (auto simp: env_cache_ok_def caches_cleared_def entry_ok_def entry_of_def)
  have "entries_once es" if "\<forall>e \<in> set es. snd e = FAILED_ADDR" for es using that by (induction es) auto
  then show "entries_once (entries (caches_cleared s))"
    by (simp add: entries_def caches_cleared_def entry_of_def)
qed

lemma recovery_node_settled:
  "env_status env \<in> {ENV_WRITE, ENV_DELETED} \<Longrightarrow> check_and_recovery_env_cb w env x s = Some (False, (), s)"
  by (auto simp: check_and_recovery_env_cb_def)

lemma recovery_settled:
  assumes "store_at (flash s) S" "sector_cache_ok s S" "settled S" "\<not> gc_request s"
  shows "recovery_loop w env s = Some s"
proof -
  have "\<forall>T \<in> set S. fst ` set (nodes T) \<subseteq> {ENV_WRITE, ENV_DELETED}" using assms(3) by (simp add: settled_def)
  then have "env_iterator w env (check_and_recovery_env_cb w) () s =
      (case visit_store (\<lambda>env x. (False, ())) env 0 S () of (env', x') \<Rightarrow> Some (env', x', s))"
    using recovery_node_settled
    by (intro env_iterator_store [where g = "\<lambda>env x. (False, ())" and N = "{ENV_WRITE, ENV_DELETED}"] assms(1,2)) auto
  then show ?thesis using assms(4) by (subst recovery_loop.simps) (simp split: prod.split)
qed

lemma quiet_sectors:
  assumes "length S = 4" "\<forall>i < 4. header_at (flash s) (sector_addr i) (S ! i)" "\<And>m a T x. T \<in> set S \<Longrightarrow> cb (meta_of m a T) x s = Some (False, x, s)"
  shows "\<exists>m'. sector_iterator w m SECTOR_STORE_UNUSED cb False x s = Some (m', x, s)"
proof -
  have "fold (\<lambda>T x. x) Ts x = x" for Ts :: store and x :: 'a by (induction Ts) simp_all
  then show ?thesis
    using sector_loop_count [where cb = cb and h = "\<lambda>T x. x" and i = 0 and s = s and status = 0 and w = w and x = x
        and m = "m\<lparr>sec_addr := FAILED_ADDR\<rparr>", OF assms] next_sector(2)
    by (simp add: sector_iterator_def)
qed

text \<open>With all headers right and no collection interrupted, only the nodes are left to look at.\<close>

lemma load_quiet:
  assumes S: "length S = 4" "\<forall>i < 4. header_at (flash s) (sector_addr i) (S ! i)"
    and g: "\<forall>T \<in> set S. fst (snd T) \<noteq> SECTOR_DIRTY_GC"
  shows "ef_load_env w s = do { s4 \<leftarrow> recovery_loop w (env_uninit w) (s\<lparr>in_recovery_check := True\<rparr>);
    Some (EF_NO_ERR, s4\<lparr>in_recovery_check := False\<rparr>) }"
proof -
  let ?s = "s\<lparr>in_recovery_check := True\<rparr>"
  have h: "\<forall>i < 4. header_at (flash ?s) (sector_addr i) (S ! i)" using S(2) by simp
  obtain m1 where 1: "sector_iterator w (sector_uninit w) 0 (check_sec_hdr_cb w) False 0 ?s = Some (m1, 0, ?s)"
    using quiet_sectors [OF S(1) h, of "check_sec_hdr_cb w" w "sector_uninit w" 0] by (auto simp: check_sec_hdr_cb_def)
  have "check_and_recovery_gc_cb w (meta_of m a T) x ?s = Some (False, x, ?s)" if "T \<in> set S" for m a T x
    using that g by (auto simp: check_and_recovery_gc_cb_def)
  then obtain m2 where 2: "sector_iterator w m1 0 (check_and_recovery_gc_cb w) False () ?s = Some (m2, (), ?s)"
    using quiet_sectors [OF S(1) h, of "check_and_recovery_gc_cb w" w m1 "()"] by auto
  show ?thesis using 1 2 by (simp add: ef_load_env_def ENV_AREA_SIZE_def SECTOR_SIZE_def)
qed

lemma load_settled:
  assumes "store_at (flash s) S" "sector_cache_ok s S" "settled S" "\<not> gc_request s"
  shows "ef_load_env w s = Some (EF_NO_ERR, s\<lparr>in_recovery_check := False\<rparr>)"
proof -
  let ?s = "s\<lparr>in_recovery_check := True\<rparr>"
  have "recovery_loop w (env_uninit w) ?s = Some ?s"
    using recovery_settled [of ?s S] assms by (simp add: sector_cache_ok_def)
  then show ?thesis
    using load_quiet [of S s w] store_headers [OF assms(1)] assms(3) by (simp add: settled_def)
qed

section \<open>Formatting\<close>

definition empty_sector :: sector where
  "empty_sector = (SECTOR_STORE_EMPTY, SECTOR_DIRTY_FALSE, [])"

lemma sector_hdr_bytes_eq: "sector_hdr_bytes n =
    [stage_byte 1, stage_byte 1, 0xFF, 0xFF] @ le32_bytes SECTOR_MAGIC_WORD @ le32_bytes n @ le32_bytes 0xFFFFFFFF"
proof -
  have "STATUS_TABLE_SIZE 4 = 1" by (simp add: STATUS_TABLE_SIZE_def)
  moreover have "(0xFF :: uint8) AND NOT 0x80 = stage_byte 1" by (simp add: stage_byte_def ones8)
  ultimately show ?thesis by (simp add: sector_hdr_bytes_def set_status_def)
qed

lemma length_sector_hdr_bytes: "length (sector_hdr_bytes n) = 16"
  by (simp add: sector_hdr_bytes_eq)

lemma formatted_sector:
  assumes "bytes_at f a (sector_hdr_bytes SECTOR_NOT_COMBINED)" "erased f (a + 16) (a + SECTOR_SIZE)"
    "a mod SECTOR_SIZE = 0" "a < ENV_AREA_SIZE"
  shows "sector_at f a empty_sector"
proof -
  have l: "length [stage_byte 1, stage_byte 1, 0xFF, 0xFF] = 4" by simp
  have b: "bytes_at f a [stage_byte 1, stage_byte 1, 0xFF, 0xFF]"
    "bytes_at f (a + 4) (le32_bytes SECTOR_MAGIC_WORD @ le32_bytes SECTOR_NOT_COMBINED)"
    using assms(1) unfolding sector_hdr_bytes_eq bytes_at_append l length_le32_bytes by (simp_all add: add.assoc)
  have "f a = stage_byte 1" "f (a + 1) = stage_byte 1" using b(1) by (auto simp: bytes_at_nth dest: spec [of _ 0] spec [of _ 1])
  moreover have "get_status [stage_byte 1] 4 = 1" by (simp add: get_status_sector bit_stage_byte)
  ultimately show ?thesis
    using b(2) assms(2-4) by (simp add: sector_at_def empty_sector_def sector_log_def SECTOR_SIZE_def)
qed

lemma format_sector_good:
  assumes "good_chip w" "i < 4"
  shows "\<exists>s'. format_sector w (sector_addr i) SECTOR_NOT_COMBINED s = Some (EF_NO_ERR, s') \<and>
    sector_at (flash s') (sector_addr i) empty_sector \<and>
    (\<forall>x. x < sector_addr i \<or> sector_addr i + SECTOR_SIZE \<le> x \<longrightarrow> flash s' x = flash s x) \<and>
    sector_cache_table s' = sector_cache_table (update_sector_cache (sector_addr i) (sector_addr i + SECTOR_SIZE) s) \<and>
    env_cache_table s' = env_cache_table s \<and> gc_request s' = gc_request s \<and> env_init_ok s' = env_init_ok s \<and>
    last_is_complete_del s' = last_is_complete_del s"
proof -
  let ?a = "sector_addr i" and ?hdr = "sector_hdr_bytes SECTOR_NOT_COMBINED"
  let ?e = "\<lambda>x. if ?a \<le> x \<and> x < ?a + SECTOR_SIZE then 0xFF else flash s x"
  let ?f = "program (\<lambda>_. 0) ?a ?hdr ?e"
  have e: "erased ?e ?a (?a + SECTOR_SIZE)" by (simp add: erased_def)
  have len: "length ?hdr \<le> SECTOR_SIZE" by (simp add: length_sector_hdr_bytes SECTOR_SIZE_def)
  have "bytes_at ?f ?a ?hdr" using e len by (intro program_bytes_at) (auto intro: erased_sub)
  moreover have "erased ?f (?a + 16) (?a + SECTOR_SIZE)"
    by (rule erased_program) (use e in \<open>auto intro: erased_sub simp: length_sector_hdr_bytes\<close>)
  ultimately have "sector_at ?f ?a empty_sector"
    using assms(2) sector_addr_small(2,3) by (intro formatted_sector) simp_all
  moreover have "?f x = flash s x" if "x < ?a \<or> ?a + SECTOR_SIZE \<le> x" for x
    using that len by (auto simp: program_def)
  ultimately show ?thesis
    using assms sector_addr_small(3)
    by (simp add: format_sector_def ef_port_erase_def good_chip_def ef_port_write_def update_sector_cache_table)
qed

text \<open>A flash that is formatted sector by sector, with nothing in the caches.\<close>

lemma clear_sector_cache:
  assumes "\<forall>n \<in> set (sector_cache_table s). sc_addr n = FAILED_ADDR" "a \<noteq> FAILED_ADDR"
  shows "\<forall>n \<in> set (sector_cache_table (update_sector_cache a (a + SECTOR_SIZE) s)). sc_addr n = FAILED_ADDR"
proof -
  have "sectors_once (sector_cache_table s)" using assms(1) by (auto simp: sectors_once_def)
  then show ?thesis using update_sector_cache_outside(2) [of s a "a + SECTOR_SIZE"] assms by auto
qed

definition formatted :: "nat \<Rightarrow> easyflash \<Rightarrow> easyflash \<Rightarrow> bool" where
  "formatted i s s' \<longleftrightarrow> (\<forall>j < i. sector_at (flash s') (sector_addr j) empty_sector) \<and>
     (\<forall>n \<in> set (sector_cache_table s'). sc_addr n = FAILED_ADDR) \<and> env_cache_table s' = env_cache_table s \<and>
     gc_request s' = gc_request s \<and> env_init_ok s' = env_init_ok s \<and> last_is_complete_del s' = last_is_complete_del s"

lemma formatted_step:
  assumes "good_chip w" "i < 4" "formatted i s s1"
  shows "\<exists>s2. format_sector w (sector_addr i) SECTOR_NOT_COMBINED s1 = Some (EF_NO_ERR, s2) \<and> formatted (Suc i) s s2"
proof -
  obtain s2 where s2: "format_sector w (sector_addr i) SECTOR_NOT_COMBINED s1 = Some (EF_NO_ERR, s2)"
    "sector_at (flash s2) (sector_addr i) empty_sector"
    "\<forall>x. x < sector_addr i \<or> sector_addr i + SECTOR_SIZE \<le> x \<longrightarrow> flash s2 x = flash s1 x"
    "sector_cache_table s2 = sector_cache_table (update_sector_cache (sector_addr i) (sector_addr i + SECTOR_SIZE) s1)"
    "env_cache_table s2 = env_cache_table s1" "gc_request s2 = gc_request s1" "env_init_ok s2 = env_init_ok s1"
    "last_is_complete_del s2 = last_is_complete_del s1"
    using format_sector_good [OF assms(1,2), of s1] by blast
  have "sector_at (flash s2) (sector_addr j) empty_sector" if "j < i" for j
  proof (rule sector_at_cong)
    show "sector_at (flash s1) (sector_addr j) empty_sector" using assms(3) that by (simp add: formatted_def)
    fix x assume "x < sector_addr j + SECTOR_SIZE"
    then have "x < sector_addr i" using that by (simp add: sector_addr_def SECTOR_SIZE_def)
    then show "flash s1 x = flash s2 x" using s2(3) by simp
  qed
  moreover have "\<forall>n \<in> set (sector_cache_table s2). sc_addr n = FAILED_ADDR"
    using clear_sector_cache [of s1 "sector_addr i"] assms(2,3) s2(4) sector_addr_small(1) by (simp add: formatted_def)
  ultimately have "formatted (Suc i) s s2" using s2 assms(3) by (auto simp: formatted_def less_Suc_eq)
  then show ?thesis using s2(1) by blast
qed

lemma sector_addr_num: "[0, SECTOR_SIZE, 2 * SECTOR_SIZE, 3 * SECTOR_SIZE] = map sector_addr [0, 1, 2, 3]"
  by (simp add: sector_addr_def)

lemma format_all_empty:
  assumes w: "good_chip w" and s: "formatted 0 s s"
  shows "\<exists>s'. format_all w [0, SECTOR_SIZE, 2 * SECTOR_SIZE, 3 * SECTOR_SIZE] s = Some (EF_NO_ERR, s') \<and> formatted 4 s s'"
proof -
  have step: "\<exists>s2. format_sector w (sector_addr i) SECTOR_NOT_COMBINED s1 = Some (EF_NO_ERR, s2) \<and> formatted k s s2"
    if "formatted i s s1" "i < 4" "k = Suc i" for i k s1
    unfolding that(3) by (rule formatted_step [OF w that(2,1)])
  obtain s1 where 1: "format_sector w (sector_addr 0) SECTOR_NOT_COMBINED s = Some (EF_NO_ERR, s1)" "formatted 1 s s1"
    by (rule exE [OF step [OF s, of 1]]) simp_all
  obtain s2 where 2: "format_sector w (sector_addr 1) SECTOR_NOT_COMBINED s1 = Some (EF_NO_ERR, s2)" "formatted 2 s s2"
    by (rule exE [OF step [OF 1(2), of 2]]) simp_all
  obtain s3 where 3: "format_sector w (sector_addr 2) SECTOR_NOT_COMBINED s2 = Some (EF_NO_ERR, s3)" "formatted 3 s s3"
    by (rule exE [OF step [OF 2(2), of 3]]) simp_all
  obtain s4 where 4: "format_sector w (sector_addr 3) SECTOR_NOT_COMBINED s3 = Some (EF_NO_ERR, s4)" "formatted 4 s s4"
    by (rule exE [OF step [OF 3(2), of 4]]) simp_all
  show ?thesis using 4(2) unfolding sector_addr_num list.map format_all.simps 1(1) 2(1) 3(1) 4(1) bind.bind_lunit prod.case by simp
qed

definition no_store :: store where
  "no_store = replicate 4 empty_sector"

lemma formatted_tidy: "formatted 4 s s' \<Longrightarrow> tidy s' no_store"
proof -
  assume f: "formatted 4 s s'"
  have "store_at (flash s') no_store" using f by (simp add: formatted_def store_at_def no_store_def)
  moreover have "sectors_once (sector_cache_table s')" using f by (auto simp: formatted_def sectors_once_def)
  ultimately show "tidy s' no_store" using f by (simp add: tidy_def sector_cache_ok_def formatted_def)
qed

lemma no_store_lookup: "store_lookup key no_store = None"
  by (simp add: no_store_def empty_sector_def store_lookup_def numeral_eq_Suc)

lemma no_store_props: "live_once no_store" "settled no_store" "told_apart key no_store" "store_map no_store = Map.empty"
proof -
  show "live_once no_store" "settled no_store"
    by (auto simp: live_once_def live_keys_def no_store_def empty_sector_def settled_def)
  show "told_apart key no_store" by (simp add: told_apart_def no_store_lookup)
  show "store_map no_store = Map.empty" by (rule ext) (simp add: store_map_def no_store_lookup)
qed

section \<open>The first start\<close>

text \<open>A sector without the magic word fails its check and is formatted.\<close>

definition unmarked :: "(nat \<Rightarrow> uint8) \<Rightarrow> nat \<Rightarrow> bool" where
  "unmarked f a \<longleftrightarrow> le32 (map f [a + 4..<a + 4 + 4]) \<noteq> SECTOR_MAGIC_WORD"

lemma read_unmarked:
  assumes "unmarked (flash s) (sector_addr i)"
  shows "\<exists>magic. read_sector_meta_data w (sector_addr i) m False s = Some (EF_ENV_INIT_FAILED,
    m\<lparr>sec_addr := sector_addr i, sec_magic := magic, check_ok := False, combined := SECTOR_NOT_COMBINED\<rparr>, s)"
proof -
  have "ef_port_read (sector_addr i + 4) 4 s = map (flash s) [sector_addr i + 4..<sector_addr i + 4 + 4]"
    by (simp add: ef_port_read_def)
  then show ?thesis
    using assms sector_addr_small(3)
    by (intro exI [of _ "le32 (ef_port_read (sector_addr i + 4) 4 s)"])
      (simp add: read_sector_meta_data_def sector_hdr_of_def unmarked_def)
qed

lemma check_unmarked:
  assumes w: "good_chip w"
  shows "i \<le> 4 \<Longrightarrow> formatted i s0 s \<Longrightarrow> (\<forall>j. i \<le> j \<and> j < 4 \<longrightarrow> unmarked (flash s) (sector_addr j)) \<Longrightarrow>
    get_next_sector_addr m = (if i < 4 then sector_addr i else FAILED_ADDR) \<Longrightarrow>
    \<exists>m' s'. sector_loop w SECTOR_STORE_UNUSED (check_sec_hdr_cb w) False m n s = Some (m', n + (4 - i), s') \<and> formatted 4 s0 s'"
proof (induction "4 - i" arbitrary: i m n s)
  case 0
  then show ?case by (subst sector_loop.simps) simp
next
  case (Suc d)
  then have i: "i < 4" "d = 4 - Suc i" "Suc i \<le> 4" by simp_all
  have "unmarked (flash s) (sector_addr i)" using Suc.prems(3) i(1) by simp
  then obtain magic where r: "read_sector_meta_data w (sector_addr i) m False s = Some (EF_ENV_INIT_FAILED,
      m\<lparr>sec_addr := sector_addr i, sec_magic := magic, check_ok := False, combined := SECTOR_NOT_COMBINED\<rparr>, s)"
    using read_unmarked by blast
  let ?m = "m\<lparr>sec_addr := sector_addr i, sec_magic := magic, check_ok := False, combined := SECTOR_NOT_COMBINED\<rparr>"
  obtain s2 where s2: "format_sector w (sector_addr i) SECTOR_NOT_COMBINED s = Some (EF_NO_ERR, s2)"
    "\<forall>x. x < sector_addr i \<or> sector_addr i + SECTOR_SIZE \<le> x \<longrightarrow> flash s2 x = flash s x"
    using format_sector_good [OF w i(1), of s] by blast
  have f: "formatted (Suc i) s0 s2" using formatted_step [OF w i(1) Suc.prems(2)] s2(1) by simp
  have "\<forall>j. Suc i \<le> j \<and> j < 4 \<longrightarrow> unmarked (flash s2) (sector_addr j)"
  proof (intro allI impI)
    fix j assume j: "Suc i \<le> j \<and> j < 4"
    then have "sector_addr i + SECTOR_SIZE \<le> sector_addr j" by (simp add: sector_addr_def SECTOR_SIZE_def)
    then have same: "map (flash s2) [sector_addr j + 4..<sector_addr j + 4 + 4] = map (flash s) [sector_addr j + 4..<sector_addr j + 4 + 4]"
      using s2(2) by simp
    have "unmarked (flash s) (sector_addr j)" using Suc.prems(3) j by simp
    then show "unmarked (flash s2) (sector_addr j)" unfolding unmarked_def same .
  qed
  moreover have "get_next_sector_addr ?m = (if Suc i < 4 then sector_addr (Suc i) else FAILED_ADDR)"
    using sector_addr_small(1) [OF i(1)]
    by (auto simp: get_next_sector_addr_def sector_addr_def SECTOR_SIZE_def ENV_AREA_SIZE_def)
  ultimately obtain m' s' where l: "sector_loop w SECTOR_STORE_UNUSED (check_sec_hdr_cb w) False ?m (Suc n) s2 =
      Some (m', Suc n + (4 - Suc i), s')" "formatted 4 s0 s'"
    using Suc.hyps(1) [OF i(2,3) f] by blast
  have "Suc n + (4 - Suc i) = n + (4 - i)" using i(1) by simp
  moreover have "sector_loop w SECTOR_STORE_UNUSED (check_sec_hdr_cb w) False m n s =
      sector_loop w SECTOR_STORE_UNUSED (check_sec_hdr_cb w) False ?m (Suc n) s2"
    using Suc.prems(4) i(1) sector_addr_small(1) [OF i(1)] s2(1)
    by (subst sector_loop.simps) (simp add: r check_sec_hdr_cb_def)
  ultimately show ?case using l by metis
qed

text \<open>The default key and value.\<close>

definition default_store :: store where
  "default_store = no_store[0 := grown (no_store ! 0) (bytes_of ''Author'') (bytes_of ''Rick'')]"

lemma bytes_default: "length (bytes_of ''Author'') = 6" "length (bytes_of ''Rick'') = 4"
  by (simp_all add: bytes_of_def)

lemma size_default: "env_size_of (bytes_of ''Author'') (bytes_of ''Rick'') = 34"
  by (simp add: env_size_of_def bytes_default)

lemma no_store_chosen: "n < 4080 \<Longrightarrow> chosen no_store n = Some 0" "\<not> fills n (no_store ! 0)" "free_addr 0 (no_store ! 0) = 16"
  "fst (no_store ! 0) = SECTOR_STORE_EMPTY"
  by (simp_all add: chosen_def no_store_def empty_sector_def empties_def has_room_def SECTOR_SIZE_def upt_rec numeral_eq_Suc
      fills_def free_addr_def sector_addr_def)

text \<open>The creation of the default key and value in the formatted flash.\<close>

lemma default_lookup:
  "k \<noteq> bytes_of ''Author'' \<Longrightarrow> store_lookup k default_store = store_lookup k no_store"
  "store_lookup (bytes_of ''Author'') default_store = Some (16, bytes_of ''Rick'')"
proof -
  have len: "0 < length no_store" by (simp add: no_store_def)
  show "k \<noteq> bytes_of ''Author'' \<Longrightarrow> store_lookup k default_store = store_lookup k no_store"
    "store_lookup (bytes_of ''Author'') default_store = Some (16, bytes_of ''Rick'')"
    using grown_lookup(1,2) [OF len no_store_lookup] no_store_chosen(3) by (simp_all add: default_store_def)
qed

lemma create_default:
  assumes w: "good_chip w" and f: "formatted 4 s s'" "\<not> gc_request s'"
    and e: "\<forall>x \<in> set (entries s'). snd x = FAILED_ADDR"
  shows "\<exists>s2. create_all w default_env_set m s' = Some s2 \<and> tidy s2 default_store \<and> env_cache_ok s2 default_store \<and>
    entries_once (entries s2) \<and> \<not> gc_request s2 \<and> env_init_ok s2 = env_init_ok s' \<and>
    last_is_complete_del s2 = last_is_complete_del s'"
proof -
  let ?key = "bytes_of ''Author''" and ?val = "bytes_of ''Rick''" and ?m = "m\<lparr>empty_env := FAILED_ADDR\<rparr>"
  have fit: "env_fits ?key ?val" by (simp add: env_fits_def size_default bytes_default EF_ENV_NAME_MAX_def SECTOR_SIZE_def)
  note t = formatted_tidy [OF f(1)]
  have c: "chosen no_store (env_size_of ?key ?val) = Some 0" by (rule no_store_chosen) (simp add: size_default)
  have room: "has_room (env_size_of ?key ?val) (no_store ! 0)" using chosen_Some [OF c] by simp
  note at0 = no_store_chosen(3)
  obtain m' ta where a: "tidy (s'\<lparr>sector_cache_table := ta\<rparr>) no_store" "empty_env m' = 16" "known_sector m' (sector_addr 0) (no_store ! 0)"
    "new_env_by_kv w ?m (length ?key) (length ?val) s' = Some (16, m', s'\<lparr>sector_cache_table := ta\<rparr>)"
    using new_env_chosen [OF t f(2) c, where w = w and sector = ?m, unfolded at0] by blast
  let ?s = "s'\<lparr>sector_cache_table := ta\<rparr>"
  have nf: "(0 :: nat) < 4" "fst (no_store ! 0) \<noteq> 3" using no_store_chosen(4) by simp_all
  obtain s2 where s2: "write_node w m' 16 ?key ?val ?s = (EF_NO_ERR, s2)" "tidy s2 default_store"
    "entries s2 = entries (update_env_cache ?key 16 ?s)"
    "gc_request s2 = (fills (env_size_of ?key ?val) (no_store ! 0) \<or> gc_request ?s)" "env_init_ok s2 = env_init_ok ?s"
    "last_is_complete_del s2 = last_is_complete_del ?s"
    using put_node [OF w a(1) fit nf room a(3), unfolded at0, folded default_store_def] by blast
  have "16 \<noteq> FAILED_ADDR" by (simp add: FAILED_ADDR_def)
  then have "create_env_blob w ?m ?key ?val s' = Some (EF_NO_ERR, m', s2)"
    using a(4) s2(1) fit by (simp add: create_env_blob_def env_fits_def new_env_by_kv_def env_size_of_def)
  then have run: "create_all w default_env_set m s' = Some s2" by (simp add: default_env_set_def)
  have E: "\<forall>x \<in> set (entries ?s). entry_ok no_store x" "entries_once (entries ?s)"
  proof -
    show "\<forall>x \<in> set (entries ?s). entry_ok no_store x" using e by (auto simp: entry_ok_def entries_def)
    have "entries_once es" if "\<forall>e \<in> set es. snd e = FAILED_ADDR" for es using that by (induction es) auto
    then show "entries_once (entries ?s)" using e by (simp add: entries_def)
  qed
  have "env_cache_ok s2 default_store"
    unfolding env_cache_ok_entries s2(3)
    using entries_set [OF E no_store_props(3) default_lookup(1)] default_lookup(2) by blast
  moreover have "entries_once (entries s2)" unfolding s2(3) by (rule update_env_cache_entries(1) [OF E(2)])
  ultimately show ?thesis using s2 run f(2) no_store_chosen(2) by simp
qed

lemma default_store_props: "live_once default_store" "settled default_store"
  "store_map default_store = [bytes_of ''Author'' \<mapsto> bytes_of ''Rick'']"
proof -
  have len: "0 < length no_store" by (simp add: no_store_def)
  note look = grown_lookup [OF len no_store_lookup]
  show "live_once default_store" using look(3) no_store_props(1) by (simp add: default_store_def)
  show "settled default_store" using settled_grown [OF no_store_props(2) len] by (simp add: default_store_def)
  show "store_map default_store = [bytes_of ''Author'' \<mapsto> bytes_of ''Rick'']"
    using store_map_put [OF default_lookup(2,1)] no_store_props(4) by simp
qed

text \<open>The store after the first start.\<close>

lemma first_start_store:
  assumes "good_chip w" "fresh_ram s" "\<forall>i < 4. unmarked (flash s) (sector_addr i)"
  shows "\<exists>s'. ef_env_init w s = Some (EF_NO_ERR, s') \<and> ready s' default_store"
proof -
  let ?c = "(caches_cleared s)\<lparr>in_recovery_check := True\<rparr>" and ?m = "(sector_uninit w)\<lparr>sec_addr := FAILED_ADDR\<rparr>"
  have "formatted 0 ?c ?c" by (simp add: formatted_def caches_cleared_def)
  moreover have "\<forall>j. 0 \<le> j \<and> j < 4 \<longrightarrow> unmarked (flash ?c) (sector_addr j)" using assms(3) by (simp add: caches_cleared_def)
  moreover have "get_next_sector_addr ?m = (if (0 :: nat) < 4 then sector_addr 0 else FAILED_ADDR)"
    using next_sector(2) by simp
  ultimately obtain m1 s1 where 1: "sector_loop w 0 (check_sec_hdr_cb w) False ?m 0 ?c = Some (m1, 4, s1)" "formatted 4 ?c s1"
    using check_unmarked [OF assms(1), of 0 ?c ?c ?m 0] by auto
  have "formatted 0 s1 s1" using 1(2) by (simp add: formatted_def)
  then obtain s2 where 2: "format_all w [0, SECTOR_SIZE, 2 * SECTOR_SIZE, 3 * SECTOR_SIZE] s1 = Some (EF_NO_ERR, s2)"
    "formatted 4 s1 s2" using format_all_empty [OF assms(1)] by blast
  have flags: "\<not> gc_request s2" "\<not> env_init_ok s2" "\<not> last_is_complete_del s2" "env_cache_table s2 = env_cache_table ?c"
    using 1(2) 2(2) assms(2) by (auto simp: formatted_def fresh_ram_def caches_cleared_def)
  have "\<forall>x \<in> set (entries s2). snd x = FAILED_ADDR"
    using flags(4) by (auto simp: entries_def caches_cleared_def entry_of_def)
  then obtain s3 where 3: "create_all w default_env_set (sector_uninit w) s2 = Some s3" "tidy s3 default_store"
    "env_cache_ok s3 default_store" "entries_once (entries s3)" "\<not> gc_request s3" "env_init_ok s3 = env_init_ok s2"
    "last_is_complete_del s3 = last_is_complete_del s2"
    using create_default [OF assms(1) 2(2) flags(1)] by blast
  have S: "store_at (flash s3) default_store" "sector_cache_ok s3 default_store" using 3(2) by (simp_all add: tidy_def)
  have "check_and_recovery_gc_cb w (meta_of m a T) x s3 = Some (False, x, s3)" if "T \<in> set default_store" for m a T x
    using that default_store_props(2) by (auto simp: check_and_recovery_gc_cb_def settled_def)
  then obtain m2 where 4: "sector_iterator w m1 0 (check_and_recovery_gc_cb w) False () s3 = Some (m2, (), s3)"
    using quiet_sectors [OF conjunct1 [OF store_headers [OF S(1)]] conjunct2 [OF store_headers [OF S(1)]],
      of "check_and_recovery_gc_cb w" w m1 "()"] by auto
  note 5 = recovery_settled [OF S default_store_props(2) 3(5), of w "env_uninit w"]
  let ?s = "s3\<lparr>in_recovery_check := False, env_init_ok := True\<rparr>"
  have "ef_set_default w s1 = Some (EF_NO_ERR, s3)" using 2(1) 3(1) by (simp add: ef_set_default_def del: format_all.simps)
  then have "ef_load_env w (caches_cleared s) = Some (EF_NO_ERR, s3\<lparr>in_recovery_check := False\<rparr>)"
    using 1(1) 4 5
    by (simp add: ef_load_env_def sector_iterator_def ENV_AREA_SIZE_def SECTOR_SIZE_def)
  then have "ef_env_init w s = Some (EF_NO_ERR, ?s)"
    using assms(2) by (simp add: ef_env_init_def caches_cleared_def [symmetric] fresh_ram_def)
  moreover have "ready ?s default_store"
    using 3 flags default_store_props by (simp add: ready_def tidy_def sector_cache_ok_def env_cache_ok_def entries_def)
  ultimately show ?thesis by blast
qed

end
