(* ===== verification/EnvPower.thy ===== *)
theory EnvPower
  imports EnvMap
begin

text \<open>
  \<open>ef_set_env_blob\<close> on a chip that fails, or loses its supply, at any of its operations: the nodes of all
  other keys stay as they are, and of the key itself the old node stays intact until the new one is complete.
\<close>

section \<open>Statements that went well\<close>

text \<open>A statement that returned \<open>EF_NO_ERR\<close> did what it does on a chip without faults.\<close>

definition ideal :: "ef_world \<Rightarrow> ef_world" where
  "ideal w = w\<lparr>prog_fault := \<lambda>_. None, erase_fault := \<lambda>_. None\<rparr>"

lemma good_ideal: "good_chip (ideal w)"
  by (simp add: good_chip_def ideal_def)

lemma well_write: "ef_port_write w a bs s = (EF_NO_ERR, s') \<Longrightarrow> ef_port_write (ideal w) a bs s = (EF_NO_ERR, s')"
  by (auto simp: ef_port_write_def ideal_def split: option.splits)

lemma well_status: "write_status w a n st s = (EF_NO_ERR, s') \<Longrightarrow> write_status (ideal w) a n st s = (EF_NO_ERR, s')"
  by (auto simp: write_status_def well_write split: prod.splits option.splits)

lemma ok_thenE:
  assumes "ok_then p f = (EF_NO_ERR, s')"
  obtains s1 where "p = (EF_NO_ERR, s1)" "f s1 = (EF_NO_ERR, s')"
  using assms by (cases p) (auto simp: ok_then_def split: if_splits)

lemma well_sec_status:
  assumes "update_sec_status w sector n s = (b, EF_NO_ERR, s')"
  shows "update_sec_status (ideal w) sector n s = (b, EF_NO_ERR, s')"
proof -
  have *: "write_status (ideal w) a k st s = write_status w a k st s"
    if "fst (write_status w a k st s) = EF_NO_ERR" for a k st
    using that well_status by (metis prod.collapse)
  show ?thesis
    using assms by (auto simp: update_sec_status_def * case_prod_beta Let_def split: if_splits)
qed

lemma well_align: "align_write w a bs s = (EF_NO_ERR, s') \<Longrightarrow> align_write (ideal w) a bs s = (EF_NO_ERR, s')"
  by (auto simp: align_write_def well_write split: if_splits)

lemma well_hdr:
  assumes "write_env_hdr w a h s = (EF_NO_ERR, s')"
  shows "write_env_hdr (ideal w) a h s = (EF_NO_ERR, s')"
  using assms unfolding write_env_hdr_def by (elim ok_thenE) (simp add: well_status well_write)

lemma well_write_node:
  assumes "write_node w sector a key value s = (EF_NO_ERR, s')"
  shows "write_node (ideal w) sector a key value s = (EF_NO_ERR, s')"
proof -
  obtain is_full r0 s0 where u: "update_sec_status w sector (env_size_of key value) s = (is_full, r0, s0)"
    by (metis prod_cases3)
  let ?cached = "\<lambda>s1. update_env_cache key a
      (if is_full then s1 else update_sector_cache (sec_addr sector) (a + 24 + length key + length value) s1)"
  let ?name = "\<lambda>w s. case align_write w (a + 24) key s of (result, s1) \<Rightarrow> (result, ?cached s1)"
  let ?val = "\<lambda>w. align_write w (a + 24 + length key) value" and ?hdr = "\<lambda>w. write_env_hdr w a (new_env_hdr key value)"
  have "ok_then (ok_then (ok_then (ok_then (ok_then (r0, s0) (?hdr w)) (?name w)) (?val w)) (write_status w a 6 2))
      (\<lambda>s. (EF_NO_ERR, if is_full then s\<lparr>gc_request := True\<rparr> else s)) = (EF_NO_ERR, s')"
    using assms by (simp only: write_node_def Let_def new_env_hdr_sel u prod.case)
  then obtain s1 s2 s3 s4 where run: "(r0, s0) = (EF_NO_ERR, s0)" "?hdr w s0 = (EF_NO_ERR, s1)" "?name w s1 = (EF_NO_ERR, s2)"
    "?val w s2 = (EF_NO_ERR, s3)" "write_status w a 6 2 s3 = (EF_NO_ERR, s4)"
    "s' = (if is_full then s4\<lparr>gc_request := True\<rparr> else s4)"
    by (elim ok_thenE) auto
  then obtain e where e: "align_write w (a + 24) key s1 = (EF_NO_ERR, e)" "s2 = ?cached e"
    by (cases "align_write w (a + 24) key s1") simp
  have "update_sec_status (ideal w) sector (env_size_of key value) s = (is_full, EF_NO_ERR, s0)"
    using well_sec_status u run(1) by simp
  then show ?thesis
    using well_hdr [OF run(2)] well_align [OF e(1)] well_align [OF run(4)] well_status [OF run(5)] run(6) e(2)
    by (simp add: write_node_def Let_def)
qed

lemma well_mark_deleted:
  assumes "mark_deleted w key env c s = (EF_NO_ERR, s')"
  shows "mark_deleted (ideal w) key env c s = (EF_NO_ERR, s')"
proof -
  have *: "write_status (ideal w) a k st s = write_status w a k st s"
    if "fst (write_status w a k st s) = EF_NO_ERR" for a k st and s :: easyflash
    using that well_status by (metis prod.collapse)
  show ?thesis
    using assms by (auto simp: mark_deleted_def * case_prod_beta Let_def split: if_splits)
qed

section \<open>Statements that may fail\<close>

lemma stage_part:
  "get_status [x] 6 = st \<Longrightarrow> st < st' \<Longrightarrow> st' = 3 \<or> st' = 4 \<Longrightarrow> get_status [x AND (stage_byte st' OR y)] 6 \<in> {st, st'}"
  "get_status [x] 4 = 1 \<Longrightarrow> get_status [x AND (stage_byte 2 OR y)] 4 \<in> {1, 2}"
  by (auto simp: get_status_env get_status_sector bit_simps bit_stage_byte split: if_splits)

definition restaged :: "store \<Rightarrow> nat \<Rightarrow> nat \<Rightarrow> node list \<Rightarrow> node \<Rightarrow> node list \<Rightarrow> store" where
  "restaged S i d pre n post = S[i := (fst (S ! i), d, pre @ n # post)]"

text \<open>\<open>del_env\<close> leaves the node in the old stage or in the new one, whatever the chip does.\<close>

lemma mark_deleted_any:
  assumes S: "store_at (flash s) S" and i: "i < 4" "nodes (S ! i) = pre @ (st, k, v) # post"
    and p: "env_start env = log_end (sector_addr i + 16) pre" and st: "st < st'" "st' = (if complete then 4 else 3)"
    and run: "mark_deleted w (Some key) env complete s = (r, s')"
  shows "gc_request s' = gc_request s"
    "\<exists>d st''. st'' \<in> {st, st'} \<and> store_at (flash s') (restaged S i d pre (st'', k, v) post)"
proof -
  show "gc_request s' = gc_request s"
    using run by (auto simp: mark_deleted_def write_status_simps ef_port_write_def Let_def split: if_splits option.splits)
  let ?a = "sector_addr i" and ?p = "env_start env" and ?f = "flash s"
  have at: "sector_at ?f ?a (fst (S ! i), fst (snd (S ! i)), pre @ (st, k, v) # post)"
    using S i by (metis prod.collapse store_at_def)
  have old: "?a + 16 \<le> ?p" "?p < ?a + SECTOR_SIZE" "get_status [?f ?p] 6 = st"
    using sector_at_restaged(2-4) [OF at p refl refl, of ?f] by simp_all
  have a: "sector_of ?p = ?a" using i(1) old(1,2) by (intro sector_of_inside) simp_all
  have st': "st' = 3 \<or> st' = 4" using st(2) by simp
  have prog: "\<exists>m. flash (snd (ef_port_write w b [x] s)) = (\<lambda>y. if y = b then flash s y AND (x OR m) else flash s y)"
    for b x and s :: easyflash
    using ef_port_write_any [of w b "[x]" s, OF prod.collapse [symmetric]] by (force simp: program_def fun_eq_iff)
  obtain r1 s1 where w1: "ef_port_write w ?p [stage_byte st'] s = (r1, s1)" by fastforce
  obtain t where t: "flash t = flash s1" "(r, s') =
      (if r1 = EF_NO_ERR \<and> read_status (?a + 1) 4 t = 1 then ef_port_write w (?a + 1) [stage_byte 2] t else (r1, t))"
  proof (cases complete)
    case True
    then show ?thesis
      using st(2) w1 a that [of "(if \<not> last_is_complete_del s1 \<and> r1 = EF_NO_ERR
        then update_env_cache key FAILED_ADDR s1 else s1)\<lparr>last_is_complete_del := False\<rparr>"] run [symmetric]
      by (cases "\<not> last_is_complete_del s1 \<and> r1 = EF_NO_ERR")
        (auto simp: mark_deleted_def write_status_simps Let_def cong: if_cong)
  next
    case False
    then show ?thesis
      using st(2) w1 a that [of "s1\<lparr>last_is_complete_del := True\<rparr>"] run [symmetric]
      by (simp add: mark_deleted_def write_status_simps Let_def cong: if_cong)
  qed
  obtain m1 where m1: "flash s1 = (\<lambda>y. if y = ?p then ?f y AND (stage_byte st' OR m1) else ?f y)"
    using prog [of ?p "stage_byte st'" s] w1 by auto
  obtain m2 where m2: "flash (snd (ef_port_write w (?a + 1) [stage_byte 2] t)) =
      (\<lambda>y. if y = ?a + 1 then flash s1 y AND (stage_byte 2 OR m2) else flash s1 y)"
    using prog [of "?a + 1" "stage_byte 2" t] unfolding t(1) by blast
  have f1: "flash s' = flash s1 \<or> flash s' = (\<lambda>y. if y = ?a + 1 then flash s1 y AND (stage_byte 2 OR m2) else flash s1 y)"
    using t m2 by (metis snd_conv)
  have same: "flash s' x = ?f x" if "x \<noteq> ?p" "x \<noteq> ?a + 1" for x using f1 m1 that by auto
  have "flash s' ?p = ?f ?p AND (stage_byte st' OR m1)" using f1 m1 old(1) by auto
  then have part: "get_status [flash s' ?p] 6 \<in> {st, st'}" using stage_part(1) [OF old(3) st(1) st'] by simp
  have "sector_at (flash s') ?a (fst (S ! i), get_status [flash s' (?a + 1)] 4, pre @ (get_status [flash s' ?p] 6, k, v) # post)"
    by (intro sector_at_restaged(1) [OF at p] same refl)
  moreover have "flash s' x = ?f x" if "x < ?a \<or> ?a + SECTOR_SIZE \<le> x" for x
    using that old(1,2) by (intro same) (auto simp: SECTOR_SIZE_def)
  ultimately have "store_at (flash s') (restaged S i (get_status [flash s' (?a + 1)] 4) pre (get_status [flash s' ?p] 6, k, v) post)"
    unfolding restaged_def by (intro store_at_update [OF S i(1)])
  then show "\<exists>d st''. st'' \<in> {st, st'} \<and> store_at (flash s') (restaged S i d pre (st'', k, v) post)"
    using part by blast
qed

text \<open>A node that could not be written leaves the request for garbage collection alone.\<close>

lemma failed_node_gc:
  assumes "write_node w sector a key value s = (r, s')" "r \<noteq> EF_NO_ERR"
  shows "gc_request s' = gc_request s"
proof -
  have w: "gc_request (snd (ef_port_write w b bs s)) = gc_request s" for b bs and s :: easyflash
    by (simp add: ef_port_write_def split: option.split)
  have w': "ef_port_write w b bs s = (x, y) \<Longrightarrow> gc_request y = gc_request s" for b bs x y and s :: easyflash
    by (auto simp: ef_port_write_def split: option.splits)
  define G where "G s' \<longleftrightarrow> gc_request s' = gc_request s" for s' :: easyflash
  have o: "outcome G G p" if "G (snd p)" for p using that by (simp add: outcome_def)
  obtain is_full r0 s0 where u: "update_sec_status w sector (env_size_of key value) s = (is_full, r0, s0)"
    by (metis prod_cases3)
  have "gc_request s0 = gc_request s"
    using u w by (auto simp: update_sec_status_def write_status_simps Let_def split: if_splits prod.splits) (metis snd_conv)+
  then have "outcome G G (r0, s0)" by (intro o) (simp add: G_def)
  then have "outcome (\<lambda>_. True) G (write_node w sector a key value s)"
    unfolding write_node_def Let_def new_env_hdr_sel u prod.case
    by (intro outcome_then [where Q = G]) (auto simp: outcome_def G_def write_env_hdr_def ok_then_def write_status_pre_write
      write_status_simps align_write_def w split: prod.splits dest: w')
  then show ?thesis using assms by (simp add: outcome_def G_def)
qed

section \<open>What is left of the other nodes\<close>

lemma log_node_range:
  assumes "sector_log f b (pre @ (st, k, v) # post)" "p = log_end (b + 16) pre"
  shows "node_at f p st k v" "b + 16 \<le> p" "p + env_size_of k v \<le> log_end (b + 16) (pre @ (st, k, v) # post)"
    "p + env_size_of k v \<le> b + SECTOR_SIZE"
proof -
  show "node_at f p st k v" using assms by (simp add: sector_log_def log_at_append)
  show "b + 16 \<le> p" using assms(2) log_end_ge by simp
  show e: "p + env_size_of k v \<le> log_end (b + 16) (pre @ (st, k, v) # post)" using assms(2) log_end_ge by simp
  then show "p + env_size_of k v \<le> b + SECTOR_SIZE" using assms(1) by (simp add: sector_log_def)
qed

text \<open>A node that is being written touches no other one.\<close>

lemma untouched:
  assumes S: "store_at f S" and i: "i < 4" "nodes (S ! i) = pre @ (st, k, v) # post" "p = log_end (sector_addr i + 16) pre"
    and j: "j < 4" "e \<le> sector_addr j + SECTOR_SIZE" and o: "same_outside (sector_addr j) (free_addr j (S ! j)) e f g"
  shows "node_at g p st k v"
proof -
  have log: "sector_log f (sector_addr i) (pre @ (st, k, v) # post)" using store_at_log [OF S i(1)] i(2) by simp
  note r = log_node_range [OF log i(3)]
  have "f x = g x" if "p \<le> x" "x < p + env_size_of k v" for x
  proof -
    have "x \<noteq> sector_addr j \<and> (x < free_addr j (S ! j) \<or> e \<le> x)"
    proof (cases "i = j")
      case True
      then show ?thesis using r that i(2) by (auto simp: free_addr_def)
    next
      case False
      have "sector_addr j + 16 \<le> free_addr j (S ! j)" using log_end_ge by (simp add: free_addr_def)
      moreover have "sector_addr i + SECTOR_SIZE \<le> sector_addr j \<or> sector_addr j + SECTOR_SIZE \<le> sector_addr i"
        using False by (auto simp: sector_addr_def SECTOR_SIZE_def)
      ultimately show ?thesis using r that j(2) by auto
    qed
    then show ?thesis using o by (auto simp: same_outside_def)
  qed
  then show ?thesis using node_at_cong r(1) by metis
qed

text \<open>
  After an attempt to set a key: the nodes of other keys are valid as before, the place of the new node
  holds nothing valid or the new node, and the old node is valid, or about to be deleted, until the new one is.
\<close>

definition nothing_lost :: "store \<Rightarrow> uint8 list \<Rightarrow> uint8 list \<Rightarrow> nat \<Rightarrow> (nat \<Rightarrow> uint8) \<Rightarrow> bool" where
  "nothing_lost S key value a f \<longleftrightarrow>
     (\<forall>k v p. k \<noteq> key \<longrightarrow> store_lookup k S = Some (p, v) \<longrightarrow> node_at f p ENV_WRITE k v) \<and>
     torn_or_whole f a key value \<and>
     (\<forall>v p. store_lookup key S = Some (p, v) \<longrightarrow>
        node_at f p ENV_WRITE key v \<or> node_at f p ENV_PRE_DELETE key v \<or> node_at f a ENV_WRITE key value)"

lemma restaged_nth: "restaged S i d pre n post ! h = (if h = i \<and> i < length S then (fst (S ! i), d, pre @ n # post) else S ! h)"
  by (cases "i < length S") (auto simp: restaged_def nth_list_update list_update_beyond)

lemma restaged_lookup:
  "i < length S \<Longrightarrow> nodes (S ! i) = pre @ (st, key, v) # post \<Longrightarrow> k \<noteq> key \<or> st \<noteq> ENV_WRITE \<and> st' \<noteq> ENV_WRITE \<Longrightarrow>
    store_lookup k (restaged S i d pre (st', key, v) post) = store_lookup k S"
  unfolding restaged_def by (intro store_lookup_update) (auto simp: log_lookup_append split: option.split)

lemma restaged_free:
  "nodes (S ! i) = pre @ (st, k, v) # post \<Longrightarrow> free_addr j (restaged S i d pre (st', k, v) post ! h) = free_addr j (S ! h)"
  by (simp add: restaged_nth free_addr_def)

lemma store_node: "store_at f S \<Longrightarrow> i < 4 \<Longrightarrow> nodes (S ! i) = pre @ (st, k, v) # post \<Longrightarrow>
    node_at f (log_end (sector_addr i + 16) pre) st k v"
  using log_node_range(1) [OF _ refl] store_at_log by metis

text \<open>The free place of a sector holds nothing.\<close>

lemma free_place:
  assumes "store_at f S" "j < 4" "n < SECTOR_SIZE - log_end 16 (nodes (S ! j))"
  shows "get_status [f (free_addr j (S ! j))] 6 \<le> 1" "erased f (free_addr j (S ! j)) (free_addr j (S ! j) + n)"
    "free_addr j (S ! j) + n \<le> sector_addr j + SECTOR_SIZE" "sector_addr j < free_addr j (S ! j)"
proof -
  let ?b = "sector_addr j"
  have a: "free_addr j (S ! j) = ?b + log_end 16 (nodes (S ! j))" by (simp add: free_addr_def log_end_add)
  then have e: "free_addr j (S ! j) + n < ?b + SECTOR_SIZE" using assms(3) by (simp add: less_diff_conv add.commute)
  then show "free_addr j (S ! j) + n \<le> ?b + SECTOR_SIZE" by simp
  have er: "erased f (free_addr j (S ! j)) (?b + SECTOR_SIZE)"
    using store_at_log [OF assms(1,2)] by (simp add: sector_log_def free_addr_def)
  then show "erased f (free_addr j (S ! j)) (free_addr j (S ! j) + n)" using e by (auto intro: erased_sub)
  show "get_status [f (free_addr j (S ! j))] 6 \<le> 1" using er e by (intro status_unwritten) (simp add: erased_def)
  show "?b < free_addr j (S ! j)" using log_end_ge [of "?b + 16" "nodes (S ! j)"] by (simp add: free_addr_def)
qed

section \<open>Writing on any chip\<close>

lemma write_any:
  assumes s: "tidy s S" and fit: "env_fits key value" and j: "j < 4" "fst (S ! j) \<noteq> SECTOR_STORE_FULL"
    "has_room (env_size_of key value) (S ! j)" and m: "known_sector m (sector_addr j) (S ! j)"
    and run: "write_node w m (free_addr j (S ! j)) key value s = (r, s')"
  shows "torn_or_whole (flash s') (free_addr j (S ! j)) key value"
    "i < 4 \<Longrightarrow> nodes (S ! i) = pre @ (st, k, v) # post \<Longrightarrow> node_at (flash s') (log_end (sector_addr i + 16) pre) st k v"
    "r \<noteq> EF_NO_ERR \<Longrightarrow> gc_request s' = gc_request s"
    "r = EF_NO_ERR \<Longrightarrow> tidy s' (S[j := grown (S ! j) key value]) \<and>
      gc_request s' = (fills (env_size_of key value) (S ! j) \<or> gc_request s)"
proof -
  let ?a = "free_addr j (S ! j)" and ?e = "free_addr j (S ! j) + env_size_of key value"
  have S: "store_at (flash s) S" using s by (simp add: tidy_def)
  have "env_size_of key value < SECTOR_SIZE - log_end 16 (nodes (S ! j))" using j(3) by (simp add: has_room_def)
  note free = free_place [OF S j(1) this]
  have ad: "sec_addr m = sector_addr j" using m by (simp add: known_sector_def)
  have o: "outcome (\<lambda>s'. node_at (flash s') ?a 2 key value \<and> same_outside (sector_addr j) ?a ?e (flash s) (flash s'))
      (\<lambda>s'. torn_or_whole (flash s') ?a key value \<and> same_outside (sector_addr j) ?a ?e (flash s) (flash s')) (r, s')"
    using write_node_outcome [OF fit free(2), of m w] free(4) ad run by simp
  then show "torn_or_whole (flash s') ?a key value" by (auto simp: outcome_def torn_or_whole_def split: if_splits)
  have "same_outside (sector_addr j) ?a ?e (flash s) (flash s')" using o by (auto simp: outcome_def split: if_splits)
  then show "i < 4 \<Longrightarrow> nodes (S ! i) = pre @ (st, k, v) # post \<Longrightarrow> node_at (flash s') (log_end (sector_addr i + 16) pre) st k v"
    by (intro untouched [OF S _ _ refl j(1) free(3)])
  show "r \<noteq> EF_NO_ERR \<Longrightarrow> gc_request s' = gc_request s" using failed_node_gc [OF run] .
  show "tidy s' (S[j := grown (S ! j) key value]) \<and> gc_request s' = (fills (env_size_of key value) (S ! j) \<or> gc_request s)"
    if "r = EF_NO_ERR"
  proof -
    have i: "write_node (ideal w) m ?a key value s = (EF_NO_ERR, s')" using well_write_node run that by simp
    obtain s2 where "write_node (ideal w) m ?a key value s = (EF_NO_ERR, s2)" "tidy s2 (S[j := grown (S ! j) key value])"
      "gc_request s2 = (fills (env_size_of key value) (S ! j) \<or> gc_request s)"
      using put_node [OF good_ideal s fit j m] by blast
    then show ?thesis using i by simp
  qed
qed

text \<open>Both parts of \<open>set_env\<close>, from the sector that was chosen on.\<close>

lemma set_new_any:
  assumes s: "tidy s S" and fit: "env_fits key value" and j: "j < 4" "fst (S ! j) \<noteq> SECTOR_STORE_FULL"
    "has_room (env_size_of key value) (S ! j)" and m: "known_sector m (sector_addr j) (S ! j)"
    and none: "store_lookup key S = None" and gc: "\<not> gc_request s" "fills (env_size_of key value) (S ! j) \<longrightarrow> 1 < empties S"
    and run: "write_node w m (free_addr j (S ! j)) key value s = (r, s')"
  shows "nothing_lost S key value (free_addr j (S ! j)) (flash s')"
    "(if gc_request s' then gc_collect w s' else Some s') = Some (s'\<lparr>gc_request := False\<rparr>)"
proof -
  have len: "length S = 4" using s by (simp add: tidy_def store_at_def)
  note any = write_any [OF s fit j m run]
  have "node_at (flash s') p 2 k v" if look: "store_lookup k S = Some (p, v)" for k p v
  proof -
    obtain i pre post where "i < 4" "nodes (S ! i) = pre @ (2, k, v) # post" "p = log_end (sector_addr i + 16) pre"
      using store_lookup_at [OF look len] by blast
    then show ?thesis using any(2) by simp
  qed
  then show "nothing_lost S key value (free_addr j (S ! j)) (flash s')" using any(1) none by (simp add: nothing_lost_def)
  show "(if gc_request s' then gc_collect w s' else Some s') = Some (s'\<lparr>gc_request := False\<rparr>)"
  proof (cases "r = EF_NO_ERR")
    case True
    then have "tidy s' (S[j := grown (S ! j) key value])" "gc_request s' \<longrightarrow> fills (env_size_of key value) (S ! j)"
      using any(4) gc(1) by simp_all
    moreover have "empties (S[j := grown (S ! j) key value]) = empties S" if "fills (env_size_of key value) (S ! j)"
      using that by (intro empties_update) (auto simp: fills_def grown_def)
    ultimately show ?thesis using gc(2) by (intro gc_after) (auto simp: tidy_def)
  next
    case False
    then show ?thesis using any(3) gc(1) by simp
  qed
qed

lemma restaged_map_fst: "map fst (restaged S i d pre n post) = map fst S"
  by (cases "i < length S") (simp_all add: restaged_def map_update list_update_same_conv list_update_beyond)

text \<open>The old node while the first mark is being written.\<close>

lemma lost_marking:
  assumes f: "store_at f (restaged S i d pre (st, key, v) post)" "st = 2 \<or> st = 3" and i: "i < 4" "length S = 4"
    "nodes (S ! i) = pre @ (2, key, v) # post" and look: "store_lookup key S = Some (log_end (sector_addr i + 16) pre, v)"
    and j: "j < 4" "env_size_of key value < SECTOR_SIZE - log_end 16 (nodes (S ! j))"
  shows "nothing_lost S key value (free_addr j (S ! j)) f"
proof -
  let ?S = "restaged S i d pre (st, key, v) post"
  have "node_at f p 2 k u" if "k \<noteq> key" "store_lookup k S = Some (p, u)" for k u p
  proof -
    have "store_lookup k ?S = Some (p, u)" using restaged_lookup [OF _ i(3)] that i(1,2) by simp
    then show ?thesis by (rule store_lookup_node(1)) (rule f(1))
  qed
  moreover have "node_at f (log_end (sector_addr i + 16) pre) st key v"
    using i(1,2) by (intro store_node [OF f(1), of i pre st key v post]) (simp_all add: restaged_nth)
  moreover have "get_status [f (free_addr j (S ! j))] 6 \<le> 1"
  proof -
    have "log_end 16 (nodes (?S ! j)) = log_end 16 (nodes (S ! j))" using i(3) by (simp add: restaged_nth)
    then show ?thesis using free_place(1) [OF f(1) j(1), of "env_size_of key value"] j(2) restaged_free [OF i(3)] by simp
  qed
  ultimately show ?thesis using f(2) look by (auto simp: nothing_lost_def torn_or_whole_def)
qed

text \<open>The old node while the new one is being written.\<close>

lemma lost_writing:
  assumes n: "\<And>h pre' st' k u post'. h < 4 \<Longrightarrow> nodes (S1 ! h) = pre' @ (st', k, u) # post' \<Longrightarrow>
      node_at f (log_end (sector_addr h + 16) pre') st' k u" and t: "torn_or_whole f a key value"
    and S1: "S1 = marked S i pre (3, key, v) post" and i: "i < 4" "length S = 4" "nodes (S ! i) = pre @ (2, key, v) # post"
    and look: "store_lookup key S = Some (log_end (sector_addr i + 16) pre, v)"
  shows "nothing_lost S key value a f"
proof -
  have il: "i < length S" using i(1,2) by simp
  have len: "length S1 = 4" using S1 i(2) by (simp add: marked_def)
  have "node_at f p 2 k u" if "k \<noteq> key" "store_lookup k S = Some (p, u)" for k u p
  proof -
    have "store_lookup k S1 = Some (p, u)" using marked_lookup(1) [OF il i(3), of 3 k] that S1 by simp
    then obtain h pre' post' where "h < 4" "nodes (S1 ! h) = pre' @ (2, k, u) # post'" "p = log_end (sector_addr h + 16) pre'"
      using store_lookup_at len by blast
    then show ?thesis using n by simp
  qed
  moreover have "node_at f (log_end (sector_addr i + 16) pre) 3 key v"
    using il S1 by (intro n [OF i(1), of pre 3 key v post]) (simp add: marked_nth)
  ultimately show ?thesis using t look by (auto simp: nothing_lost_def)
qed

text \<open>The old node while the second mark is being written.\<close>

lemma lost_deleting:
  assumes f: "store_at f (restaged S2 i d pre (st, key, v) post')" "st = 3 \<or> st = 4"
    and i: "i < length S2" "nodes (S2 ! i) = pre @ (3, key, v) # post'"
    and look: "store_lookup key S2 = Some (a, value)" "\<And>k. k \<noteq> key \<Longrightarrow> store_lookup k S2 = store_lookup k S"
  shows "nothing_lost S key value a f"
proof -
  let ?S = "restaged S2 i d pre (st, key, v) post'"
  have same: "store_lookup k ?S = store_lookup k S2" for k using restaged_lookup [OF i] f(2) by auto
  have "node_at f p 2 k u" if "k \<noteq> key" "store_lookup k S = Some (p, u)" for k u p
  proof (rule store_lookup_node(1) [OF _ f(1)])
    show "store_lookup k ?S = Some (p, u)" unfolding same look(2) [OF that(1)] by (rule that(2))
  qed
  moreover have "node_at f a 2 key value"
  proof (rule store_lookup_node(1) [OF _ f(1)])
    show "store_lookup key ?S = Some (a, value)" unfolding same by (rule look(1))
  qed
  ultimately show ?thesis by (auto simp: nothing_lost_def torn_or_whole_def)
qed

definition gc_idle :: "ef_world \<Rightarrow> easyflash \<Rightarrow> bool" where
  "gc_idle w s \<longleftrightarrow> (if gc_request s then gc_collect w s else Some s) = Some (s\<lparr>gc_request := False\<rparr>)"

lemma gc_idle_quiet: "\<not> gc_request s \<Longrightarrow> gc_idle w s"
  by (simp add: gc_idle_def)

definition replace_node ::
  "ef_world \<Rightarrow> sector_meta_data \<Rightarrow> nat \<Rightarrow> uint8 list \<Rightarrow> uint8 list \<Rightarrow> env_node_obj \<Rightarrow> easyflash \<Rightarrow> EfErrCode \<times> easyflash" where
  "replace_node w m a key value env s =
     ok_then (ok_then (mark_deleted w (Some key) env False s) (write_node w m a key value)) (mark_deleted w (Some key) env True)"

text \<open>The second mark, when the new node is written.\<close>

lemma replace_written:
  assumes S: "tidy s S2" "S2 = S1[j := grown (S1 ! j) key value]" "S1 = marked S i pre (3, key, v) post"
    and i: "i < 4" "length S = 4" "nodes (S ! i) = pre @ (2, key, v) # post" "live_once S" and j: "j < 4"
    and gc: "gc_request s \<longrightarrow> fills (env_size_of key value) (S ! j)" "fills (env_size_of key value) (S ! j) \<longrightarrow> 1 < empties S"
    and p: "env_start env = log_end (sector_addr i + 16) pre" and run: "mark_deleted w (Some key) env True s = (r, s')"
  shows "nothing_lost S key value (free_addr j (S ! j)) (flash s') \<and> gc_idle w s'"
proof -
  have il: "i < length S" "j < length S1" "i < length S2" using i(1,2) j S(2,3) by (simp_all add: marked_def)
  obtain post' where i2: "nodes (S2 ! i) = pre @ (3, key, v) # post'"
    using marked_grown_node [OF i(3) il(1)] S(2,3) by metis
  have S2: "store_at (flash s) S2" using S(1) by (simp add: tidy_def)
  note any = mark_deleted_any [OF S2 i(1) i2 p _ _ run, of 4]
  obtain d st where d: "st = 3 \<or> st = 4" "store_at (flash s') (restaged S2 i d pre (st, key, v) post')" using any(2) by auto
  have none: "store_lookup key S1 = None" using marked_lookup(3) [OF il(1) i(3), of 3] i(4) S(3) by simp
  note g = grown_lookup(1,2) [OF il(2) none]
  have "store_lookup key S2 = Some (free_addr j (S ! j), value)"
    using g(2) marked_same(1) [OF i(3)] S(2,3) by simp
  moreover have "store_lookup k S2 = store_lookup k S" if "k \<noteq> key" for k
    using g(1) [of k] marked_lookup(1) [OF il(1) i(3), of 3 k] that S(2,3) by simp
  ultimately have "nothing_lost S key value (free_addr j (S ! j)) (flash s')" by (rule lost_deleting [OF d(2,1) il(3) i2])
  moreover have "gc_idle w s'"
  proof -
    have "empties (restaged S2 i d pre (st, key, v) post') = empties S2" by (intro empties_map restaged_map_fst)
    moreover have "empties S1 = empties S" unfolding S(3) by (intro empties_map marked_map_fst)
    moreover have "empties S2 = empties S1" if "fills (env_size_of key value) (S ! j)"
      using that marked_sectors(2) [OF i(3)] unfolding S(2,3) by (intro empties_update) (auto simp: fills_def grown_def)
    ultimately show ?thesis using gc_after [OF d(2)] gc any(1) unfolding gc_idle_def by simp
  qed
  ultimately show ?thesis by simp
qed

lemma replace_any:
  assumes s: "tidy s S" "live_once S" "\<not> gc_request s" and look: "store_lookup key S = Some (p, v)" and p: "env_start env = p"
    and fit: "env_fits key value" and j: "j < 4" "fst (S ! j) \<noteq> SECTOR_STORE_FULL" "has_room (env_size_of key value) (S ! j)"
    and m: "known_sector m (sector_addr j) (S ! j)" and gc: "fills (env_size_of key value) (S ! j) \<longrightarrow> 1 < empties S"
  defines "a \<equiv> free_addr j (S ! j)"
  shows "nothing_lost S key value a (flash (snd (replace_node w m a key value env s))) \<and> gc_idle w (snd (replace_node w m a key value env s))"
proof -
  have S: "store_at (flash s) S" and len: "length S = 4" using s(1) by (simp_all add: tidy_def store_at_def)
  obtain i pre post where i: "i < 4" "nodes (S ! i) = pre @ (2, key, v) # post" "p = log_end (sector_addr i + 16) pre"
    using store_lookup_at [OF look len] by blast
  have il: "i < length S" "j < length S" using i(1) j(1) len by simp_all
  have pe: "env_start env = log_end (sector_addr i + 16) pre" using p i(3) by simp
  note look' = look [unfolded i(3)]
  obtain r1 s3 where 1: "mark_deleted w (Some key) env False s = (r1, s3)" by fastforce
  note any1 = mark_deleted_any [OF S i(1,2) pe _ _ 1, of 3]
  show ?thesis
  proof (cases "r1 = EF_NO_ERR")
    case False
    have room: "env_size_of key value < SECTOR_SIZE - log_end 16 (nodes (S ! j))" using j(3) by (simp add: has_room_def)
    obtain d st where d: "st = 2 \<or> st = 3" "store_at (flash s3) (restaged S i d pre (st, key, v) post)" using any1(2) by auto
    have "nothing_lost S key value a (flash s3)"
      unfolding a_def by (rule lost_marking [OF d(2,1) i(1) len i(2) look' j(1) room])
    then show ?thesis using False 1 any1(1) s(3) by (simp add: replace_node_def gc_idle_quiet)
  next
    case True
    let ?S1 = "marked S i pre (3, key, v) post"
    let ?S2 = "?S1[j := grown (?S1 ! j) key value]"
    note same = marked_same [OF i(2), where st' = 3] and sec = marked_sectors [OF i(2), where st' = 3]
    have "mark_deleted (ideal w) (Some key) env False s = (EF_NO_ERR, s3)" using well_mark_deleted 1 True by simp
    then have s3: "tidy s3 ?S1" "gc_request s3 = gc_request s"
      using mark_stage [OF good_ideal [of w] s(1) i(1,2) pe, of 3 False key] by auto
    obtain r2 s4 where 2: "write_node w m a key value s3 = (r2, s4)" by fastforce
    have any2: "torn_or_whole (flash s4) a key value"
      "h < 4 \<Longrightarrow> nodes (?S1 ! h) = pre' @ (st', k, u) # post' \<Longrightarrow> node_at (flash s4) (log_end (sector_addr h + 16) pre') st' k u"
      "r2 \<noteq> EF_NO_ERR \<Longrightarrow> gc_request s4 = gc_request s3"
      "r2 = EF_NO_ERR \<Longrightarrow> tidy s4 ?S2 \<and> gc_request s4 = (fills (env_size_of key value) (S ! j) \<or> gc_request s3)"
      for h pre' st' k u post'
      using write_any [OF s3(1) fit j(1), of m w r2 s4] j m 2 same sec unfolding a_def by auto
    show ?thesis
    proof (cases "r2 = EF_NO_ERR")
      case False
      have "nothing_lost S key value a (flash s4)"
        by (rule lost_writing [OF any2(2) any2(1) refl i(1) len i(2) look'])
      then show ?thesis using False True 1 2 any2(3) s3(2) s(3) by (simp add: replace_node_def gc_idle_quiet)
    next
      case ok: True
      have s4: "tidy s4 ?S2" "gc_request s4 \<longrightarrow> fills (env_size_of key value) (S ! j)" using any2(4) ok s3(2) s(3) by simp_all
      obtain r3 s5 where 3: "mark_deleted w (Some key) env True s4 = (r3, s5)" by fastforce
      have "nothing_lost S key value a (flash s5) \<and> gc_idle w s5"
        unfolding a_def by (rule replace_written [OF s4(1) refl refl i(1) len i(2) s(2) j(1) s4(2) gc pe 3])
      then show ?thesis using True ok 1 2 3 by (simp add: replace_node_def)
    qed
  qed
qed

section \<open>Setting a key on any chip\<close>

definition node_place :: "store \<Rightarrow> uint8 list \<Rightarrow> uint8 list \<Rightarrow> nat" where
  "node_place S key value = (case chosen S (env_size_of key value) of Some j \<Rightarrow> free_addr j (S ! j) | None \<Rightarrow> FAILED_ADDR)"

lemma set_env_runs:
  assumes new: "new_env_by_kv w (set_env_sector s) (length key) (length value) s = Some (empty_env m, m, s1)"
    and m: "empty_env m \<noteq> FAILED_ADDR" and fit: "env_fits key value"
    and f: "find_env w key (set_env_env s1) s1 = Some (b, env, s2)"
    and t: "t = (if b then replace_node w m (empty_env m) key value env s2 else write_node w m (empty_env m) key value s2)"
    and g: "gc_idle w (snd t)"
  shows "set_env w key value s = Some (fst t, (snd t)\<lparr>gc_request := False, set_env_env := env, set_env_sector := m\<rparr>)"
proof -
  note create = create_blob_known [OF fit m, of w]
  show ?thesis
  proof (cases b)
    case False
    then show ?thesis
      using new m f g create t by (cases "gc_request (snd t)") (simp_all add: set_env_def gc_idle_def case_prod_beta)
  next
    case True
    obtain r1 s3 where 1: "mark_deleted w (Some key) env False s2 = (r1, s3)" by fastforce
    obtain r2 s4 where 2: "write_node w m (empty_env m) key value s3 = (r2, s4)" by fastforce
    obtain r3 s5 where 3: "mark_deleted w (Some key) env True s4 = (r3, s5)" by fastforce
    have "t = (if r1 \<noteq> EF_NO_ERR then (r1, s3) else if r2 \<noteq> EF_NO_ERR then (r2, s4) else (r3, s5))"
      using True t 1 2 3 by (simp add: replace_node_def)
    then show ?thesis
      using True new m f g create 1 2 3 by (auto simp: set_env_def gc_idle_def split: if_splits)
  qed
qed

end
