(* ===== verification/EnvProperties.thy ===== *)
theory EnvProperties
  imports EnvRestart EnvPower
begin

text \<open>
  The properties of the key/value store: reading, setting and removing keys, the first start, a restart,
  and a failure of the chip while a value is being set. Each is also applied to a blank chip that was
  started for the first time.
\<close>

section \<open>A blank chip\<close>

definition zero_env :: env_node_obj where
  "zero_env = \<lparr>env_status = 0, crc_is_ok = False, env_name_len = 0, env_len = 0, env_value_len = 0, env_name = [],
     env_start = 0, env_value = 0\<rparr>"

definition zero_sector :: sector_meta_data where
  "zero_sector = \<lparr>check_ok = False, sec_store = 0, sec_dirty = 0, sec_addr = 0, sec_magic = 0, combined = 0, remain = 0,
     empty_env = 0\<rparr>"

text \<open>A chip that works, and one whose supply fails at its operation number \<open>n\<close>.\<close>

definition sure_world :: ef_world where
  "sure_world = \<lparr>prog_fault = (\<lambda>_. None), erase_fault = (\<lambda>_. None), env_uninit = zero_env, sector_uninit = zero_sector\<rparr>"

definition cut_world :: "nat \<Rightarrow> ef_world" where
  "cut_world n = sure_world\<lparr>prog_fault := \<lambda>k. if k < n then None else Some (\<lambda>_. 0xFF)\<rparr>"

definition blank :: easyflash where
  "blank = \<lparr>flash = (\<lambda>_. 0xFF), chip_ops = 0, env_init_ok = False, gc_request = False, in_recovery_check = False,
     last_is_complete_del = False,
     env_cache_table = replicate EF_ENV_CACHE_TABLE_SIZE \<lparr>name_crc = 0, cache_active = 0, cache_addr = 0\<rparr>,
     sector_cache_table = replicate EF_SECTOR_CACHE_TABLE_SIZE \<lparr>sc_addr = 0, empty_addr = 0\<rparr>,
     set_env_env = zero_env, set_env_sector = zero_sector\<rparr>"

lemma sure_good: "good_chip sure_world"
  by (simp add: good_chip_def sure_world_def)

lemma blank_fresh: "fresh_ram blank"
  by (simp add: fresh_ram_def blank_def)

lemma blank_unmarked: "\<forall>i < 4. unmarked (flash blank) (sector_addr i)"
proof -
  have "map (\<lambda>_. 0xFF :: uint8) [a..<a + 4] = [0xFF, 0xFF, 0xFF, 0xFF]" for a
    by (simp add: map_replicate_const numeral_eq_Suc)
  then show ?thesis by (simp add: unmarked_def blank_def le32_def)
qed

lemma blank_started: "\<exists>s. ef_env_init sure_world blank = Some (EF_NO_ERR, s) \<and> ready s default_store"
  using first_start_store [OF sure_good blank_fresh blank_unmarked] .

lemma default_told_apart: "told_apart (bytes_of ''Author'') default_store"
  unfolding told_apart_def using default_lookup(1) no_store_lookup by metis

lemma default_sector: "default_store = [(SECTOR_STORE_USING, SECTOR_DIRTY_FALSE, [(ENV_WRITE, bytes_of ''Author'', bytes_of ''Rick'')]),
    empty_sector, empty_sector, empty_sector]"
  using no_store_chosen(2) by (simp add: default_store_def no_store_def grown_def empty_sector_def numeral_eq_Suc)

lemma default_room: "room_for default_store (bytes_of ''Author'') [1, 2, 3]"
proof -
  have n: "env_size_of (bytes_of ''Author'') [1, 2, 3] = 33" by (simp add: env_size_of_def bytes_default)
  have l: "log_end 16 (nodes (default_store ! 0)) = 50" by (simp add: default_sector size_default)
  have "has_room 33 (default_store ! 0)" "\<not> fills 33 (default_store ! 0)" "fst (default_store ! 0) = 2"
    using l by (simp_all add: has_room_def fills_def SECTOR_SIZE_def) (simp_all add: default_sector)
  then have "chosen default_store 33 = Some 0" by (simp add: chosen_def upt_rec)
  then show ?thesis
    using \<open>\<not> fills 33 (default_store ! 0)\<close> n
    by (simp add: room_for_def env_fits_def bytes_default EF_ENV_NAME_MAX_def SECTOR_SIZE_def)
qed

section \<open>The properties\<close>

text \<open>
  C20: On a well-formed store in which no other key has the 16-bit checksum of this one, by which the cache of names tells keys
  apart (\<open>told_apart\<close>), \<open>ef_get_env_blob\<close> reads what the abstract map holds under the key, cut to the length of
  the buffer, whichever of the two caches knows of it, and leaves the flash as it is.
\<close>

theorem get_env_reads:
  assumes "holds_store s S" "told_apart key S" "env_init_ok s"
  shows "\<exists>s'. ef_get_env_bytes w key n s =
      Some (case store_map S key of None \<Rightarrow> [] | Some value \<Rightarrow> take n value, s') \<and>
    flash s' = flash s \<and> holds_store s' S"
proof (cases "store_lookup key S")
  case None
  then show ?thesis
    using find_env_lookup [OF assms(1,2), where w = w and env = "env_uninit w"] assms
    by (auto simp: ef_get_env_bytes_def get_env_def store_map_def)
next
  case (Some q)
  obtain p v where q: "q = (p, v)" by (cases q)
  obtain env0 t where f: "find_env w key (env_uninit w) s = Some (True, env_of env0 p 2 key v, s\<lparr>env_cache_table := t\<rparr>)"
    and t: "holds_store (s\<lparr>env_cache_table := t\<rparr>) S"
    using find_env_lookup [OF assms(1,2), where w = w and env = "env_uninit w"] Some q by auto
  have "node_at (flash (s\<lparr>env_cache_table := t\<rparr>)) p 2 key v"
    using store_lookup_node(1) [of key S p v] Some q assms(1) by (simp add: holds_store_def)
  then have "ef_port_read (p + 24 + length key) (length v) (s\<lparr>env_cache_table := t\<rparr>) = v" by (rule node_value)
  then have "ef_port_read (p + 24 + length key) (min n (length v)) (s\<lparr>env_cache_table := t\<rparr>) = take n v"
    by (metis take_ef_port_read)
  moreover have "(if length v < n then length v else n) = min n (length v)" by simp
  ultimately have "ef_port_read (p + 24 + length key) (if length v < n then length v else n) (s\<lparr>env_cache_table := t\<rparr>) = take n v"
    by simp
  then show ?thesis
    using f t Some q assms(3)
    by (cases "length v < n") (simp_all add: ef_get_env_bytes_def get_env_def store_map_def Let_def)
qed

lemma get_env_reads_witness:
  "\<exists>s s'. ef_env_init sure_world blank = Some (EF_NO_ERR, s) \<and>
    ef_get_env_bytes sure_world (bytes_of ''Author'') 3 s = Some (bytes_of ''Ric'', s')"
proof -
  obtain s where s: "ef_env_init sure_world blank = Some (EF_NO_ERR, s)" "ready s default_store"
    using blank_started by blast
  have i: "env_init_ok s" using s(2) by (simp add: ready_def)
  have "take 3 (bytes_of ''Rick'') = bytes_of ''Ric''" by (simp add: bytes_of_def)
  then show ?thesis
    using get_env_reads [OF ready_holds [OF s(2)] default_told_apart i, of sure_world 3] s(1)
    by (auto simp: default_store_props(3))
qed

text \<open>
  C18: Between two calls the store holds a map. On a chip that works, for a key that no other key of the store shares its
  16-bit checksum with (\<open>told_apart\<close>), and, when a value is given, a value that fits into a node, for which a
  sector has a place without a garbage collection becoming due (\<open>room_for\<close>): \<open>ef_set_env_blob\<close>
  returns \<open>EF_NO_ERR\<close> and has updated the map at the key, whether the key was there or not, and with the
  null pointer it has removed the key, or returns \<open>EF_ENV_NAME_ERR\<close> and has changed nothing. The
  store is then again as the next call needs it: well-formed in flash, one valid node to a key, both caches right.
\<close>

theorem set_env_updates:
  assumes "good_chip w" "ready s S" "told_apart key S" "\<And>value. value_buf = Some value \<Longrightarrow> room_for S key value"
  shows "\<exists>s' S'. ef_set_env_blob w key value_buf s =
      Some (if value_buf = None \<and> store_map S key = None then EF_ENV_NAME_ERR else EF_NO_ERR, s') \<and>
    ready s' S' \<and> store_map S' = (store_map S)(key := value_buf)"
proof (cases value_buf)
  case None
  then show ?thesis using del_env_ready [OF assms(1-3)] assms(2) by (auto simp: ef_set_env_blob_def ready_def)
next
  case (Some v)
  then show ?thesis
    using set_env_new [OF assms(1-3) assms(4) [OF Some]] set_env_old [OF assms(1-3) assms(4) [OF Some]] assms(2)
    by (cases "store_lookup key S") (auto simp: ef_set_env_blob_def ready_def)
qed

lemma set_env_updates_witness:
  "\<exists>s s' S. ef_env_init sure_world blank = Some (EF_NO_ERR, s) \<and>
    ef_set_env_blob sure_world (bytes_of ''Author'') (Some [1, 2, 3]) s = Some (EF_NO_ERR, s') \<and> ready s' S \<and>
    store_map S = [bytes_of ''Author'' \<mapsto> [1, 2, 3]]"
proof -
  obtain s where s: "ef_env_init sure_world blank = Some (EF_NO_ERR, s)" "ready s default_store"
    using blank_started by blast
  have "room_for default_store (bytes_of ''Author'') v" if "Some [1, 2, 3] = Some v" for v
    using default_room that by simp
  from set_env_updates [where value_buf = "Some [1, 2, 3]", OF sure_good s(2) default_told_apart this] s(1)
  show ?thesis by (auto simp: default_store_props(3))
qed

text \<open>
  C19: A power loss, or any failure of the chip, at any operation of setting a value that needs no garbage collection
  (\<open>room_for\<close>), for a key that no other key of the store shares its 16-bit checksum with (\<open>told_apart\<close>):
  \<open>ef_set_env_blob\<close> returns, all other keys have their valid nodes as before, and of the key itself the old node is
  still there, complete and not yet marked as deleted, unless the new one is complete; a half-written node
  is never a valid one. Nothing is claimed of a set that collects garbage.
\<close>

theorem set_env_power_safe:
  assumes "ready s S" "told_apart key S" "room_for S key value"
  shows "\<exists>r s'. ef_set_env_blob w key (Some value) s = Some (r, s') \<and>
    nothing_lost S key value (node_place S key value) (flash s')"
proof -
  let ?n = "env_size_of key value"
  obtain j where j: "chosen S ?n = Some j" and fit: "env_fits key value" and gc: "fills ?n (S ! j) \<longrightarrow> 1 < empties S"
    using assms(3) by (auto simp: room_for_def split: option.splits)
  have j4: "j < 4" "fst (S ! j) \<noteq> 3" "has_room ?n (S ! j)" using chosen_Some [OF j] by auto
  have a: "tidy s S" "\<not> gc_request s" "live_once S" using assms(1) by (simp_all add: ready_def)
  let ?p = "free_addr j (S ! j)"
  obtain m t where t: "tidy (s\<lparr>sector_cache_table := t\<rparr>) S" "empty_env m = ?p" "?p \<noteq> FAILED_ADDR"
    "known_sector m (sector_addr j) (S ! j)"
    "new_env_by_kv w (set_env_sector s) (length key) (length value) s = Some (?p, m, s\<lparr>sector_cache_table := t\<rparr>)"
    using new_env_chosen [OF a(1,2) j, where w = w and sector = "set_env_sector s"] by blast
  let ?s = "s\<lparr>sector_cache_table := t\<rparr>"
  obtain b env s2 where f: "find_env w key (set_env_env ?s) ?s = Some (b, env, s2)"
    and l: "nothing_lost S key value ?p (flash (snd (if b then replace_node w m ?p key value env s2 else write_node w m ?p key value s2)))"
      "gc_idle w (snd (if b then replace_node w m ?p key value env s2 else write_node w m ?p key value s2))"
  proof (cases "store_lookup key S")
    case None
    have h: "holds_store ?s S" using assms(1) t(1) by (simp add: ready_def holds_store_def tidy_def env_cache_ok_def entries_def)
    obtain env where f: "find_env w key (set_env_env ?s) ?s = Some (False, env, ?s)"
      using find_env_lookup [OF h assms(2), where w = w and env = "set_env_env ?s"] None by auto
    obtain r s' where "write_node w m ?p key value ?s = (r, s')" by fastforce
    moreover from set_new_any [OF t(1) fit j4 t(4) None _ gc this] a(2)
    have "nothing_lost S key value ?p (flash s')" "gc_idle w s'" by (simp_all add: gc_idle_def)
    ultimately show ?thesis using that [OF f] by simp
  next
    case (Some q)
    then obtain p v where look: "store_lookup key S = Some (p, v)" by (cases q) simp
    obtain env0 s2 where f: "find_env w key (set_env_env ?s) ?s = Some (True, env_of env0 p 2 key v, s2)"
      "tidy s2 S" "gc_request s2 = gc_request s"
      using find_ready [OF assms(1,2) t(1) look] by blast
    have "\<not> gc_request s2" "env_start (env_of env0 p 2 key v) = p" using f(3) a(2) by simp_all
    then show ?thesis using that [OF f(1)] replace_any [OF f(2) a(3) _ look _ fit j4 t(4) gc] by simp
  qed
  have "node_place S key value = ?p" using j by (simp add: node_place_def)
  then show ?thesis
    using set_env_runs [OF _ _ fit f refl, of s m, unfolded t(2), OF t(5,3) l(2)] l(1) assms(1)
    by (simp add: ef_set_env_blob_def ready_def)
qed

text \<open>Here the supply fails while the name of the new node is being written.\<close>

lemma set_env_power_safe_witness:
  "\<exists>s r s'. ef_env_init sure_world blank = Some (EF_NO_ERR, s) \<and>
    ef_set_env_blob (cut_world (chip_ops s + 4)) (bytes_of ''Author'') (Some [1, 2, 3]) s = Some (r, s') \<and>
    nothing_lost default_store (bytes_of ''Author'') [1, 2, 3] (node_place default_store (bytes_of ''Author'') [1, 2, 3]) (flash s')"
proof -
  obtain s where s: "ef_env_init sure_world blank = Some (EF_NO_ERR, s)" "ready s default_store"
    using blank_started by blast
  then show ?thesis
    using set_env_power_safe [OF s(2) default_told_apart default_room, of "cut_world (chip_ops s + 4)"] by blast
qed

text \<open>
  C21: Values survive a reset: from any contents of the static variables that a reset leaves, \<open>ef_env_init\<close> on
  the flash of a ready store succeeds, writes nothing, and the store is ready with the same map.
\<close>

theorem restart_keeps_store:
  assumes "ready s S" "fresh_ram s'" "flash s' = flash s"
  shows "\<exists>s''. ef_env_init w s' = Some (EF_NO_ERR, s'') \<and> flash s'' = flash s \<and> ready s'' S"
proof -
  have S: "store_at (flash (caches_cleared s')) S" "settled S" "live_once S"
    using assms by (simp_all add: ready_def tidy_def caches_cleared_def)
  have "\<not> gc_request (caches_cleared s')" using assms(2) by (simp add: fresh_ram_def caches_cleared_def)
  note l = load_settled [OF S(1) caches_cleared_ok(1) S(2) this, of w]
  let ?s = "(caches_cleared s')\<lparr>in_recovery_check := False, env_init_ok := True\<rparr>"
  have "ef_env_init w s' = Some (EF_NO_ERR, ?s)"
    using l assms(2) by (simp add: ef_env_init_def caches_cleared_def [symmetric] fresh_ram_def)
  moreover have "flash ?s = flash s" using assms(3) by (simp add: caches_cleared_def)
  moreover have "ready ?s S"
    using S caches_cleared_ok [of s'] assms(2)
    by (simp add: ready_def tidy_def sector_cache_ok_def env_cache_ok_def entries_def fresh_ram_def)
      (simp add: caches_cleared_def)
  ultimately show ?thesis by blast
qed

lemma restart_keeps_store_witness:
  "\<exists>s s'. ef_env_init sure_world blank = Some (EF_NO_ERR, s) \<and>
    ef_env_init sure_world (blank\<lparr>flash := flash s\<rparr>) = Some (EF_NO_ERR, s') \<and> flash s' = flash s \<and> ready s' default_store"
proof -
  obtain s where s: "ef_env_init sure_world blank = Some (EF_NO_ERR, s)" "ready s default_store"
    using blank_started by blast
  have "fresh_ram (blank\<lparr>flash := flash s\<rparr>)" by (simp add: fresh_ram_def blank_def)
  from restart_keeps_store [OF s(2) this, of sure_world] s(1) show ?thesis by auto
qed

text \<open>
  C22: The first start, on a chip where no sector has the magic word: \<open>ef_env_init\<close> formats all
  sectors, writes the default set and succeeds, with a store that is ready and maps \<open>Author\<close> to \<open>Rick\<close>.
\<close>

theorem first_start:
  assumes "good_chip w" "fresh_ram s" "\<forall>i < 4. unmarked (flash s) (sector_addr i)"
  shows "\<exists>s' S. ef_env_init w s = Some (EF_NO_ERR, s') \<and> ready s' S \<and>
    store_map S = [bytes_of ''Author'' \<mapsto> bytes_of ''Rick'']"
  using first_start_store [OF assms] default_store_props(3) by blast

lemma first_start_witness:
  "\<exists>s' S. ef_env_init sure_world blank = Some (EF_NO_ERR, s') \<and> ready s' S \<and>
    store_map S = [bytes_of ''Author'' \<mapsto> bytes_of ''Rick'']"
  using first_start [OF sure_good blank_fresh blank_unmarked] .

end
