(* ===== verification/EnvTorn.thy ===== *)
theory EnvTorn
  imports EnvProperties
begin

text \<open>
  A header that is torn in its length field. \<open>read_env\<close> takes a length that is too large for a sector, but
  not for the whole area, for impossible and asserts; the assertion is an endless loop. A power loss
  while a header is programmed can leave such a length, and every later start then hangs.
\<close>

section \<open>A length that cannot be read\<close>

lemma read_env_hangs:
  assumes "hdr_len (env_hdr_of (ef_port_read a 24 s)) = n" "SECTOR_SIZE - 16 < n" "n < ENV_AREA_SIZE"
  shows "read_env w (env\<lparr>env_start := a\<rparr>) s = None"
  using assms by (simp add: read_env_def Let_def SECTOR_SIZE_def ENV_AREA_SIZE_def)

text \<open>
  The supply fails at operation number \<open>n\<close>: of the header that is being programmed then, some bits of its
  length are not yet programmed.
\<close>

definition torn_mask :: "nat \<Rightarrow> uint8" where
  "torn_mask i = (if i = 4 then 0xFF else if i = 5 then 0x1F else 0)"

definition torn_world :: "nat \<Rightarrow> ef_world" where
  "torn_world n = sure_world\<lparr>prog_fault := \<lambda>k. if k < n then None else if k = n then Some torn_mask else Some (\<lambda>_. 0xFF)\<rparr>"

text \<open>What lies in flash after it.\<close>

definition torn_flash :: "(nat \<Rightarrow> uint8) \<Rightarrow> nat \<Rightarrow> uint8 list \<Rightarrow> uint8 list \<Rightarrow> nat \<Rightarrow> uint8" where
  "torn_flash f a key value = program torn_mask (a + 4) (drop 4 (env_hdr_bytes (new_env_hdr key value)))
     (program (\<lambda>_. 0) a [stage_byte 1] f)"

lemma write_torn:
  assumes "update_sec_status (torn_world n) m (env_size_of key value) s = (False, EF_NO_ERR, s)" "chip_ops s + 1 = n"
  shows "\<exists>s'. write_node (torn_world n) m a key value s = (EF_WRITE_ERR, s') \<and>
    flash s' = torn_flash (flash s) a key value \<and> gc_request s' = gc_request s"
  using assms
  by (simp add: write_node_def write_env_hdr_def write_status_pre_write write_status_simps Let_def ef_port_write_def
      torn_world_def torn_flash_def)

lemma torn_bytes:
  assumes "erased f a (a + 24)" "env_size_of key value < 256"
  shows "map (torn_flash f a key value) [a + 4..<a + 4 + 4] = le32_bytes ENV_MAGIC_WORD"
    "map (torn_flash f a key value) [a + 8..<a + 8 + 4] = [0xFF, 0x1F, 0, 0]"
    "x < a \<Longrightarrow> torn_flash f a key value x = f x"
proof -
  let ?h = "drop 4 (env_hdr_bytes (new_env_hdr key value))" and ?n = "env_size_of key value"
  have h: "?h = le32_bytes ENV_MAGIC_WORD @ le32_bytes ?n @ drop 12 (env_hdr_bytes (new_env_hdr key value))"
    by (simp add: env_hdr_bytes_def le32_bytes_def)
  have t: "torn_flash f a key value (a + i) = ?h ! (i - 4) OR torn_mask (i - 4)" if "4 \<le> i" "i < 24" for i
  proof -
    have "f (a + i) = 0xFF" using assms(1) that by (simp add: erased_def)
    then show ?thesis using that by (simp add: torn_flash_def program_def ones8)
  qed
  have up: "map g [a + 4..<a + 4 + 4] = [g (a + 4), g (a + 5), g (a + 6), g (a + 7)]"
    "map g [a + 8..<a + 8 + 4] = [g (a + 8), g (a + 9), g (a + 10), g (a + 11)]" for g :: "nat \<Rightarrow> uint8"
    by (simp_all add: upt_conv_Cons numeral_eq_Suc)
  show "map (torn_flash f a key value) [a + 4..<a + 4 + 4] = le32_bytes ENV_MAGIC_WORD"
    unfolding up using t [of 4] t [of 5] t [of 6] t [of 7] unfolding h
    by (simp add: le32_bytes_def torn_mask_def)
  have "?n div 256 = 0" "?n div 65536 = 0" "?n div 16777216 = 0" using assms(2) by simp_all
  then show "map (torn_flash f a key value) [a + 8..<a + 8 + 4] = [0xFF, 0x1F, 0, 0]"
    unfolding up using t [of 8] t [of 9] t [of 10] t [of 11] unfolding h
    by (simp add: le32_bytes_def torn_mask_def ones8)
  show "x < a \<Longrightarrow> torn_flash f a key value x = f x" by (simp add: torn_flash_def program_def)
qed

section \<open>A start that hangs\<close>

text \<open>The default store, with a torn header at its first free address.\<close>

definition hanging :: "(nat \<Rightarrow> uint8) \<Rightarrow> bool" where
  "hanging f \<longleftrightarrow> (\<forall>i < 4. header_at f (sector_addr i) (default_store ! i)) \<and>
     node_at f 16 ENV_WRITE (bytes_of ''Author'') (bytes_of ''Rick'') \<and>
     map f [54..<58] = le32_bytes ENV_MAGIC_WORD \<and> map f [58..<62] = [0xFF, 0x1F, 0, 0]"

lemma hanging_torn:
  assumes "store_at f default_store" "env_size_of key value < 256"
  shows "hanging (torn_flash f 50 key value)"
proof -
  let ?f = "torn_flash f 50 key value"
  have log: "sector_log f 0 [(2, bytes_of ''Author'', bytes_of ''Rick'')]"
    using store_at_log [OF assms(1), of 0] by (simp add: default_sector sector_addr_def)
  then have e: "erased f 50 (50 + 24)"
    by (auto simp: sector_log_def size_default SECTOR_SIZE_def intro: erased_sub)
  note b = torn_bytes [OF e assms(2)]
  have hi: "?f x = f x" if "74 \<le> x \<or> x < 50" for x using that by (auto simp: torn_flash_def program_def)
  have "header_at ?f (sector_addr i) (default_store ! i)" if "i < 4" for i
  proof -
    have "header_at f (sector_addr i) (default_store ! i)" using store_headers [OF assms(1)] that by simp
    moreover have same: "map ?f [sector_addr i..<sector_addr i + 16] = map f [sector_addr i..<sector_addr i + 16]"
      using hi by (cases "i = 0") (auto simp: sector_addr_def SECTOR_SIZE_def)
    ultimately show ?thesis unfolding header_at_def same by simp
  qed
  moreover have "node_at f 16 2 (bytes_of ''Author'') (bytes_of ''Rick'')" using log by (simp add: sector_log_def)
  then have "node_at ?f 16 2 (bytes_of ''Author'') (bytes_of ''Rick'')"
    using node_at_cong [of 16 "bytes_of ''Author''" "bytes_of ''Rick''" ?f f 2] hi by (simp add: size_default)
  ultimately show ?thesis using b by (simp add: hanging_def)
qed

lemma hanging_walk:
  assumes f: "hanging (flash s)" and c: "\<forall>a. a \<noteq> FAILED_ADDR \<longrightarrow> get_sector_from_cache a s = None"
    and m: "sec_addr m = 0" "sec_store m = SECTOR_STORE_USING"
  shows "env_walk w m (check_and_recovery_env_cb w) (env\<lparr>env_start := FAILED_ADDR\<rparr>) () s = None"
proof -
  note F = FAILED_ADDR_def and f' = f [unfolded hanging_def]
  let ?env = "env_of (env\<lparr>env_start := FAILED_ADDR\<rparr>) 16 2 (bytes_of ''Author'') (bytes_of ''Rick'')"
  have node: "node_at (flash s) 16 2 (bytes_of ''Author'') (bytes_of ''Rick'')" using f' by simp
  have "ef_port_read 54 4 s = le32_bytes ENV_MAGIC_WORD" using f' by (simp add: ef_port_read_def)
  then have "find_magic_loop 50 50 4080 s = 50" by (intro find_magic_hit) (simp_all add: le32_le32_bytes)
  moreover have "sector_of 50 = 0" by (simp add: sector_of_def SECTOR_SIZE_def)
  ultimately have next': "get_next_env_addr m ?env s = 50"
    using m c by (simp add: get_next_env_addr_def find_next_env_addr_def size_default F SECTOR_SIZE_def)
  have "ef_port_read 58 4 s = [0xFF, 0x1F, 0, 0]" using f' by (simp add: ef_port_read_def)
  then have "hdr_len (env_hdr_of (ef_port_read 50 24 s)) = 8191" by (simp add: env_hdr_of_def le32_def)
  then have "read_env w (?env\<lparr>env_start := 50\<rparr>) s = None"
    by (rule read_env_hangs) (simp_all add: SECTOR_SIZE_def ENV_AREA_SIZE_def)
  then have 2: "env_walk w m (check_and_recovery_env_cb w) ?env () s = None"
    using next' by (subst env_walk.simps) (simp add: F)
  have "get_next_env_addr m (env\<lparr>env_start := FAILED_ADDR\<rparr>) s = 16" using m by (simp add: get_next_env_addr_def)
  then show ?thesis
    using read_env_node [OF node, of w "env\<lparr>env_start := FAILED_ADDR\<rparr>"] 2 recovery_node_settled [of ?env w "()" s]
    by (subst env_walk.simps) (simp add: F)
qed

lemma hanging_start:
  assumes "hanging (flash s)" "fresh_ram s"
  shows "ef_env_init w s = None"
proof -
  let ?c = "(caches_cleared s)\<lparr>in_recovery_check := True\<rparr>"
  have f: "hanging (flash ?c)" using assms(1) by (simp add: caches_cleared_def)
  have h: "\<forall>i < 4. header_at (flash (caches_cleared s)) (sector_addr i) (default_store ! i)" "length default_store = 4"
    "\<forall>T \<in> set default_store. fst (snd T) \<noteq> SECTOR_DIRTY_GC"
    using f by (simp_all add: hanging_def default_sector empty_sector_def)
  have none: "get_sector_from_cache a ?c = None" if "a \<noteq> FAILED_ADDR" for a
    using that by (auto simp: get_sector_from_cache_def caches_cleared_def find_None_iff)
  have "header_at (flash ?c) (sector_addr 0) (default_store ! 0)" using h(1) by simp
  note rd = read_header [OF this]
  have z: "sector_addr 0 = 0" by (simp add: sector_addr_def)
  have "env_iterator w (env_uninit w) (check_and_recovery_env_cb w) () ?c = None"
    unfolding env_iterator_def
    using rd next_sector(2) [of "sector_uninit w"] hanging_walk [OF f, of _ w] none
    by (subst env_iterator_loop.simps) (simp add: z default_sector FAILED_ADDR_def)
  then have "recovery_loop w (env_uninit w) ?c = None" by (subst recovery_loop.simps) simp
  then show ?thesis
    using load_quiet [OF h(2,1,3)] assms(2) by (simp add: ef_env_init_def caches_cleared_def [symmetric] fresh_ram_def)
qed

text \<open>The names of the two keys have different checksums.\<close>

lemma other_checksum: "env_name_crc [66] \<noteq> env_name_crc (bytes_of ''Author'')"
  by code_simp

lemma default_other: "told_apart [66] default_store" "store_lookup [66] default_store = None"
proof -
  have "(66 :: uint8) # [] \<noteq> bytes_of ''Author''" by (simp add: bytes_of_def)
  then show n: "store_lookup [66] default_store = None" using default_lookup(1) no_store_lookup by metis
  show "told_apart [66] default_store"
    unfolding told_apart_def using default_lookup(1) no_store_lookup other_checksum by metis
qed

lemma default_place: "chosen default_store (env_size_of [66] [1]) = Some 0" "free_addr 0 (default_store ! 0) = 50"
  "\<not> fills (env_size_of [66] [1]) (default_store ! 0)" "env_size_of [66] [1] = 26"
proof -
  show n: "env_size_of [66] [1] = 26" by (simp add: env_size_of_def)
  have l: "log_end 16 (nodes (default_store ! 0)) = 50" by (simp add: default_sector size_default)
  have h: "has_room 26 (default_store ! 0)" "\<not> fills 26 (default_store ! 0)" "fst (default_store ! 0) = 2"
    using l by (simp_all add: has_room_def fills_def SECTOR_SIZE_def) (simp_all add: default_sector)
  then show "chosen default_store (env_size_of [66] [1]) = Some 0" "\<not> fills (env_size_of [66] [1]) (default_store ! 0)"
    unfolding n by (simp_all add: chosen_def upt_rec)
  show "free_addr 0 (default_store ! 0) = 50" using l by (simp add: free_addr_def sector_addr_def)
qed

text \<open>
  C23: A new key is set on the store of the first start and the supply fails while its header is programmed,
  with some ones of its length not yet cleared: \<open>ef_set_env_blob\<close> reports the error, and from then on
  \<open>ef_env_init\<close> does not return, however often the device is started.
\<close>

theorem torn_header_hangs:
  "\<exists>s s'. ef_env_init sure_world blank = Some (EF_NO_ERR, s) \<and>
    ef_set_env_blob (torn_world (chip_ops s + 1)) [66] (Some [1]) s = Some (EF_WRITE_ERR, s') \<and>
    (\<forall>w. ef_env_init w (blank\<lparr>flash := flash s'\<rparr>) = None)"
proof -
  obtain s where s: "ef_env_init sure_world blank = Some (EF_NO_ERR, s)" "ready s default_store"
    using blank_started by blast
  let ?w = "torn_world (chip_ops s + 1)"
  have a: "tidy s default_store" "\<not> gc_request s" using s(2) by (simp_all add: ready_def)
  have fit: "env_fits [66] [1]" by (simp add: env_fits_def default_place EF_ENV_NAME_MAX_def SECTOR_SIZE_def)
  obtain m t where t: "tidy (s\<lparr>sector_cache_table := t\<rparr>) default_store" "empty_env m = 50" "50 \<noteq> FAILED_ADDR"
    "known_sector m (sector_addr 0) (default_store ! 0)"
    "new_env_by_kv ?w (set_env_sector s) (length [66 :: uint8]) (length [1 :: uint8]) s = Some (50, m, s\<lparr>sector_cache_table := t\<rparr>)"
    using new_env_chosen [OF a default_place(1), where w = ?w and sector = "set_env_sector s"]
    unfolding default_place(2) by blast
  let ?s = "s\<lparr>sector_cache_table := t\<rparr>"
  have h: "holds_store ?s default_store"
    using s(2) t(1) by (simp add: ready_def holds_store_def tidy_def env_cache_ok_def entries_def)
  then obtain env where f: "find_env ?w [66] (set_env_env ?s) ?s = Some (False, env, ?s)"
    using find_env_lookup [OF h default_other(1), where w = ?w and env = "set_env_env ?s"] default_other(2) by auto
  have "update_sec_status ?w m (env_size_of [66] [1]) ?s = (False, EF_NO_ERR, ?s)"
    using t(4) default_place(3,4)
    by (simp add: known_sector_def default_sector update_sec_status_def size_default fills_def SECTOR_SIZE_def sub32_def)
  then obtain s2 where s2: "write_node ?w m 50 [66] [1] ?s = (EF_WRITE_ERR, s2)"
    "flash s2 = torn_flash (flash s) 50 [66] [1]" "\<not> gc_request s2"
    using write_torn [of "chip_ops s + 1" m "[66]" "[1]" ?s 50] a(2) by auto
  have "set_env ?w [66] [1] s = Some (EF_WRITE_ERR, s2\<lparr>gc_request := False, set_env_env := env, set_env_sector := m\<rparr>)"
    using set_env_runs [OF _ _ fit f refl, of s m, unfolded t(2), OF t(5,3)] s2(1,3) by (simp add: gc_idle_quiet)
  then have run: "ef_set_env_blob ?w [66] (Some [1]) s =
      Some (EF_WRITE_ERR, s2\<lparr>gc_request := False, set_env_env := env, set_env_sector := m\<rparr>)"
    using s(2) by (simp add: ef_set_env_blob_def ready_def)
  have "hanging (flash s2)"
    unfolding s2(2) using a(1) default_place(4) by (intro hanging_torn) (simp_all add: tidy_def)
  then have "ef_env_init w (blank\<lparr>flash := flash s2\<rparr>) = None" for w
    by (intro hanging_start) (simp_all add: fresh_ram_def blank_def)
  then show ?thesis using s(1) run
    by (intro exI [of _ s] exI [of _ "s2\<lparr>gc_request := False, set_env_env := env, set_env_sector := m\<rparr>"]) simp
qed

end
