(* ===== verification/Spec2Isabelle.thy ===== *)
theory Spec2Isabelle
  imports Samples Syswatch QueueInterleaving RadioDriver EnvTorn
begin

text \<open>
  The firmware of the water-leak valve controller L151 (an STM32L151 with the RT-Thread operating
  system, a 433 MHz radio and an external flash), as a model the kernel can check.

  \<^bold>\<open>The program.\<close> The controller drives two ball valves over two pins, watches a sensor cable and a
  temperature sensor, and talks over the radio to up to twelve water sensors, a door unit and a gateway.
  \<open>main\<close> (\<open>src/applications/main.c\<close>) starts the parts one after another; from then on the program is
  a set of handlers that run on events: soft timers (\<open>Moto.c\<close>, \<open>Work.c\<close>, \<open>ADCwork.c\<close>, \<open>gateway.c\<close>,
  \<open>led.c\<close>, \<open>factory.c\<close>), the key thread (\<open>key.c\<close> behind \<open>device.c\<close> and the button driver), received
  frames (\<open>Radio_Decoder.c\<close>), the send thread (\<open>Radio_Encoder.c\<close>), the hourly alarm (\<open>RTCWork.c\<close>) and
  the thread of the LED driver. They share the status and the active warning (\<open>Status.c\<close>), the valve
  (\<open>Moto.c\<close>), the device table (\<open>flashwork.c\<close>) with its copy in flash, and the send queue.

  \<^bold>\<open>The state\<close> of the application is the record \<open>sys\<close> of Firmware, one field per source file
  (\<open>sta\<close> for \<open>Status.c\<close>, \<open>mo\<close> for \<open>Moto.c\<close>, \<open>ky\<close> for \<open>key.c\<close>, \<open>wk\<close> for \<open>Work.c\<close>, \<open>dev\<close> for the
  device table over its key/value store, \<open>enc\<close> and \<open>dec\<close> for the radio, \<open>ui\<close> for the LED layer over
  the board of pins, timers and semaphores, and so on), whose fields have the names of the C variables.
  A C function is a state transformer with the name it has in C; \<open>block [f, g]\<close> is the sequence of two
  statements, \<open>cond\<close> a conditional, \<open>reading\<close> a statement with an argument read from the state.

  \<^bold>\<open>Theories and sources.\<close>
  \<^item> Prelude: machine integers, C arrays, sequencing, and the collections \<open>frame\<close> and \<open>keeps\<close>.
  \<^item> MessageQueue and QueueInterleaving: message queues of \<open>src/rt-thread/src/ipc.c\<close>, once as the list
    of messages and once as the linked pool of the code, with the refinement between them and the
    interleavings of blocked senders and receivers.
  \<^item> Board: pins, soft timers, semaphores and tick conversion (\<open>timer.c\<close>, \<open>ipc.c\<close>, \<open>clock.c\<close>, \<open>pin.c\<close>).
  \<^item> CStrings: \<open>strtol\<close>, \<open>atol\<close> and the number formats of \<open>rt_sprintf\<close> and \<open>sscanf\<close>.
  \<^item> AgileLed and Led: the LED driver \<open>agile_led\<close> and the signals of \<open>led.c\<close>.
  \<^item> EnvStore, DeviceDb, Registry: the interface of the key/value store, the device table of
    \<open>flashwork.c\<close> with its persistent copy, and the abstract registry it implements.
  \<^item> ButtonDriver, Buttons, KeyHandling: \<open>button.c\<close>, \<open>device.c\<close>, \<open>key.c\<close>.
  \<^item> RadioQueue, RadioLink, RadioDecoder, Frames: the send queue and the send thread, received frames,
    and the agreement of the two about the text of a frame.
  \<^item> Valve, ValveSpec, ValveRefine, Status: \<open>Moto.c\<close> and \<open>Status.c\<close>, the abstract valve, the refinement.
  \<^item> WaterScan, Gateway, Supervision, Periodic: \<open>Work.c\<close>, \<open>gateway.c\<close>, the daily check and factory
    test, \<open>ADCwork.c\<close> and \<open>RTCWork.c\<close>.
  \<^item> Syswatch: the thread supervisor (\<open>syswatch.c\<close>) of \<open>packages/syswatch\<close>, which the firmware runs beside the rest.
  \<^item> Safety, StartUp, System, Reachable, Restart, Reactions: the invariant and its preservation by every
    handler, \<open>boot\<close>, the step relation and its reachable states, restarts, and the closing reactions.
  \<^item> Ax5043, Ax5043Ops, RadioDriver: the radio driver over its chip (\<open>Radio_Drv.c\<close>, \<open>Radio_Common.c\<close>,
    \<open>Radio_433.c\<close>): register transfers, operating modes, reception and transmission, the interrupt task
    and the start-up; facts on its operations; the state machine of the driver.
  \<^item> FlashPort, EnvLog, EnvOps: the key/value store EasyFlash byte by byte (\<open>ef_sfud_port.c\<close>, \<open>ef_utils.c\<close>,
    \<open>ef_env.c\<close>): the flash chip and the checksum, the log of a sector with both caches, and the operations
    up to garbage collection and recovery. EnvNodes, EnvSectors, EnvLookup: what its nodes and sectors
    hold, and the look-up of a key; EnvAlloc, EnvUpdate, EnvMap: the choice of a sector, the change of a
    node, setting and removing a key; EnvPower: the same on a chip that fails; EnvRestart: the first start
    and a restart; EnvProperties: the properties of the store, on a blank chip; EnvTorn: a torn header
    after which no start returns.
  \<^item> Samples: the concrete states the witnesses run on.

  \<^bold>\<open>Interfaces.\<close> The locales are the contracts between parts: \<open>bounded_queue\<close> (a message queue as its
  clients see it, interpreted by the queue of Board), \<open>table_operation\<close> and \<open>registry\<close> (what each
  operation of \<open>flashwork.c\<close> keeps of the table, interpreted for all of them, and the set of devices the table stands
  for while sensors are enrolled), and the locales of the LED and valve layers; every one is interpreted on the model's own
  definitions, and the properties use the facts of the interpretations.

  \<^bold>\<open>What the lemmas show.\<close> ValveSpec states the valve as a small abstract machine over the view of a
  state; ValveRefine proves that opening, closing, the self test and the warning reactions refine it;
  Safety proves that every handler keeps the system invariant \<open>sys_inv\<close> (every kernel object exists, the
  table is well-formed and mirrored in flash, the send queue is within its bound, the LED layer is in
  order, the valve agrees with the status); StartUp proves that \<open>boot\<close> establishes it; Reachable lifts it
  to all reachable states. The properties below are read off these facts.
  RadioDriver proves the invariant of the driver and follows a frame through its state machine; EnvNodes
  proves what writing a node leaves behind on a chip that fails, EnvSectors and EnvLookup that the loops
  over the log visit exactly its nodes, with or without the caches. The abstract store is a list of four
  sectors, each with its two statuses and its list of nodes; \<open>store_at\<close> says that the flash holds it,
  \<open>store_map\<close> is the map of keys to values it stands for, and \<open>ready\<close> the invariant between two calls:
  one valid node to a key, no change half done, both caches right. EnvMap proves that setting and
  removing a key keep \<open>ready\<close> and change the map at that key only, as long as a sector has room
  without a garbage collection (\<open>room_for\<close>) and no other key of the store has the same 16-bit checksum
  (\<open>told_apart\<close>), EnvPower that, under the same two conditions, the old value stays until the new one is complete
  whichever operation of the chip fails, EnvRestart that a restart finds the same map. EnvTorn shows why the start after a power
  loss is not among the properties: a header that is torn in its length makes \<open>read_env\<close> assert for ever. The moving of nodes by garbage collection
  and by the recovery is modelled, and no property is proved of it.

  \<^bold>\<open>Bounds and fuel.\<close> One pass of the LED thread is bounded by the number of objects times the longest
  pattern and is proved to end within that bound (\<open>lights_end\<close>); the table has 12 usable slots of 20
  entries, the send queue 10 messages, a frame is sent at most four times. Loops of the code are recursion
  over the slots or the list they walk. The loops of the radio driver that poll the chip, and those of the
  key/value store that follow addresses read from flash, are partial functions with an option as result;
  that they return is proved where a property needs it (\<open>time_passes\<close>: the clock advances while the
  driver polls; each property of the store includes that its operation returns).

  \<^bold>\<open>Assumptions.\<close> A handler runs to its end before the next starts: the threads and timer callbacks of
  the firmware have different priorities and are not locked against each other, so that interleavings
  inside a handler are outside the model, as are the three seconds that the key thread waits in the factory
  reset. The start-up (\<open>boot\<close>) is one step too, although \<open>RF_Init\<close> starts the receiver before the parts
  after it exist; what a frame does in that window is the second half of \<open>no_assertion_fails\<close>.
  Voltages are rationals instead of floats. The receiver's scan leaves fields that it could not read as
  they were on the stack: the argument \<open>g\<close> of the solvers. For the firmware the store works or fails as a
  whole (\<open>ef_space\<close> of EnvStore). The radio chip is a function from the history of the bus to its answers,
  the flash chip one from the number of an operation to what that operation fails to do; reading flash
  does not fail. The interrupt task of the radio and the operations of the store run to their end. Names in the
  store are assumed to fit into the 32 bytes the code has for them when it reads a node (\<open>env_fits\<close>); longer
  ones, which only a corrupted flash holds, overrun the buffer and are read at their length in the model.

  \<^bold>\<open>Not modelled.\<close> The configuration of the ADC, RTC and GPIO peripherals, the HAL, the hardware
  watchdog, the scheduler, memory allocation and the shell of RT-Thread, the VCO calibration of the
  radio driver, printing of the key/value store, and the packages the firmware does not call: they carry no logic of the program, or are hardware the model takes as a parameter.
\<close>

section \<open>The valve\<close>

text \<open>
  C1: In every reachable state the valve is in one of two conditions: shut, with both drive pins low and
  no timer of the self test running, or open, with each drive pin high except while the self test of that motor runs.
\<close>

theorem valve_drive:
  assumes "reachable s"
  shows "valve_shut s \<and> no_self_test s \<or>
    ValveStatus (ky s) = 1 \<and> (pin_out (board_of s) Turn1 \<or> timer_active Moto1_Timer_Act (board_of s)) \<and>
      (pin_out (board_of s) Turn2 \<or> timer_active Moto2_Timer_Act (board_of s))"
  using safe_shut [OF reachable_sys_inv [OF assms]] sys_inv_safe [OF reachable_sys_inv [OF assms]]
  by (auto simp: valve_safe_def view_def)

theorem valve_drive_witness:
  "let s = boot sample_hw (sample_env ''1'') in
    (pin_out (board_of s) Turn1 \<or> timer_active Moto1_Timer_Act (board_of s)) \<and>
    (pin_out (board_of s) Turn2 \<or> timer_active Moto2_Timer_Act (board_of s))"
  using valve_drive [OF sample_reachable, of "''1''"] sample_start(3) by (simp add: valve_shut_def Let_def)

text \<open>
  C2: Whenever the status is \<open>Close\<close> or one of the alarms that shut the water off, the valve is shut
  and its drive pins are low.
\<close>

theorem alarm_means_shut:
  assumes "reachable s" "Now_Status (sta s) \<in> {Close, SlaverUltraLowPower, SlaverWaterAlarmActive,
     MasterWaterAlarmActive, NTCWarning, Offline}"
  shows "valve_shut s"
proof -
  have "ValveStatus (ky s) = 0"
    using assms sys_inv_safe [OF reachable_sys_inv [OF assms(1)]]
    by (auto simp: valve_safe_def view_def shut_status_def)
  then show ?thesis using safe_shut [OF reachable_sys_inv [OF assms(1)]] by blast
qed

theorem alarm_means_shut_witness: "valve_shut (boot sample_hw (sample_env ''2''))"
  by (rule alarm_means_shut [OF sample_reachable]) (simp add: sample_start)

text \<open>
  C6: A valve that a remote party or a slave alarm has closed (\<open>LastFlag\<close> is \<open>OtherOff\<close>) stays shut
  for every opening that is not a remote one: the keys, the temperature logic and the restart cannot open it.
\<close>

theorem lock_out:
  assumes "reachable s" "LastFlag (table_of s) = OtherOff" "a \<noteq> OtherOpen"
  shows "valve_shut (Moto_Open a s) \<and> LastFlag (table_of (Moto_Open a s)) = OtherOff"
proof -
  have "view (Moto_Open a s) = a_open a (view s)"
    by (rule sys_inv_refines [OF reachable_sys_inv [OF assms(1)] refines_Moto_Open [OF valve_timers_all]])
  also have "\<dots> = view s" using assms(2,3) by (simp add: a_open_def a_may_open_def view_def)
  finally have v: "view (Moto_Open a s) = view s" .
  have "valve_safe (view s)" by (rule sys_inv_safe [OF reachable_sys_inv [OF assms(1)]])
  with v assms(2) show ?thesis by (auto simp: valve_shut_def valve_safe_def view_def)
qed

theorem lock_out_witness: "valve_shut (Moto_Open NormalOpen (boot sample_hw (sample_env ''2'')))"
proof -
  have "LastFlag (table_of (boot sample_hw (sample_env ''2''))) = OtherOff" using sample_table(3) sample_flag(1) by simp
  from lock_out [OF sample_reachable this, of NormalOpen] show ?thesis by simp
qed

text \<open>
  C5: The code of \<open>Moto.c\<close> and \<open>Status.c\<close> implements the specification of the valve: on every
  reachable state opening, closing, the self test, each warning reaction and the return to normal do to the
  view exactly what the abstract operations do.
\<close>

theorem valve_refinement:
  assumes "reachable s"
  shows "view (Moto_Open a s) = a_open a (view s) \<and> view (Moto_Close a s) = a_close a (view s) \<and>
    view (Moto_Detect s) = a_detect (view s) \<and> view (run_callback cb s) = a_warning cb (view s) \<and>
    view (Warning_Disable s) = a_normal (view s)"
  by (intro conjI; rule sys_inv_refines [OF reachable_sys_inv [OF assms]];
      intro refines_Moto_Open refines_Moto_Close refines_Moto_Detect refines_run_callback refines_Warning_Disable
        valve_timers_all; assumption)

theorem valve_refinement_witness:
  "view (Moto_Close NormalOff (boot sample_hw (sample_env ''1''))) =
     a_close NormalOff (view (boot sample_hw (sample_env ''1'')))"
  using valve_refinement [OF sample_reachable] by blast

text \<open>
  C13: The self test pauses the keys and the water sensor; when none of its timers is running any more, both are
  live again.
\<close>

theorem pause_ends:
  assumes "reachable s" "set (soft_timer_list (board_of s)) \<inter>
    {Moto1_Timer_Act, Moto2_Timer_Act, Moto1_Timer_Detect, Moto2_Timer_Detect} = {}"
  shows "Key_Pause_Flag (btn s) = 0 \<and> Water_Alarm_Pause (wk s) = 0"
proof -
  have i: "sys_inv {} s" using assms(1) by (rule reachable_sys_inv)
  then have "\<not> timer_active t (board_of s)"
    if "t \<in> {Moto1_Timer_Act, Moto2_Timer_Act, Moto1_Timer_Detect, Moto2_Timer_Detect}" for t
    using assms(2) that by (auto simp: sys_inv_def base_ok_def kernel_ok_def)
  then show ?thesis using sys_inv_safe [OF i] by (auto simp: valve_safe_def view_def self_test_runs_def)
qed

theorem pause_ends_witness: "Key_Pause_Flag (btn (boot sample_hw (sample_env ''2''))) = 0"
proof -
  let ?s = "boot sample_hw (sample_env ''2'')"
  have i: "sys_inv {} ?s" by (rule reachable_sys_inv [OF sample_reachable])
  have "no_self_test ?s" using safe_shut [OF i] sample_start(1) by blast
  moreover have "t \<in> set (soft_timer_list (board_of ?s)) \<Longrightarrow> timer_active t (board_of ?s)" for t
    using i by (auto simp: sys_inv_def base_ok_def kernel_ok_def)
  ultimately have "set (soft_timer_list (board_of ?s)) \<inter>
    {Moto1_Timer_Act, Moto2_Timer_Act, Moto1_Timer_Detect, Moto2_Timer_Detect} = {}"
    by (auto simp: no_self_test_def)
  from pause_ends [OF sample_reachable this] show ?thesis by simp
qed

section \<open>Alarms\<close>

text \<open>
  C4: When the scan is not paused, the sensor cable is plugged and reads water, the last recorded state of the cable is normal
  and the last recorded transition not already the one to wet, the device is not in the learn mode, and no
  warning of a priority above 7 is active, one scan shuts the valve and sets the status of the water alarm. (In the
  learn mode the scan records the water and does not alarm.)
\<close>

theorem water_alarm_closes:
  assumes "reachable s" "Water_Alarm_Pause (wk s) = 0" "\<not> rt_pin_read Peak_Loss (board_of s)"
    "\<not> rt_pin_read Peak_ON (board_of s)" "WarningPastStatus (wk s) = 0" "WarningStatus (wk s) \<noteq> 8"
    "Now_Status (sta s) \<noteq> Learn" "priority (NowStatusEvent (sta s)) \<le> 7"
  shows "valve_shut (waterscan_timer_callback s) \<and>
    Now_Status (sta (waterscan_timer_callback s)) = MasterWaterAlarmActive"
proof -
  define s1 where "s1 = (block [wk_update (Peak_ON_Level_update (\<lambda>_. 0)), wk_update (Peak_Loss_Level_update (\<lambda>_. 0)),
    wk_update (WarningNowStatus_update (\<lambda>_. 2))]) s"
  have i: "sys_inv {} s1"
    unfolding s1_def using reachable_sys_inv [OF assms(1)]
    by (rule keeps_invD [rotated]) (intro keeps_inv_block keeps_work; simp)
  have p: "priority (NowStatusEvent (sta s1)) \<le> 7" using assms(8) by (simp add: s1_def)
  have e: "waterscan_timer_callback s = (block [reading (\<lambda>s. WarningNowStatus (wk s)) set_past, set_WarningStatus 8])
      (Warning_Enable_Num 4 s1)"
    using assms(2-7) by (simp add: waterscan_timer_callback_def Get_Peak_ON_Level_def Get_Peak_LOSS_Level_def
        water_transition_def report_change_def WarningWithPeak_def Detect_Learn_def s1_def o_assoc)
  show ?thesis unfolding e
    using water_warning [OF i p] by (simp add: set_past_def set_WarningStatus_def valve_shut_def)
qed

theorem water_alarm_closes_witness:
  "valve_shut (waterscan_timer_callback (on_board (pin_in_update (\<lambda>_ _. False)) (boot sample_hw (sample_env ''1''))))"
proof -
  let ?b = "boot sample_hw (sample_env ''1'')"
  let ?s = "on_board (pin_in_update (\<lambda>_ _. False)) ?b"
  note q = boot_quiet [OF sample_loaded(1), of "''1''"]
  have "reachable ?s" by (rule reachable.step [OF sample_reachable step.inputs])
  then show ?thesis
    using water_alarm_closes [of ?s] q sample_start(4) by (simp add: rt_pin_read_def)
qed



text \<open>
  C12: A warning is acted upon exactly when its priority is at least that of the active one: then its reaction
  runs, and its number, its priority and its reaction are recorded as those of the active warning; a weaker warning
  changes nothing.
\<close>

theorem warning_priority:
  assumes "reachable s" "warning_of k = Some w"
  shows "if priority (NowStatusEvent (sta s)) \<le> priority (initial_events w)
    then \<exists>cb. callback (initial_events w) = Some cb \<and> view (Warning_Enable_Num k s) = a_warning cb (view s) \<and>
      NowStatusEvent (sta (Warning_Enable_Num k s)) = (NowStatusEvent (sta s))
        \<lparr>last_id := warning_id (initial_events w), priority := priority (initial_events w), callback := Some cb\<rparr>
    else Warning_Enable_Num k s = s"
proof -
  have i: "sys_inv {} s" using assms(1) by (rule reachable_sys_inv)
  have e: "events (sta s) = initial_events" using i by (auto simp: sys_inv_def base_ok_def)
  obtain cb where "callback (initial_events w) = Some cb" using initial_callback by blast
  with warning_accepted [OF i assms(2)] warning_recorded [OF i assms(2)] show ?thesis
    by (auto simp: Warning_Enable_Num_def assms(2) e Warning_Enable_def)
qed

theorem warning_priority_witness:
  "view (Warning_Enable_Num 5 (boot sample_hw (sample_env ''1''))) =
     a_warning OfflineWarning_cb (view (boot sample_hw (sample_env ''1''))) \<and>
   priority (NowStatusEvent (sta (Warning_Enable_Num 5 (boot sample_hw (sample_env ''1''))))) = 5"
proof -
  have "warning_of 5 = Some OfflineEvent" by (simp add: warning_of_def)
  from warning_priority [OF sample_reachable this, of "''1''"] boot_quiet(5) [OF sample_loaded(1), of "''1''"]
  show ?thesis by (auto simp: initial_events_def WarningEventInit_def)
qed

text \<open>
  C28: When the averaged temperature reading is at or below the frost threshold, the status is not yet that of the frost
  warning, and no warning of a priority above 2 is active, one scan shuts the valve, sets the status of the frost
  warning and remembers whether the valve was open. (The alarms for water, for silence, for a failed motor and for
  low batteries have a higher priority.)
\<close>

theorem frost_closes:
  assumes "reachable s" "Now_Status (sta s) \<noteq> NTCWarning" "unat (ADC_sum (adc_value (adc s)) div 20) \<le> 1408"
    "priority (NowStatusEvent (sta s)) \<le> 2"
  defines "s' \<equiv> ntc_scan_timer_callback s"
  shows "valve_shut s' \<and> Now_Status (sta s') = NTCWarning \<and> NTC_State (adc s') = ValveStatus (ky s)"
proof -
  define t where "t = ADC_sum (adc_value (adc s))"
  define s1 where "s1 = (block [adc_update (voltage_temp_update (\<lambda>_. t)), adc_update (NTC_State_update (\<lambda>_. ValveStatus (ky s)))]) s"
  have i: "sys_inv {} s1"
    unfolding s1_def using reachable_sys_inv [OF assms(1)] by (rule keeps_invD [rotated]) (intro keeps)
  have p: "priority (NowStatusEvent (sta s1)) \<le> 2" using assms(4) by (simp add: s1_def)
  note w = frost_warning [OF i p]
  have low: "voltage t < 1153 / 1000" unfolding t_def voltage_low_iff by (rule assms(3))
  have "s' = adc_update (voltage_temp_update (\<lambda>_. t)) (Warning_Enable_Num 8 s1)"
    using assms(2) low w(3)
    by (auto simp: s'_def ntc_scan_timer_callback_def ADC_Voltage_Calc_def Let_def t_def [symmetric] s1_def NTC_State_Save_def)
  then show ?thesis using w by (simp add: valve_shut_def s1_def)
qed

theorem frost_closes_witness:
  "NTC_State (adc (ntc_scan_timer_callback
     (adc_update (adc_value_update (\<lambda>_. replicate 20 0)) (boot sample_hw (sample_env ''1''))))) = 1"
proof -
  let ?s = "adc_update (adc_value_update (\<lambda>_. replicate 20 0)) (boot sample_hw (sample_env ''1''))"
  have "reachable ?s" by (rule reachable.step [OF sample_reachable step.samples])
  moreover have "ADC_sum (replicate 20 0) = 0" by code_simp
  ultimately show ?thesis
    using frost_closes [of ?s] sample_start(3,4) boot_quiet(5) [OF sample_loaded(1), of "''1''"] by simp
qed

text \<open>
  C29: When an enrolled sensor (not the door unit, not the gateway) has been silent for 25 hours and is not marked
  as having sent a message, and no warning of a priority above 5 (an ultra low battery or a water alarm) is active, the
  daily check shuts the valve and sets the status \<open>Offline\<close>. The hypothesis is the system invariant, which
  holds in every reachable state.
\<close>

theorem silence_closes:
  assumes "sys_inv {} s" "1 \<le> n" "n \<le> unat (Num (table_of s))" "silent (table_of s) n"
    "of_nat n \<noteq> DoorNum (table_of s)" "of_nat n \<noteq> GatewayNum (table_of s)" "priority (NowStatusEvent (sta s)) \<le> 5"
  shows "valve_shut (Detect_All_Time s) \<and> Now_Status (sta (Detect_All_Time s)) = Offline"
proof -
  note i = assms(1)
  have wf: "table_wf (dev s)" using i by (auto simp: sys_inv_def base_ok_def table_ok_def)
  have n: "n \<in> set (rev (slots (num16 (dev s))))" "num16 (dev s) \<noteq> 0"
    using assms(2,3) table_wfD(2) [OF wf] by auto
  obtain w s1 where f: "fold detect_slot (rev (slots (num16 (dev s)))) (False, s) = (w, s1)" by fastforce
  have w: "w" "sta s1 = sta s" using detect_slots_warn [OF assms(4-6) f] n(1) by auto
  have i1: "sys_inv {} s1" using sys_inv_detect_slots [OF i, of "rev (slots (num16 (dev s)))" False] unfolding f by simp
  have "Detect_All_Time s = dev_update Clear_All_Time (Warning_Enable_Num 5 s1)"
    using n(2) w(1) by (simp add: Detect_All_Time_def f)
  then show ?thesis using offline_warning [OF i1] assms(7) w(2) by (simp add: valve_shut_def)
qed

theorem silence_closes_witness: "Now_Status (sta (Detect_All_Time silent_state)) = Offline"
  using silence_closes [OF silent_inv _ _ silent_slot(1)] silent_slot(2-5) by simp

section \<open>Remote commands\<close>

text \<open>
  C16: A valve command of the gateway is carried out in the idle statuses, and only there: closing shuts the valve
  and locks it against local opening, opening opens it, even a locked one; in every other status the valve is left alone.
\<close>

theorem remote_commands:
  fixes m :: Message
  assumes "reachable s"
  defines "s' \<equiv> gateway_valve m s"
  shows "(idle_status s \<and> msg_Data m = 0 \<longrightarrow> valve_shut s' \<and> LastFlag (table_of s') = OtherOff) \<and>
    (idle_status s \<and> msg_Data m \<noteq> 0 \<longrightarrow> ValveStatus (ky s') = 1 \<and> LastFlag (table_of s') = OtherOpen) \<and>
    (\<not> idle_status s \<longrightarrow> view s' = view s)"
proof -
  have i: "sys_inv {} s" using assms(1) by (rule reachable_sys_inv)
  have v: "view s' = a_remote (msg_Data m \<noteq> 0) (view s)"
    unfolding s'_def by (rule sys_inv_refines [OF i]) (rule refines_gateway_valve)
  have i': "sys_inv {} s'"
  proof -
    have "keeps_inv (sys_inv {}) (gateway_valve m)"
      by (rule keeps_refines, erule refines_gateway_valve) (simp add: a_remote_def a_open_safe a_close_safe)
    then show ?thesis unfolding s'_def using i by (rule keeps_invD)
  qed
  have c: "v_valve (view s') = 0 \<and> v_last (view s') = OtherOff" if "idle_status s" "msg_Data m = 0"
    using that a_close_closed [OF sys_inv_safe [OF i]] unfolding v a_remote_def idle_view by (simp add: a_close_def)
  have o: "v_valve (view s') = 1 \<and> v_last (view s') = OtherOpen" if "idle_status s" "msg_Data m \<noteq> 0"
    using that unfolding v a_remote_def idle_view by (simp add: a_open_def a_may_open_def)
  have n: "view s' = view s" if "\<not> idle_status s" using that unfolding v a_remote_def idle_view by simp
  show ?thesis using c o n close_shut [OF i i'] unfolding view_sel by blast
qed

theorem remote_commands_witness:
  "valve_shut (gateway_valve (sample_message\<lparr>msg_Data := 0\<rparr>) (boot sample_hw (sample_env ''1'')))"
  using remote_commands [OF sample_reachable, of "''1''" "sample_message\<lparr>msg_Data := 0\<rparr>"] sample_start(4)
  by (simp add: idle_status_def)



section \<open>Frames\<close>

text \<open>
  C24: A frame between nodes (type 0) is understood by the receiver as it was meant by the sender: for identifiers from
  0 up to eight digits, a command below 100 and a single data digit, the frame the send thread puts on the air has 32 bytes with the marks
  the receiver checks, and the receiver's scan yields target, sender, counter, command and data.
\<close>

theorem frame_roundtrip:
  assumes "Type m = 0" "0 \<le> sint (Taget_ID m)" "sint (Taget_ID m) < 100000000"
    "0 \<le> sint (RadioID (enc s))" "sint (RadioID (enc s)) < 100000000" "Command m < 100" "Data m < 10"
  shows "\<exists>f. sent (enc (rf_transmit m s)) = sent (enc s) @ [f] \<and> length f = 32 \<and>
    byte_at (x # f) 1 = CHR ''{'' \<and> byte_at (x # f) 31 = CHR 0x0D \<and> byte_at (x # f) 32 = CHR 0x0A \<and>
    parse_normal (c_string_at (x # f) 1) g = g\<lparr>Target_ID := Taget_ID m, From_ID := RadioID (enc s),
      msg_Counter := ucast (Counter m + 1), msg_Command := ucast (Command m), msg_Data := ucast (Data m)\<rparr>"
proof -
  define t where "t = node_text (Taget_ID m) (RadioID (enc s)) (Counter m + 1) (Command m) (Data m)"
  define h where "h = [hex_digit (byte_sum t div 16), hex_digit (byte_sum t mod 16), CHR 0x0D, CHR 0x0A]"
  have l: "length t = 28" unfolding t_def by (rule length_node_text) (use assms in simp_all)
  have f: "takeWhile (\<lambda>c. c \<noteq> CHR 0x00) (node_buffer t) = t @ h"
    unfolding h_def by (rule node_frame [OF l]) (simp add: t_def node_text_not_nul)
  have "takeWhile (\<lambda>c. c \<noteq> CHR 0x00) (t @ h) = t @ h" using f takeWhile_idem by metis
  then have "rt_sscanf (c_string_at (x # t @ h) 1) ''{%d,%d,%d,%d,%d}'' =
      [Taget_ID m, RadioID (enc s), ucast (Counter m + 1), ucast (Command m), ucast (Data m)]"
    using node_text_parsed by (simp add: c_string_at_def t_def)
  moreover have "byte_at (x # t @ h) 1 = CHR ''{''" by (simp add: byte_at_def t_def node_text_def)
  moreover have "byte_at (x # t @ h) 31 = CHR 0x0D" "byte_at (x # t @ h) 32 = CHR 0x0A"
    using l by (simp_all add: byte_at_def h_def nth_append)
  ultimately show ?thesis
    using rf_transmit_node [OF assms(1), of s] l
    by (intro exI [of _ "t @ h"]) (simp add: f t_def [symmetric] h_def parse_normal_def)
qed

theorem frame_roundtrip_witness:
  "\<exists>f. sent (enc (rf_transmit (Radio_Normal_zero\<lparr>Taget_ID := 20000001, Command := 4, Data := 1\<rparr>)
       (RadioQueue_Init 12345678 (cold (\<lambda>_. False) (sample_env ''1''))))) = [f] \<and>
     From_ID (parse_normal (c_string_at (CHR 0x00 # f) 1) sample_message) = 12345678"
proof -
  let ?m = "Radio_Normal_zero\<lparr>Taget_ID := 20000001, Command := 4, Data := 1\<rparr>"
  let ?s = "RadioQueue_Init 12345678 (cold (\<lambda>_. False) (sample_env ''1''))"
  have "sent (enc ?s) = []" "RadioID (enc ?s) = 12345678" "Type ?m = 0" "Data ?m = 1" "Command ?m = 4" "Taget_ID ?m = 20000001"
    by (simp_all add: RadioQueue_Init_def cold_def Radio_Normal_zero_def)
  then show ?thesis using frame_roundtrip [of ?m ?s "CHR 0x00" sample_message] by auto
qed

text \<open>
  C31: A frame that asks for an acknowledgement is sent at most four times; with the acknowledgement the repetitions end.
\<close>

theorem retries_bounded:
  assumes "rf_en_mq (enc s) = Some (m # q)" "Ack m \<noteq> 0" "rf_encode_start s = s1"
  shows "length (sent (enc ((rf_encode_wake ^^ n) s1))) = length (sent (enc s)) + Suc (min n 3) \<and>
    (3 \<le> n \<longrightarrow> tx_wait (enc ((rf_encode_wake ^^ n) s1)) = None) \<and>
    (\<forall>a. rf_ack_sem (enc a) \<longrightarrow> sent (enc (rf_encode_wake a)) = sent (enc a) \<and> tx_wait (enc (rf_encode_wake a)) = None)"
proof -
  have s1: "tx_wait (enc s1) = Some (m, 1)" "\<not> rf_ack_sem (enc s1)" "length (sent (enc s1)) = Suc (length (sent (enc s)))"
    using assms by (auto simp: rf_encode_start_def set_tx_wait_def rf_transmit_sel)
  have "sent (enc (rf_encode_wake a)) = sent (enc a) \<and> tx_wait (enc (rf_encode_wake a)) = None" if "rf_ack_sem (enc a)" for a
    using that by (auto simp: rf_encode_wake_def set_tx_wait_def split: option.split)
  then show ?thesis using wake_again [OF s1(1,2), of n] s1(3) by auto
qed

theorem retries_bounded_witness:
  "length (sent (enc ((rf_encode_wake ^^ 7) (rf_encode_start (enc_update (rf_en_mq_update
     (\<lambda>_. Some [Radio_Normal_zero\<lparr>Type := 2, Ack := 1\<rparr>])) (cold (\<lambda>_. False) (sample_env ''1''))))))) = 4"
proof -
  let ?m = "Radio_Normal_zero\<lparr>Type := 2, Ack := 1\<rparr>"
  let ?s = "enc_update (rf_en_mq_update (\<lambda>_. Some [?m])) (cold (\<lambda>_. False) (sample_env ''1''))"
  have "rf_en_mq (enc ?s) = Some [?m]" "Ack ?m \<noteq> 0" "sent (enc ?s) = []" by (simp_all add: cold_def)
  then show ?thesis using retries_bounded [of ?s ?m "[]" "rf_encode_start ?s" 7] by simp
qed


text \<open>
  The sender a received frame names: the second number of a frame between nodes, and of a frame of the gateway.
\<close>

definition frame_sender :: "Message \<Rightarrow> string \<Rightarrow> uint32" where
  "frame_sender g buf = From_ID (if byte_at buf 1 = CHR ''{'' then parse_normal (c_string_at buf 1) g
     else parse_gateway (c_string_at buf 1) g)"

text \<open>
  C11: A received frame, of either format and with any contents, whose sender has an identifier other than 0 that is in no slot
  of the table, changes nothing but the signal lights when the device is not in the learn mode, and a frame
  of the format of the gateway not even then: no field of the state outside the LED layer, and no pin that is not a signal pin.
\<close>

theorem stranger_ignored:
  assumes "reachable s" "Learn_Flag (dec s) = 0 \<or> byte_at buf 1 = CHR ''G''"
    "frame_sender g buf \<noteq> 0" "frame_sender g buf \<notin> enrolled (dev s)"
  shows "\<exists>u. rf433_rx_callback g rssi buf n s = s\<lparr>ui := u\<rparr> \<and> signal_frame (board_of s) (bd u)"
proof -
  have ok: "leds_ok (ui s)" and wf: "table_wf (dev s)"
    using reachable_sys_inv [OF assms(1)] by (auto simp: sys_inv_def base_ok_def table_ok_def)
  have v: "Flash_Get_Key_Valid (frame_sender g buf) (dev s) \<noteq> RT_EOK" using known_enrolled [OF wf assms(3)] assms(4) by simp
  let ?m = "parse_normal (c_string_at buf 1) g"
  define f where "f = block [(if From_ID ?m = GetGatewayID (dev s) then wifi_communication_blink (Gateway_ID (gw s)) else id),
     (if From_ID ?m = 98989898 then if rssi < - 85 then Factory_WarningRing else Factory_NormalRing else id)]"
  have f: "led_safe f" unfolding f_def by (intro led_safe_intros)
  have "rf433_rx_callback g rssi buf n s = s \<or> rf433_rx_callback g rssi buf n s = ui_update f s"
  proof (cases "byte_at buf 1 = CHR ''{''")
    case True
    then show ?thesis
      using assms(2) v
      by (auto simp: rf433_rx_callback_def frame_sender_def NormalSolve_def f_def Let_def cond_def blink_def factory_rssi_def)
  next
    case False
    then show ?thesis
      using v by (auto simp: rf433_rx_callback_def frame_sender_def GatewayDataSolve_def Let_def cond_def Check_Valid_def)
  qed
  then show ?thesis
  proof
    assume "rf433_rx_callback g rssi buf n s = s"
    then show ?thesis by (intro exI [of _ "ui s"]) simp
  next
    assume "rf433_rx_callback g rssi buf n s = ui_update f s"
    then show ?thesis using led_safeD(2) [OF f ok] by (intro exI [of _ "f (ui s)"]) simp
  qed
qed

theorem stranger_ignored_witness:
  "\<exists>u. rf433_rx_callback sample_message 0 [] 0 (boot sample_hw (sample_env ''1'')) =
     (boot sample_hw (sample_env ''1''))\<lparr>ui := u\<rparr>"
proof -
  let ?s = "boot sample_hw (sample_env ''1'')"
  have "Learn_Flag (dec ?s) = 0" by (rule boot_quiet(4) [OF sample_loaded(1)])
  moreover have "enrolled (dev ?s) = {}" by (simp add: enrolled_def slots_def num16_def sample_table(2))
  moreover have "frame_sender sample_message [] \<noteq> 0"
    by (simp add: frame_sender_def byte_at_def c_string_at_def parse_gateway_def sample_message_def)
  ultimately show ?thesis
    using stranger_ignored [OF sample_reachable, of "''1''" "[]" sample_message 0 0] by blast
qed

section \<open>Invariants of the services\<close>

text \<open>
  C7: Once the start-up of \<open>main\<close> is complete, no assertion of the kernel services fails, in any reachable state:
  every timer, semaphore, queue and LED object exists when it is used. The start-up is one step here, so no frame is
  received before its end, and that is needed: a synchronisation command of the gateway that the receiver, which \<open>RF_Init\<close>
  has started, hands on before \<open>Gateway_Init\<close> has created the timer does make an assertion fail.
\<close>

theorem no_assertion_fails:
  assumes "reachable s"
  shows "\<not> fault (board_of s) \<and>
    (\<forall>hw e m. persist_ok e \<and> msg_Command m = 4 \<longrightarrow>
      fault (board_of (gateway_command m (main_services hw (cold (hw_pins hw) e)))))"
proof (intro conjI allI impI)
  show "\<not> fault (board_of s)"
    using reachable_sys_inv [OF assms] by (auto simp: sys_inv_def base_ok_def kernel_ok_def)
  fix hw e and m :: Message
  assume a: "persist_ok e \<and> msg_Command m = 4"
  let ?s = "main_services hw (cold (hw_pins hw) e)" and ?M = "{Learn_Timer, Delay_Timer}"
  have u: "grows ?M ?M (WarUpload_GW b i c v)" "grows ?M ?M (ControlUpload_GW b i c v)" for b i c v
    by (rule grows_neutral, rule refines_uplink)+
  have p: "grows ?M ?M (report_valve 1 0 5)" "grows ?M ?M PowerOn_Upload"
    unfolding report_valve_def PowerOn_Upload_def
    by (rule grows_reading, rule u, rule grows_reading)
      (simp split: Device_Status.split, blast intro: u grows_block grows_cond grows_id)
  then have "starting ?M (PowerOn_Upload (report_valve 1 0 5 ?s))"
    using services_start [of e hw "hw_pins hw"] a unfolding grows_def by blast
  then have "\<not> timer_made Gateway_Sync_t (board_of (PowerOn_Upload (report_valve 1 0 5 ?s)))"
    by (auto simp: starting_def base_ok_def kernel_ok_def)
  then show "fault (board_of (gateway_command m (main_services hw (cold (hw_pins hw) e))))"
    using a by (simp add: gateway_command_def Gateway_Sync_def timer_made_def rt_timer_start_def)
qed

theorem no_assertion_fails_witness: "\<not> fault (board_of (boot sample_hw (sample_env ''1'')))"
  using no_assertion_fails [OF sample_reachable] by blast

text \<open>C9: The device table stays within its arrays: at most 12 slots are used, the door and gateway slots are
  among them, the arrays keep their 20 entries, unused slots hold no identifier, and no update loop runs forever.\<close>

theorem table_in_bounds:
  assumes "reachable s"
  shows "Num (table_of s) \<le> 12 \<and> DoorNum (table_of s) \<le> Num (table_of s) \<and> GatewayNum (table_of s) \<le> Num (table_of s) \<and>
    length (ID (table_of s)) = 20 \<and> length (Alive (table_of s)) = 20 \<and> length (ID_Time (table_of s)) = 20 \<and>
    (\<forall>n. unat (Num (table_of s)) < n \<longrightarrow> arr_get (ID (table_of s)) n = 0) \<and> \<not> stuck (dev s)"
  using reachable_sys_inv [OF assms]
  by (auto simp: sys_inv_def base_ok_def table_ok_def table_wf_def roles_ok_def arrays_ok_def)

theorem table_in_bounds_witness: "Num (table_of (boot sample_hw (sample_env ''1''))) \<le> 12"
  using table_in_bounds [OF sample_reachable] by blast

text \<open>C10: The radio send queue exists and never holds more than its 10 messages.\<close>

theorem queue_in_bounds:
  assumes "reachable s"
  shows "\<exists>q. rf_en_mq (enc s) = Some q \<and> length q \<le> 10"
  using reachable_sys_inv [OF assms]
  by (auto simp: sys_inv_def base_ok_def queue_ok_def RF_MQ_MSGS_def split: option.splits)

theorem queue_in_bounds_witness: "rf_en_mq (enc (boot sample_hw (sample_env ''1''))) \<noteq> None"
  using queue_in_bounds [OF sample_reachable, of "''1''"] by auto

text \<open>C14: In every reachable state one pass of the LED thread ends within its bound of rounds, keeps the LED
  layer in order and writes no pin but the signal pins.\<close>

theorem lights_end:
  assumes "reachable s"
  shows "\<exists>u. led_process_pass (led_complete h) (ui s) = Some u \<and> leds_ok u \<and> signal_frame (board_of s) (bd u)"
  using reachable_sys_inv [OF assms] by (intro led_thread.led_pass_total) (auto simp: sys_inv_def base_ok_def)

theorem lights_end_witness: "led_process_pass (led_complete 0) (ui (boot sample_hw (sample_env ''1''))) \<noteq> None"
  using lights_end [OF sample_reachable [of "''1''"], of 0] by auto

section \<open>Restart\<close>

text \<open>
  C8: What the valve does when the power comes back: with a stored sensor alarm it stays shut and the alarm is
  shown; when it was closed remotely it stays shut; otherwise it opens.
\<close>

theorem restart_valve:
  assumes "persist_ok e"
  shows "let db = flash_loaded hw e; s = boot hw e in
    (Flash_Get_SlaveAlarmFlag db \<noteq> 0 \<longrightarrow> ValveStatus (ky s) = 0 \<and> Now_Status (sta s) = SlaverWaterAlarmActive) \<and>
    (Flash_Get_SlaveAlarmFlag db = 0 \<and> LastFlag (Global_Device db) = OtherOff \<longrightarrow>
       ValveStatus (ky s) = 0 \<and> Now_Status (sta s) = Close) \<and>
    (Flash_Get_SlaveAlarmFlag db = 0 \<and> LastFlag (Global_Device db) \<noteq> OtherOff \<longrightarrow>
       ValveStatus (ky s) = 1 \<and> Now_Status (sta s) = Open)"
proof -
  obtain s X where s: "base_ok MOTO_TIMERS X s" "priority (NowStatusEvent (sta s)) = 0" "ValveStatus (ky s) = 0"
    "Now_Status (sta s) = Close" "dev s = flash_loaded hw e"
    "sta (boot hw e) = sta (moto_resume s)" "ky (boot hw e) = ky (moto_resume s)"
    using boot_resumes [OF assms, of hw] by metis
  show ?thesis using resume_valve [OF s(1-4)] by (simp add: s(5-7))
qed

theorem restart_valve_witness: "ValveStatus (ky (boot sample_hw (sample_env ''1''))) = 1"
  using restart_valve [OF sample_persist, of sample_hw "''1''"] sample_loaded(1) sample_flag(2)
  by (simp add: Let_def)

section \<open>Power loss and reset\<close>

text \<open>
  C15: A loss of power loses nothing of the registry: from any reachable state with a working store, the restart finds
  the same devices in the same slots and roles, and a valve that was locked is shut.
\<close>

theorem power_loss:
  assumes "reachable s" "ef_usable (env (dev s))" "hw_probe hw" "hw_store hw"
  defines "s' \<equiv> boot hw (env (dev s))"
  shows "Num (table_of s') = Num (table_of s) \<and> DoorNum (table_of s') = DoorNum (table_of s) \<and>
    GatewayNum (table_of s') = GatewayNum (table_of s) \<and>
    (\<forall>n. n \<noteq> 0 \<longrightarrow> arr_get (ID (table_of s')) n = arr_get (ID (table_of s)) n) \<and>
    (LastFlag (table_of s) = OtherOff \<longrightarrow> valve_shut s')"
  using restart_loads [OF assms(1-4)] restart_locked [OF assms(1-4)] by (simp add: s'_def)

theorem power_loss_witness: "valve_shut (boot sample_hw (env (dev (boot sample_hw (sample_env ''2'')))))"
  using power_loss [OF sample_reachable sample_usable, of sample_hw] sample_flag(1) sample_table(3)
  by (simp add: sample_ready)

text \<open>
  C30: The factory reset forgets every device: after the two-key gesture and the restart that follows it, the table is
  empty and the valve is open.
\<close>

theorem factory_reset:
  assumes "key_round s = (True, s')" "init_ok (env (dev s))" "hw_probe hw" "hw_store hw"
  defines "t \<equiv> boot hw (env (dev s'))"
  shows "enrolled (dev t) = {} \<and> Num (table_of t) = 0 \<and> ValveStatus (ky t) = 1"
proof -
  note l = default_loaded [OF assms(3,4,2)]
  have e: "t = boot hw (ef_env_set_default (env (dev s)))" using wipe_env [OF assms(1)] by (simp add: t_def)
  obtain b X where b: "base_ok MOTO_TIMERS X b" "priority (NowStatusEvent (sta b)) = 0" "ValveStatus (ky b) = 0"
    "Now_Status (sta b) = Close" "dev b = flash_loaded hw (ef_env_set_default (env (dev s)))"
    "sta t = sta (moto_resume b)" "ky t = ky (moto_resume b)"
    unfolding e using boot_resumes [OF l(1), of hw] by metis
  have "ValveStatus (ky t) = 1" using resume_valve(3) [OF b(1-4)] l b(5,7) by simp
  moreover have n: "Num (table_of t) = 0" unfolding e using boot_quiet(9) [OF l(4)] l(2) by simp
  moreover have "enrolled (dev t) = {}" by (simp add: enrolled_def num16_def n slots_def)
  ultimately show ?thesis by simp
qed

theorem factory_reset_witness:
  "enrolled (dev (boot sample_hw (env (dev (snd (key_round gesture_state)))))) = {}"
proof -
  obtain s' where "key_round gesture_state = (True, s')" using gesture_round by (cases "key_round gesture_state") auto
  moreover have "init_ok (env (dev gesture_state))" by (simp add: gesture_state_def easyflash_init_def)
  ultimately show ?thesis using factory_reset [of gesture_state s' sample_hw] by (simp add: sample_ready)
qed

end
